theory Spec2Isabelle
  imports Main "HOL-Library.Monad_Syntax" "HOL-Library.Code_Target_Nat"
begin

section \<open>Memory: blocks, pointers and the standard algorithms\<close>

text \<open>
  Both containers of the repository (\<^verbatim>\<open>Vector\<close> in vector.h and \<^verbatim>\<open>SimpleVector\<close> in
  simple_vector.h) keep their elements in a block obtained from the free store and reach
  it through raw pointers. The free store is modelled as a list of blocks: the block with
  address \<open>a\<close> is entry \<open>a - 1\<close> of the list, address \<open>0\<close> is the null pointer, a
  released block becomes \<open>None\<close>, and an allocation appends a block, so that its
  address is fresh. A pointer is the address of a block and an element offset into it.

  An access outside an allocated block is undefined behaviour in C++; every primitive
  returns \<open>None\<close> there, and \<open>None\<close> is propagated by everything built on it.
  Allocation itself is taken to succeed (\<^verbatim>\<open>std::bad_alloc\<close> is not modelled).
\<close>

type_synonym addr = nat
type_synonym ptr = "addr \<times> nat"
type_synonym 'c heap = "'c list option list"

definition nullptr :: ptr where
  "nullptr = (0, 0)"

definition ptr_add :: "ptr \<Rightarrow> nat \<Rightarrow> ptr" where
  "ptr_add p k = (fst p, snd p + k)"

definition ptr_sub :: "ptr \<Rightarrow> nat \<Rightarrow> ptr option" where
  "ptr_sub p k = (if k \<le> snd p then Some (fst p, snd p - k) else None)"

definition block :: "'c heap \<Rightarrow> addr \<Rightarrow> 'c list option" where
  "block h a = (if 0 < a \<and> a \<le> length h then h ! (a - 1) else None)"

definition upd_block :: "'c heap \<Rightarrow> addr \<Rightarrow> 'c list \<Rightarrow> 'c heap" where
  "upd_block h a cs = (if 0 < a then h[a - 1 := Some cs] else h)"

definition free_block :: "'c heap \<Rightarrow> addr \<Rightarrow> 'c heap" where
  "free_block h a = (if 0 < a then h[a - 1 := None] else h)"

definition operator_new :: "'c heap \<Rightarrow> 'c list \<Rightarrow> ptr \<times> 'c heap" where
  "operator_new h cells = ((Suc (length h), 0), h @ [Some cells])"

definition operator_delete :: "'c heap \<Rightarrow> ptr \<Rightarrow> 'c heap" where
  "operator_delete h p = (if p = nullptr then h else free_block h (fst p))"

definition deref :: "'c heap \<Rightarrow> ptr \<Rightarrow> 'c option" where
  "deref h p =
     (case block h (fst p) of
        None \<Rightarrow> None
      | Some cs \<Rightarrow> if snd p < length cs then Some (cs ! snd p) else None)"

definition store :: "'c heap \<Rightarrow> ptr \<Rightarrow> 'c \<Rightarrow> 'c heap option" where
  "store h p x =
     (case block h (fst p) of
        None \<Rightarrow> None
      | Some cs \<Rightarrow> if snd p < length cs then Some (upd_block h (fst p) (cs[snd p := x])) else None)"

text \<open>\<^verbatim>\<open>std::distance(p, q)\<close> for two pointers: defined only inside one block and
  when \<open>q\<close> is not before \<open>p\<close>.\<close>

definition std_distance :: "ptr \<Rightarrow> ptr \<Rightarrow> nat option" where
  "std_distance p q =
     (if fst p = fst q \<and> snd p \<le> snd q then Some (snd q - snd p) else None)"

text \<open>The loop of \<^verbatim>\<open>std::fill\<close>, \<^verbatim>\<open>std::uninitialized_value_construct_n\<close> and
  \<^verbatim>\<open>std::destroy_n\<close>: \<open>n\<close> cells from \<open>p\<close> on receive \<open>x\<close>.\<close>

fun fill_n :: "'c heap \<Rightarrow> ptr \<Rightarrow> nat \<Rightarrow> 'c \<Rightarrow> 'c heap option" where
  "fill_n h p 0 x = Some h"
| "fill_n h p (Suc n) x =
     (case store h p x of
        None \<Rightarrow> None
      | Some h' \<Rightarrow> fill_n h' (ptr_add p 1) n x)"

text \<open>The forward loop of \<^verbatim>\<open>std::copy\<close>, \<^verbatim>\<open>std::move\<close>, \<^verbatim>\<open>std::uninitialized_copy_n\<close>
  and \<^verbatim>\<open>std::uninitialized_move_n\<close>: cell by cell from the front, the target receives the
  source's value and the source is left as \<open>f\<close> of it (\<open>f\<close> is the identity for a copy
  and the moved-from state for a move).\<close>

fun transfer :: "('c \<Rightarrow> 'c) \<Rightarrow> 'c heap \<Rightarrow> ptr \<Rightarrow> nat \<Rightarrow> ptr \<Rightarrow> 'c heap option" where
  "transfer f h src 0 dst = Some h"
| "transfer f h src (Suc n) dst =
     (case deref h src of
        None \<Rightarrow> None
      | Some x \<Rightarrow>
          (case store h dst x of
             None \<Rightarrow> None
           | Some h1 \<Rightarrow>
               (case store h1 src (f x) of
                  None \<Rightarrow> None
                | Some h2 \<Rightarrow> transfer f h2 (ptr_add src 1) n (ptr_add dst 1))))"

text \<open>The backward loop of \<^verbatim>\<open>std::copy_backward\<close> and \<^verbatim>\<open>std::move_backward\<close>: the
  \<open>n\<close> cells from \<open>first\<close> on go to the range that ends at \<open>d_last\<close>, last cell first.\<close>

fun transfer_backward :: "('c \<Rightarrow> 'c) \<Rightarrow> 'c heap \<Rightarrow> ptr \<Rightarrow> nat \<Rightarrow> ptr \<Rightarrow> 'c heap option" where
  "transfer_backward f h first 0 d_last = Some h"
| "transfer_backward f h first (Suc n) d_last =
     (case ptr_sub d_last 1 of
        None \<Rightarrow> None
      | Some dst \<Rightarrow>
          (case deref h (ptr_add first n) of
             None \<Rightarrow> None
           | Some x \<Rightarrow>
               (case store h dst x of
                  None \<Rightarrow> None
                | Some h1 \<Rightarrow>
                    (case store h1 (ptr_add first n) (f x) of
                       None \<Rightarrow> None
                     | Some h2 \<Rightarrow> transfer_backward f h2 first n dst))))"

text \<open>The standard algorithms the two headers call, by their names.\<close>

definition std_fill :: "'c heap \<Rightarrow> ptr \<Rightarrow> ptr \<Rightarrow> 'c \<Rightarrow> 'c heap option" where
  "std_fill h p q x = (case std_distance p q of None \<Rightarrow> None | Some n \<Rightarrow> fill_n h p n x)"

definition std_copy :: "'c heap \<Rightarrow> ptr \<Rightarrow> ptr \<Rightarrow> ptr \<Rightarrow> 'c heap option" where
  "std_copy h p q d_first =
     (case std_distance p q of None \<Rightarrow> None | Some n \<Rightarrow> transfer (\<lambda>c. c) h p n d_first)"

definition std_copy_n :: "'c heap \<Rightarrow> ptr \<Rightarrow> nat \<Rightarrow> ptr \<Rightarrow> 'c heap option" where
  "std_copy_n h p n d_first = transfer (\<lambda>c. c) h p n d_first"

definition std_copy_backward :: "'c heap \<Rightarrow> ptr \<Rightarrow> ptr \<Rightarrow> ptr \<Rightarrow> 'c heap option" where
  "std_copy_backward h p q d_last =
     (case std_distance p q of None \<Rightarrow> None | Some n \<Rightarrow> transfer_backward (\<lambda>c. c) h p n d_last)"

definition std_move :: "('c \<Rightarrow> 'c) \<Rightarrow> 'c heap \<Rightarrow> ptr \<Rightarrow> ptr \<Rightarrow> ptr \<Rightarrow> 'c heap option" where
  "std_move mv h p q d_first =
     (case std_distance p q of None \<Rightarrow> None | Some n \<Rightarrow> transfer mv h p n d_first)"

definition std_move_backward :: "('c \<Rightarrow> 'c) \<Rightarrow> 'c heap \<Rightarrow> ptr \<Rightarrow> ptr \<Rightarrow> ptr \<Rightarrow> 'c heap option" where
  "std_move_backward mv h p q d_last =
     (case std_distance p q of None \<Rightarrow> None | Some n \<Rightarrow> transfer_backward mv h p n d_last)"

section \<open>Element types, exceptions and outcomes\<close>

text \<open>
  Both containers are templates. What the element type \<^verbatim>\<open>T\<close> contributes is a record:
  the value-initialised object \<^verbatim>\<open>T()\<close>, the content of a default-initialised array
  element (\<^verbatim>\<open>new T[n]\<close>), the state an object is left in once it has been moved from
  (the identity for \<^verbatim>\<open>int\<close>, the empty string for \<^verbatim>\<open>std::string\<close>), and the
  compile-time condition of \<^verbatim>\<open>Vector::UnitializedN\<close>,
  \<^verbatim>\<open>is_nothrow_move_constructible_v<T> || !is_copy_constructible_v<T>\<close>, and
  \<^verbatim>\<open>sizeof(T)\<close>, the number of bytes of an object.

  Of the operations of \<^verbatim>\<open>T\<close>, two may throw. The one that builds the new element of
  an append or an insert from the caller's arguments. \<^verbatim>\<open>Vector\<close> constructs the new
  element from the arguments before it touches any element it holds, so its operations
  receive the outcome of that construction, \<open>Some x\<close> when it yields the object \<open>x\<close>
  and \<open>None\<close> when it throws. \<^verbatim>\<open>SimpleVector\<close> assigns from its reference argument
  after it has relocated elements, so its operations receive the reference itself (see
  \<open>reference\<close> below), or \<open>None\<close> when the assignment from it throws. And
  value-initialisation: \<open>value_init\<close> is \<open>None\<close> for a type whose \<^verbatim>\<open>T()\<close> throws.
  Relocating and assigning elements that the container already holds is taken not to
  throw.

  A call returns a result and a state, or throws and leaves a state behind, or is
  undefined: an \<^verbatim>\<open>assert\<close> of the code fails or the behaviour is undefined in C++.

  \<^verbatim>\<open>size_t\<close> is 64 bits wide. Sizes are natural numbers; a decrement wraps around as
  written in \<open>size_t_sub\<close> and the byte count \<^verbatim>\<open>n * sizeof(T)\<close> of an allocation
  wraps around as written in \<open>Allocate\<close>, while the element counts \<^verbatim>\<open>size_ + 1\<close> and
  \<^verbatim>\<open>size_ * 2\<close> are taken not to reach \<open>2 ^ 64\<close> (there is no memory for that many
  elements).
\<close>

record 'a elem_type =
  value_init :: "'a option"
  default_init :: 'a
  moved_from :: "'a \<Rightarrow> 'a"
  nothrow_move :: bool
  sizeof :: nat

datatype exn = out_of_range string | element_exception

datatype ('r, 's) outcome = Returns 'r 's | Throws exn 's | Undefined

definition size_t_sub :: "nat \<Rightarrow> nat \<Rightarrow> nat" where
  "size_t_sub a b = (if b \<le> a then a - b else a + 2 ^ 64 - b)"

section \<open>vector.h: RawMemory\<close>

text \<open>A slot of raw memory is uninitialised, or holds a constructed object.\<close>

datatype 'a slot = Raw | Obj 'a

definition slot_moved :: "'a elem_type \<Rightarrow> 'a slot \<Rightarrow> 'a slot" where
  "slot_moved T c = (case c of Raw \<Rightarrow> Raw | Obj x \<Rightarrow> Obj (moved_from T x))"

text \<open>\<^verbatim>\<open>std::uninitialized_value_construct_n\<close>: nothing is constructed when the first
  \<^verbatim>\<open>T()\<close> throws.\<close>

definition uninitialized_value_construct_n ::
  "'a elem_type \<Rightarrow> 'a slot heap \<Rightarrow> ptr \<Rightarrow> nat \<Rightarrow> (unit, 'a slot heap) outcome" where
  "uninitialized_value_construct_n T h p n =
     (if n = 0 then Returns () h
      else
        (case value_init T of
           None \<Rightarrow> Throws element_exception h
         | Some d \<Rightarrow>
             (case fill_n h p n (Obj d) of
                None \<Rightarrow> Undefined
              | Some h1 \<Rightarrow> Returns () h1)))"

definition uninitialized_copy_n :: "'a slot heap \<Rightarrow> ptr \<Rightarrow> nat \<Rightarrow> ptr \<Rightarrow> 'a slot heap option" where
  "uninitialized_copy_n h p n d_first = transfer (\<lambda>c. c) h p n d_first"

definition uninitialized_move_n ::
  "'a elem_type \<Rightarrow> 'a slot heap \<Rightarrow> ptr \<Rightarrow> nat \<Rightarrow> ptr \<Rightarrow> 'a slot heap option" where
  "uninitialized_move_n T h p n d_first = transfer (slot_moved T) h p n d_first"

definition destroy_n :: "'a slot heap \<Rightarrow> ptr \<Rightarrow> nat \<Rightarrow> 'a slot heap option" where
  "destroy_n h p n = fill_n h p n Raw"

definition destroy_at :: "'a slot heap \<Rightarrow> ptr \<Rightarrow> 'a slot heap option" where
  "destroy_at h p = store h p Raw"

text \<open>The members \<^verbatim>\<open>buffer_\<close> and \<^verbatim>\<open>capacity_\<close>.\<close>

record RawMemory =
  rm_buffer :: ptr
  rm_capacity :: nat

text \<open>\<^verbatim>\<open>Allocate(n)\<close> passes \<^verbatim>\<open>n * sizeof(T)\<close>, a product in \<^verbatim>\<open>size_t\<close>, to
  \<^verbatim>\<open>operator new\<close>. The block it receives has room for as many objects as fit into
  that many bytes: \<open>n\<close> of them when the product is below \<open>2 ^ 64\<close>, fewer when it
  wraps around.\<close>

definition Allocate :: "'a elem_type \<Rightarrow> 'a slot heap \<Rightarrow> nat \<Rightarrow> ptr \<times> 'a slot heap" where
  "Allocate T h n =
     (if n \<noteq> 0 then operator_new h (replicate ((n * sizeof T) mod 2 ^ 64 div sizeof T) Raw)
      else (nullptr, h))"

definition Deallocate :: "'a slot heap \<Rightarrow> ptr \<Rightarrow> 'a slot heap" where
  "Deallocate h buf = operator_delete h buf"

definition RawMemory_default :: RawMemory where
  "RawMemory_default = \<lparr>rm_buffer = nullptr, rm_capacity = 0\<rparr>"

definition RawMemory_sized ::
  "'a elem_type \<Rightarrow> 'a slot heap \<Rightarrow> nat \<Rightarrow> RawMemory \<times> 'a slot heap" where
  "RawMemory_sized T h capacity =
     (let (p, h') = Allocate T h capacity in (\<lparr>rm_buffer = p, rm_capacity = capacity\<rparr>, h'))"

definition RawMemory_destroy :: "'a slot heap \<Rightarrow> RawMemory \<Rightarrow> 'a slot heap" where
  "RawMemory_destroy h m = Deallocate h (rm_buffer m)"

text \<open>Move assignment takes the block of \<open>rhs\<close> and leaves \<open>rhs\<close> empty; the block held
  before is not released.\<close>

definition RawMemory_move_assign :: "RawMemory \<Rightarrow> RawMemory \<Rightarrow> RawMemory \<times> RawMemory" where
  "RawMemory_move_assign this rhs =
     (this\<lparr>rm_buffer := rm_buffer rhs, rm_capacity := rm_capacity rhs\<rparr>,
      rhs\<lparr>rm_buffer := nullptr, rm_capacity := 0\<rparr>)"

text \<open>\<^verbatim>\<open>operator+\<close> and \<^verbatim>\<open>operator[]\<close> with their assertions.\<close>

definition RawMemory_plus :: "RawMemory \<Rightarrow> nat \<Rightarrow> ptr option" where
  "RawMemory_plus m offset = (if offset \<le> rm_capacity m then Some (ptr_add (rm_buffer m) offset) else None)"

definition RawMemory_index :: "RawMemory \<Rightarrow> nat \<Rightarrow> ptr option" where
  "RawMemory_index m index = (if index < rm_capacity m then Some (ptr_add (rm_buffer m) index) else None)"

definition RawMemory_Swap :: "RawMemory \<Rightarrow> RawMemory \<Rightarrow> RawMemory \<times> RawMemory" where
  "RawMemory_Swap this other = (other, this)"

definition GetAddress :: "RawMemory \<Rightarrow> ptr" where
  "GetAddress m = rm_buffer m"

section \<open>vector.h: Vector\<close>

text \<open>The members \<^verbatim>\<open>data_\<close> and \<^verbatim>\<open>size_\<close>.\<close>

record Vector =
  v_data :: RawMemory
  v_size :: nat

definition Vector_default :: Vector where
  "Vector_default = \<lparr>v_data = RawMemory_default, v_size = 0\<rparr>"

text \<open>\<^verbatim>\<open>Vector(size_t size)\<close>: when the construction of the elements throws, the member
  \<^verbatim>\<open>data_\<close> is destroyed and no vector comes into being.\<close>

definition Vector_sized :: "'a elem_type \<Rightarrow> 'a slot heap \<Rightarrow> nat \<Rightarrow> (Vector, 'a slot heap) outcome" where
  "Vector_sized T h n =
     (let (d, h1) = RawMemory_sized T h n in
      case uninitialized_value_construct_n T h1 (GetAddress d) n of
        Returns u h2 \<Rightarrow> Returns \<lparr>v_data = d, v_size = n\<rparr> h2
      | Throws e h2 \<Rightarrow> Throws e (RawMemory_destroy h2 d)
      | Undefined \<Rightarrow> Undefined)"

definition Vector_copy ::
  "'a elem_type \<Rightarrow> 'a slot heap \<Rightarrow> Vector \<Rightarrow> ('a slot heap \<times> Vector) option" where
  "Vector_copy T h other =
     (let (d, h1) = RawMemory_sized T h (v_size other) in
      case uninitialized_copy_n h1 (GetAddress (v_data other)) (v_size other) (GetAddress d) of
        None \<Rightarrow> None
      | Some h2 \<Rightarrow> Some (h2, \<lparr>v_data = d, v_size = v_size other\<rparr>))"

definition Vector_Swap :: "Vector \<Rightarrow> Vector \<Rightarrow> Vector \<times> Vector" where
  "Vector_Swap this other =
     (let (d, d') = RawMemory_Swap (v_data this) (v_data other) in
      (\<lparr>v_data = d, v_size = v_size other\<rparr>, \<lparr>v_data = d', v_size = v_size this\<rparr>))"

text \<open>The move constructor: the new vector, then what is left of \<open>other\<close>.\<close>

definition Vector_move :: "Vector \<Rightarrow> Vector \<times> Vector" where
  "Vector_move other = Vector_Swap Vector_default other"

definition Vector_destroy :: "'a slot heap \<Rightarrow> Vector \<Rightarrow> 'a slot heap option" where
  "Vector_destroy h v =
     (case destroy_n h (GetAddress (v_data v)) (v_size v) of
        None \<Rightarrow> None
      | Some h1 \<Rightarrow> Some (RawMemory_destroy h1 (v_data v)))"

definition Size :: "Vector \<Rightarrow> nat" where
  "Size v = v_size v"

definition Capacity :: "Vector \<Rightarrow> nat" where
  "Capacity v = rm_capacity (v_data v)"

definition Vector_begin :: "Vector \<Rightarrow> ptr" where
  "Vector_begin v = GetAddress (v_data v)"

definition Vector_end :: "Vector \<Rightarrow> ptr" where
  "Vector_end v = ptr_add (GetAddress (v_data v)) (v_size v)"

definition Vector_cbegin :: "Vector \<Rightarrow> ptr" where
  "Vector_cbegin v = GetAddress (v_data v)"

definition Vector_cend :: "Vector \<Rightarrow> ptr" where
  "Vector_cend v = ptr_add (GetAddress (v_data v)) (v_size v)"

text \<open>\<^verbatim>\<open>operator[]\<close> yields a reference, here the pointer to the slot; \<open>Vector_get\<close>
  reads through it.\<close>

definition Vector_index :: "Vector \<Rightarrow> nat \<Rightarrow> ptr option" where
  "Vector_index v index = (if index < v_size v then RawMemory_index (v_data v) index else None)"

definition Vector_get :: "'a slot heap \<Rightarrow> Vector \<Rightarrow> nat \<Rightarrow> 'a option" where
  "Vector_get h v index =
     (case Vector_index v index of
        None \<Rightarrow> None
      | Some p \<Rightarrow> (case deref h p of Some (Obj x) \<Rightarrow> Some x | _ \<Rightarrow> None))"

definition Vector_set :: "'a slot heap \<Rightarrow> Vector \<Rightarrow> nat \<Rightarrow> 'a \<Rightarrow> 'a slot heap option" where
  "Vector_set h v index x =
     (case Vector_index v index of None \<Rightarrow> None | Some p \<Rightarrow> store h p (Obj x))"

definition UnitializedN ::
  "'a elem_type \<Rightarrow> 'a slot heap \<Rightarrow> ptr \<Rightarrow> nat \<Rightarrow> ptr \<Rightarrow> 'a slot heap option" where
  "UnitializedN T h p n d_first =
     (if nothrow_move T then uninitialized_move_n T h p n d_first
      else uninitialized_copy_n h p n d_first)"

definition Vector_Reserve ::
  "'a elem_type \<Rightarrow> 'a slot heap \<Rightarrow> Vector \<Rightarrow> nat \<Rightarrow> ('a slot heap \<times> Vector) option" where
  "Vector_Reserve T h v new_capacity =
     (if new_capacity \<le> rm_capacity (v_data v) then Some (h, v)
      else
        let (new_data, h1) = RawMemory_sized T h new_capacity in
        do {
          h2 \<leftarrow> UnitializedN T h1 (GetAddress (v_data v)) (v_size v) (GetAddress new_data);
          h3 \<leftarrow> destroy_n h2 (GetAddress (v_data v)) (v_size v);
          let (d, old) = RawMemory_Swap (v_data v) new_data;
          Some (RawMemory_destroy h3 old, v\<lparr>v_data := d\<rparr>)
        })"

definition Vector_Resize ::
  "'a elem_type \<Rightarrow> 'a slot heap \<Rightarrow> Vector \<Rightarrow> nat \<Rightarrow> (unit, 'a slot heap \<times> Vector) outcome" where
  "Vector_Resize T h v new_size =
     (if v_size v > new_size then
        (case destroy_n h (ptr_add (GetAddress (v_data v)) new_size) (v_size v - new_size) of
           None \<Rightarrow> Undefined
         | Some h1 \<Rightarrow> Returns () (h1, v\<lparr>v_size := new_size\<rparr>))
      else
        (case Vector_Reserve T h v new_size of
           None \<Rightarrow> Undefined
         | Some (h1, v1) \<Rightarrow>
             (case uninitialized_value_construct_n T h1
                     (ptr_add (GetAddress (v_data v1)) (v_size v1)) (new_size - v_size v1) of
                Returns u h2 \<Rightarrow> Returns () (h2, v1\<lparr>v_size := new_size\<rparr>)
              | Throws e h2 \<Rightarrow> Throws e (h2, v1)
              | Undefined \<Rightarrow> Undefined)))"

definition Vector_EmplaceBack ::
  "'a elem_type \<Rightarrow> 'a slot heap \<Rightarrow> Vector \<Rightarrow> 'a option \<Rightarrow> (ptr, 'a slot heap \<times> Vector) outcome" where
  "Vector_EmplaceBack T h v args =
     (if Capacity v = v_size v then
        let (new_data, h1) = RawMemory_sized T h (if v_size v = 0 then 1 else v_size v * 2) in
        (case RawMemory_plus new_data (v_size v) of
           None \<Rightarrow> Undefined
         | Some elem \<Rightarrow>
             (case args of
                None \<Rightarrow> Throws element_exception (RawMemory_destroy h1 new_data, v)
              | Some x \<Rightarrow>
                  (case do {
                          h2 \<leftarrow> store h1 elem (Obj x);
                          h3 \<leftarrow> UnitializedN T h2 (GetAddress (v_data v)) (v_size v) (GetAddress new_data);
                          destroy_n h3 (GetAddress (v_data v)) (v_size v)
                        } of
                     None \<Rightarrow> Undefined
                   | Some h4 \<Rightarrow>
                       let (d, old) = RawMemory_Swap (v_data v) new_data in
                       Returns elem (RawMemory_destroy h4 old, v\<lparr>v_data := d, v_size := v_size v + 1\<rparr>))))
      else
        (case RawMemory_plus (v_data v) (v_size v) of
           None \<Rightarrow> Undefined
         | Some elem \<Rightarrow>
             (case args of
                None \<Rightarrow> Throws element_exception (h, v)
              | Some x \<Rightarrow>
                  (case store h elem (Obj x) of
                     None \<Rightarrow> Undefined
                   | Some h1 \<Rightarrow> Returns elem (h1, v\<lparr>v_size := v_size v + 1\<rparr>)))))"

text \<open>Both overloads of \<^verbatim>\<open>PushBack\<close> forward to \<^verbatim>\<open>EmplaceBack\<close> and drop its result.\<close>

definition Vector_PushBack ::
  "'a elem_type \<Rightarrow> 'a slot heap \<Rightarrow> Vector \<Rightarrow> 'a option \<Rightarrow> (unit, 'a slot heap \<times> Vector) outcome" where
  "Vector_PushBack T h v val =
     (case Vector_EmplaceBack T h v val of
        Returns elem s \<Rightarrow> Returns () s
      | Throws e s \<Rightarrow> Throws e s
      | Undefined \<Rightarrow> Undefined)"

definition Vector_PopBack :: "'a slot heap \<Rightarrow> Vector \<Rightarrow> ('a slot heap \<times> Vector) option" where
  "Vector_PopBack h v =
     (let v1 = v\<lparr>v_size := size_t_sub (v_size v) 1\<rparr> in
      do {
        p \<leftarrow> RawMemory_plus (v_data v1) (v_size v1);
        h1 \<leftarrow> destroy_at h p;
        Some (h1, v1)
      })"

definition Vector_Emplace ::
  "'a elem_type \<Rightarrow> 'a slot heap \<Rightarrow> Vector \<Rightarrow> ptr \<Rightarrow> 'a option \<Rightarrow> (ptr, 'a slot heap \<times> Vector) outcome" where
  "Vector_Emplace T h v pos args =
     (if pos = Vector_cend v then Vector_EmplaceBack T h v args
      else
        (case std_distance (Vector_cbegin v) pos of
           None \<Rightarrow> Undefined
         | Some distance \<Rightarrow>
             if Capacity v = v_size v then
               let (new_data, h1) = RawMemory_sized T h (if v_size v = 0 then 1 else v_size v * 2) in
               (case RawMemory_plus new_data distance of
                  None \<Rightarrow> Undefined
                | Some elem \<Rightarrow>
                    (case args of
                       None \<Rightarrow> Throws element_exception (RawMemory_destroy h1 new_data, v)
                     | Some x \<Rightarrow>
                         (case do {
                                 h2 \<leftarrow> store h1 elem (Obj x);
                                 h3 \<leftarrow> UnitializedN T h2 (GetAddress (v_data v)) distance (GetAddress new_data);
                                 h4 \<leftarrow> UnitializedN T h3 (ptr_add (GetAddress (v_data v)) distance)
                                         (size_t_sub (v_size v) distance)
                                         (ptr_add (ptr_add (GetAddress new_data) distance) 1);
                                 destroy_n h4 (GetAddress (v_data v)) (v_size v)
                               } of
                            None \<Rightarrow> Undefined
                          | Some h5 \<Rightarrow>
                              let (d, old) = RawMemory_Swap (v_data v) new_data;
                                  v1 = v\<lparr>v_data := d, v_size := v_size v + 1\<rparr>
                              in Returns (ptr_add (Vector_begin v1) distance) (RawMemory_destroy h5 old, v1))))
             else
               (case args of
                  None \<Rightarrow> Throws element_exception (h, v)
                | Some temp \<Rightarrow>
                    (case do {
                            e1 \<leftarrow> ptr_sub (Vector_end v) 1;
                            h1 \<leftarrow> uninitialized_move_n T h e1 1 (Vector_end v);
                            h2 \<leftarrow> std_move_backward (slot_moved T) h1
                                    (ptr_add (Vector_begin v) distance) e1 (Vector_end v);
                            store h2 (ptr_add (Vector_begin v) distance) (Obj temp)
                          } of
                       None \<Rightarrow> Undefined
                     | Some h3 \<Rightarrow>
                         let v1 = v\<lparr>v_size := v_size v + 1\<rparr>
                         in Returns (ptr_add (Vector_begin v1) distance) (h3, v1)))))"

text \<open>Both overloads of \<^verbatim>\<open>Insert\<close> forward to \<^verbatim>\<open>Emplace\<close>.\<close>

definition Vector_Insert ::
  "'a elem_type \<Rightarrow> 'a slot heap \<Rightarrow> Vector \<Rightarrow> ptr \<Rightarrow> 'a option \<Rightarrow> (ptr, 'a slot heap \<times> Vector) outcome" where
  "Vector_Insert T h v pos val = Vector_Emplace T h v pos val"

definition Vector_Erase ::
  "'a elem_type \<Rightarrow> 'a slot heap \<Rightarrow> Vector \<Rightarrow> ptr \<Rightarrow> (ptr \<times> 'a slot heap \<times> Vector) option" where
  "Vector_Erase T h v pos =
     (if pos = Vector_cend v then
        do {
          (h1, v1) \<leftarrow> Vector_PopBack h v;
          Some (Vector_end v1, h1, v1)
        }
      else
        do {
          distance \<leftarrow> std_distance (Vector_cbegin v) pos;
          h1 \<leftarrow> std_move (slot_moved T) h (ptr_add (ptr_add (Vector_begin v) distance) 1)
                  (Vector_end v) (ptr_add (Vector_begin v) distance);
          (h2, v1) \<leftarrow> Vector_PopBack h1 v;
          Some (ptr_add (Vector_begin v1) distance, h2, v1)
        })"

text \<open>Copy assignment \<^verbatim>\<open>*this = rhs\<close> for two distinct objects (the code returns at once
  when \<^verbatim>\<open>this == &rhs\<close>). The temporary \<^verbatim>\<open>rhs_copy\<close> of the first branch holds the old
  block after the swap and is destroyed at the end of its scope.\<close>

definition Vector_assign ::
  "'a elem_type \<Rightarrow> 'a slot heap \<Rightarrow> Vector \<Rightarrow> Vector \<Rightarrow> ('a slot heap \<times> Vector) option" where
  "Vector_assign T h this rhs =
     (if v_size rhs > rm_capacity (v_data this) then
        do {
          (h1, rhs_copy) \<leftarrow> Vector_copy T h rhs;
          let (this1, rhs_copy1) = Vector_Swap this rhs_copy;
          h2 \<leftarrow> Vector_destroy h1 rhs_copy1;
          Some (h2, this1)
        }
      else
        do {
          h1 \<leftarrow> std_copy_n h (GetAddress (v_data rhs)) (min (v_size rhs) (v_size this))
                  (GetAddress (v_data this));
          h2 \<leftarrow> (if v_size this < v_size rhs then
                    uninitialized_copy_n h1 (ptr_add (GetAddress (v_data rhs)) (v_size this))
                      (v_size rhs - v_size this) (ptr_add (GetAddress (v_data this)) (v_size this))
                  else
                    destroy_n h1 (ptr_add (GetAddress (v_data this)) (v_size rhs))
                      (v_size this - v_size rhs));
          Some (h2, this\<lparr>v_size := v_size rhs\<rparr>)
        })"

text \<open>Move assignment for two distinct objects: the new \<open>this\<close>, then what is left of
  \<open>rhs\<close>.\<close>

definition Vector_move_assign :: "Vector \<Rightarrow> Vector \<Rightarrow> Vector \<times> Vector" where
  "Vector_move_assign this rhs =
     (let (d, d') = RawMemory_move_assign (v_data this) (v_data rhs) in
      (\<lparr>v_data = d, v_size = v_size rhs\<rparr>, \<lparr>v_data = d', v_size = 0\<rparr>))"

section \<open>simple_vector.h: SimpleVector\<close>

text \<open>
  Modelled from the spec: \<^verbatim>\<open>ArrayPtr\<close> is declared in array_ptr.h, which is not among the
  sources. As simple_vector.h uses it and as the spec describes the allocation of
  storage, it is an owning pointer to an array of the requested number of elements, the
  null pointer for zero elements; each element of a new array is a default-initialised
  object (\<open>default_init\<close>, an unknown of the element type), \<^verbatim>\<open>operator[]\<close> is unchecked
  and the destructor releases the array.
\<close>

definition ArrayPtr_sized :: "'a elem_type \<Rightarrow> 'a heap \<Rightarrow> nat \<Rightarrow> ptr \<times> 'a heap" where
  "ArrayPtr_sized T h n =
     (if n = 0 then (nullptr, h) else operator_new h (replicate n (default_init T)))"

definition ArrayPtr_destroy :: "'a heap \<Rightarrow> ptr \<Rightarrow> 'a heap" where
  "ArrayPtr_destroy h raw_ptr = operator_delete h raw_ptr"

definition ArrayPtr_index :: "ptr \<Rightarrow> nat \<Rightarrow> ptr" where
  "ArrayPtr_index raw_ptr index = ptr_add raw_ptr index"

text \<open>The members \<^verbatim>\<open>items_\<close>, \<^verbatim>\<open>size_\<close> and \<^verbatim>\<open>capacity_\<close>.\<close>

record SimpleVector =
  sv_items :: ptr
  sv_size :: nat
  sv_capacity :: nat

definition SimpleVector_begin :: "SimpleVector \<Rightarrow> ptr" where
  "SimpleVector_begin v = sv_items v"

definition SimpleVector_end :: "SimpleVector \<Rightarrow> ptr" where
  "SimpleVector_end v = ptr_add (sv_items v) (sv_size v)"

definition SimpleVector_cbegin :: "SimpleVector \<Rightarrow> ptr" where
  "SimpleVector_cbegin v = sv_items v"

definition SimpleVector_cend :: "SimpleVector \<Rightarrow> ptr" where
  "SimpleVector_cend v = ptr_add (sv_items v) (sv_size v)"

definition SimpleVector_default :: SimpleVector where
  "SimpleVector_default = \<lparr>sv_items = nullptr, sv_size = 0, sv_capacity = 0\<rparr>"

text \<open>\<^verbatim>\<open>SimpleVector(size_t size)\<close> and \<^verbatim>\<open>SimpleVector(size_t size, const Type& value)\<close>.\<close>

definition SimpleVector_filled ::
  "'a elem_type \<Rightarrow> 'a heap \<Rightarrow> nat \<Rightarrow> 'a \<Rightarrow> ('a heap \<times> SimpleVector) option" where
  "SimpleVector_filled T h n val =
     (let (items, h1) = ArrayPtr_sized T h n;
          v = \<lparr>sv_items = items, sv_size = n, sv_capacity = n\<rparr>
      in case std_fill h1 (SimpleVector_begin v) (SimpleVector_end v) val of
           None \<Rightarrow> None
         | Some h2 \<Rightarrow> Some (h2, v))"

text \<open>In \<^verbatim>\<open>SimpleVector(size_t size)\<close> the fill value is \<^verbatim>\<open>Type()\<close>; when that throws,
  the member \<^verbatim>\<open>items_\<close> is destroyed and no vector comes into being.\<close>

definition SimpleVector_sized ::
  "'a elem_type \<Rightarrow> 'a heap \<Rightarrow> nat \<Rightarrow> (SimpleVector, 'a heap) outcome" where
  "SimpleVector_sized T h n =
     (case value_init T of
        None \<Rightarrow> (let (items, h1) = ArrayPtr_sized T h n in Throws element_exception (ArrayPtr_destroy h1 items))
      | Some d \<Rightarrow>
          (case SimpleVector_filled T h n d of
             None \<Rightarrow> Undefined
           | Some (h2, v) \<Rightarrow> Returns v h2))"

text \<open>\<^verbatim>\<open>SimpleVector(std::initializer_list<Type> init)\<close>: the elements of the list are
  copied to the new array one after the other.\<close>

fun copy_from_list :: "'c heap \<Rightarrow> 'c list \<Rightarrow> ptr \<Rightarrow> 'c heap option" where
  "copy_from_list h [] d_first = Some h"
| "copy_from_list h (x # xs) d_first =
     (case store h d_first x of
        None \<Rightarrow> None
      | Some h1 \<Rightarrow> copy_from_list h1 xs (ptr_add d_first 1))"

definition SimpleVector_from_list ::
  "'a elem_type \<Rightarrow> 'a heap \<Rightarrow> 'a list \<Rightarrow> ('a heap \<times> SimpleVector) option" where
  "SimpleVector_from_list T h init =
     (let (items, h1) = ArrayPtr_sized T h (length init);
          v = \<lparr>sv_items = items, sv_size = length init, sv_capacity = length init\<rparr>
      in case copy_from_list h1 init (SimpleVector_begin v) of
           None \<Rightarrow> None
         | Some h2 \<Rightarrow> Some (h2, v))"

text \<open>\<^verbatim>\<open>SimpleVector(const ReserveProxyObj& new_capacity)\<close>, with the capacity the proxy
  carries.\<close>

definition SimpleVector_reserved :: "'a elem_type \<Rightarrow> 'a heap \<Rightarrow> nat \<Rightarrow> 'a heap \<times> SimpleVector" where
  "SimpleVector_reserved T h new_capacity =
     (let (items, h1) = ArrayPtr_sized T h new_capacity
      in (h1, \<lparr>sv_items = items, sv_size = 0, sv_capacity = new_capacity\<rparr>))"

definition GetSize :: "SimpleVector \<Rightarrow> nat" where
  "GetSize v = sv_size v"

definition GetCapacity :: "SimpleVector \<Rightarrow> nat" where
  "GetCapacity v = sv_capacity v"

definition IsEmpty :: "SimpleVector \<Rightarrow> bool" where
  "IsEmpty v = (GetSize v = 0)"

definition SimpleVector_copy ::
  "'a elem_type \<Rightarrow> 'a heap \<Rightarrow> SimpleVector \<Rightarrow> ('a heap \<times> SimpleVector) option" where
  "SimpleVector_copy T h other =
     (let (items, h1) = ArrayPtr_sized T h (GetCapacity other);
          v = \<lparr>sv_items = items, sv_size = GetSize other, sv_capacity = GetCapacity other\<rparr>
      in case std_copy h1 (SimpleVector_begin other) (SimpleVector_end other) (SimpleVector_begin v) of
           None \<Rightarrow> None
         | Some h2 \<Rightarrow> Some (h2, v))"

definition SimpleVector_swap :: "SimpleVector \<Rightarrow> SimpleVector \<Rightarrow> SimpleVector \<times> SimpleVector" where
  "SimpleVector_swap this other = (other, this)"

text \<open>The move constructor: the new vector, then what is left of \<open>other\<close>.\<close>

definition SimpleVector_move :: "SimpleVector \<Rightarrow> SimpleVector \<times> SimpleVector" where
  "SimpleVector_move other = SimpleVector_swap SimpleVector_default other"

text \<open>\<^verbatim>\<open>operator[]\<close> and \<^verbatim>\<open>At\<close> yield a reference, here the pointer to the element.\<close>

definition SimpleVector_index :: "SimpleVector \<Rightarrow> nat \<Rightarrow> ptr" where
  "SimpleVector_index v index = ArrayPtr_index (sv_items v) index"

definition SimpleVector_At ::
  "'a heap \<Rightarrow> SimpleVector \<Rightarrow> nat \<Rightarrow> (ptr, 'a heap \<times> SimpleVector) outcome" where
  "SimpleVector_At h v index =
     (if index \<ge> sv_size v then Throws (out_of_range ''index >= size'') (h, v)
      else Returns (ArrayPtr_index (sv_items v) index) (h, v))"

definition Clear :: "SimpleVector \<Rightarrow> SimpleVector" where
  "Clear v = v\<lparr>sv_size := 0\<rparr>"

definition ReallocateCopy ::
  "'a elem_type \<Rightarrow> 'a heap \<Rightarrow> SimpleVector \<Rightarrow> nat \<Rightarrow> (ptr \<times> 'a heap) option" where
  "ReallocateCopy T h v new_capacity =
     (let (result, h1) = ArrayPtr_sized T h new_capacity;
          move_size = min new_capacity (sv_size v)
      in case std_move (moved_from T) h1 (SimpleVector_begin v)
                (ptr_add (SimpleVector_begin v) move_size) result of
           None \<Rightarrow> None
         | Some h2 \<Rightarrow> Some (result, h2))"

text \<open>In the operations below the array that \<^verbatim>\<open>new_items\<close> holds after
  \<^verbatim>\<open>items_.swap(new_items)\<close>, the old one, is released when \<^verbatim>\<open>new_items\<close> goes out of
  scope.\<close>

definition SimpleVector_Resize ::
  "'a elem_type \<Rightarrow> 'a heap \<Rightarrow> SimpleVector \<Rightarrow> nat \<Rightarrow> (unit, 'a heap \<times> SimpleVector) outcome" where
  "SimpleVector_Resize T h v new_size =
     (if new_size > sv_capacity v then
        let new_capacity = max new_size (sv_capacity v * 2) in
        (case ReallocateCopy T h v new_capacity of
           None \<Rightarrow> Undefined
         | Some (new_items, h1) \<Rightarrow>
             (case value_init T of
                None \<Rightarrow> Throws element_exception (ArrayPtr_destroy h1 new_items, v)
              | Some d \<Rightarrow>
                  (case std_fill h1 (ptr_add new_items (sv_size v)) (ptr_add new_items new_size) d of
                     None \<Rightarrow> Undefined
                   | Some h2 \<Rightarrow>
                       Returns () (ArrayPtr_destroy h2 (sv_items v),
                         v\<lparr>sv_items := new_items, sv_capacity := new_capacity,
                           sv_size := new_size\<rparr>))))
      else
        (if new_size > sv_size v then
           (case value_init T of
              None \<Rightarrow> Throws element_exception (h, v)
            | Some d \<Rightarrow>
                (case std_fill h (ptr_add (SimpleVector_begin v) (sv_size v))
                        (ptr_add (SimpleVector_begin v) new_size) d of
                   None \<Rightarrow> Undefined
                 | Some h1 \<Rightarrow> Returns () (h1, v\<lparr>sv_size := new_size\<rparr>)))
         else Returns () (h, v\<lparr>sv_size := new_size\<rparr>)))"

text \<open>
  The argument of \<^verbatim>\<open>PushBack\<close> and of \<^verbatim>\<open>Insert\<close> is a reference, \<^verbatim>\<open>const Type&\<close> or
  \<^verbatim>\<open>Type&&\<close>. The object it refers to is an element of an array in the free store, given
  by the pointer to it (it may be an element of the vector that is called), or an object
  elsewhere (a local variable, a temporary), given by its value. The code reads the
  object at the moment it assigns from it.

  \<open>assign_from f h dst r\<close> is the assignment \<^verbatim>\<open>*dst = r\<close>: the target receives the value
  the object has at that moment, and an object in the free store is left as \<open>f\<close> of it,
  where \<open>f\<close> is the identity for the copy assignment of \<^verbatim>\<open>const Type&\<close> and the
  moved-from state for the move assignment of \<^verbatim>\<open>Type&&\<close>.
\<close>

datatype 'a reference = Element ptr | Object 'a

definition assign_from :: "('a \<Rightarrow> 'a) \<Rightarrow> 'a heap \<Rightarrow> ptr \<Rightarrow> 'a reference \<Rightarrow> 'a heap option" where
  "assign_from f h dst r =
     (case r of
        Object x \<Rightarrow> store h dst x
      | Element src \<Rightarrow> transfer f h src 1 dst)"

text \<open>The two overloads of \<^verbatim>\<open>PushBack\<close> have the same shape and differ in the assignment
  of the new element, a copy or a move. Both relocate through \<^verbatim>\<open>ReallocateCopy\<close> and
  assign from \<open>item\<close> afterwards; \<open>item\<close> is \<open>None\<close> when that assignment throws.\<close>

definition SimpleVector_PushBack_with ::
  "('a \<Rightarrow> 'a) \<Rightarrow> 'a elem_type \<Rightarrow> 'a heap \<Rightarrow> SimpleVector \<Rightarrow> 'a reference option
     \<Rightarrow> (unit, 'a heap \<times> SimpleVector) outcome" where
  "SimpleVector_PushBack_with f T h v item =
     (let new_size = sv_size v + 1 in
      if new_size > sv_capacity v then
        let new_capacity = max new_size (sv_capacity v * 2) in
        (case ReallocateCopy T h v new_capacity of
           None \<Rightarrow> Undefined
         | Some (new_items, h1) \<Rightarrow>
             (case item of
                None \<Rightarrow> Throws element_exception (ArrayPtr_destroy h1 new_items, v)
              | Some r \<Rightarrow>
                  (case assign_from f h1 (ArrayPtr_index new_items (sv_size v)) r of
                     None \<Rightarrow> Undefined
                   | Some h2 \<Rightarrow>
                       Returns () (ArrayPtr_destroy h2 (sv_items v),
                         v\<lparr>sv_items := new_items, sv_capacity := new_capacity,
                           sv_size := sv_size v + 1\<rparr>))))
      else
        (case item of
           None \<Rightarrow> Throws element_exception (h, v)
         | Some r \<Rightarrow>
             (case assign_from f h (ArrayPtr_index (sv_items v) (sv_size v)) r of
                None \<Rightarrow> Undefined
              | Some h1 \<Rightarrow> Returns () (h1, v\<lparr>sv_size := sv_size v + 1\<rparr>))))"

text \<open>\<^verbatim>\<open>PushBack(const Type& item)\<close> and \<^verbatim>\<open>PushBack(Type&& item)\<close>.\<close>

definition SimpleVector_PushBack ::
  "'a elem_type \<Rightarrow> 'a heap \<Rightarrow> SimpleVector \<Rightarrow> 'a reference option
     \<Rightarrow> (unit, 'a heap \<times> SimpleVector) outcome" where
  "SimpleVector_PushBack T h v item = SimpleVector_PushBack_with (\<lambda>x. x) T h v item"

definition SimpleVector_PushBack_rvalue ::
  "'a elem_type \<Rightarrow> 'a heap \<Rightarrow> SimpleVector \<Rightarrow> 'a reference option
     \<Rightarrow> (unit, 'a heap \<times> SimpleVector) outcome" where
  "SimpleVector_PushBack_rvalue T h v item = SimpleVector_PushBack_with (moved_from T) T h v item"

text \<open>The two overloads of \<^verbatim>\<open>Insert\<close> have the same shape too: the one taking
  \<^verbatim>\<open>const Type&\<close> copies (\<^verbatim>\<open>std::copy\<close>, \<^verbatim>\<open>std::copy_backward\<close>, copy assignment of the
  new element), the one taking \<^verbatim>\<open>Type&&\<close> moves (\<^verbatim>\<open>std::move\<close>, \<^verbatim>\<open>std::move_backward\<close>,
  move assignment); \<open>f\<close> is what a source object is left as, the identity for the
  copying overload. Both shift or relocate the elements first and assign from \<open>val\<close>
  afterwards; \<open>val\<close> is \<open>None\<close> when that assignment throws. The assertion
  \<^verbatim>\<open>assert(pos <= size_)\<close> is read as the bound on the offset it is meant to be.\<close>

definition SimpleVector_Insert_with ::
  "('a \<Rightarrow> 'a) \<Rightarrow> 'a elem_type \<Rightarrow> 'a heap \<Rightarrow> SimpleVector \<Rightarrow> ptr \<Rightarrow> 'a reference option
     \<Rightarrow> (ptr, 'a heap \<times> SimpleVector) outcome" where
  "SimpleVector_Insert_with f T h v pos val =
     (case std_distance (SimpleVector_cbegin v) pos of
        None \<Rightarrow> Undefined
      | Some offset \<Rightarrow>
          if \<not> offset \<le> sv_size v then Undefined
          else
            let mutable_pos = ptr_add (SimpleVector_begin v) offset;
                new_size = sv_size v + 1
            in
            if new_size \<le> sv_capacity v then
              (case std_move_backward f h mutable_pos (SimpleVector_end v)
                      (ptr_add (SimpleVector_end v) 1) of
                 None \<Rightarrow> Undefined
               | Some h1 \<Rightarrow>
                   (case val of
                      None \<Rightarrow> Throws element_exception (h1, v)
                    | Some r \<Rightarrow>
                        (case assign_from f h1 mutable_pos r of
                           None \<Rightarrow> Undefined
                         | Some h2 \<Rightarrow> Returns mutable_pos (h2, v\<lparr>sv_size := sv_size v + 1\<rparr>))))
            else
              let new_capacity = max new_size (sv_capacity v * 2);
                  (new_items, h1) = ArrayPtr_sized T h new_capacity
              in
              (case do {
                      h2 \<leftarrow> std_move f h1 (SimpleVector_begin v) mutable_pos new_items;
                      std_move f h2 mutable_pos (SimpleVector_end v)
                        (ptr_add (ptr_add new_items offset) 1)
                    } of
                 None \<Rightarrow> Undefined
               | Some h3 \<Rightarrow>
                   let mutable_pos = ptr_add new_items offset in
                   (case val of
                      None \<Rightarrow> Throws element_exception (ArrayPtr_destroy h3 new_items, v)
                    | Some r \<Rightarrow>
                        (case assign_from f h3 mutable_pos r of
                           None \<Rightarrow> Undefined
                         | Some h4 \<Rightarrow>
                             Returns mutable_pos (ArrayPtr_destroy h4 (sv_items v),
                               v\<lparr>sv_items := new_items, sv_capacity := new_capacity,
                                 sv_size := sv_size v + 1\<rparr>)))))"

text \<open>\<^verbatim>\<open>Insert(ConstIterator pos, const Type& value)\<close> and
  \<^verbatim>\<open>Insert(ConstIterator pos, Type&& value)\<close>.\<close>

definition SimpleVector_Insert ::
  "'a elem_type \<Rightarrow> 'a heap \<Rightarrow> SimpleVector \<Rightarrow> ptr \<Rightarrow> 'a reference option
     \<Rightarrow> (ptr, 'a heap \<times> SimpleVector) outcome" where
  "SimpleVector_Insert T h v pos val = SimpleVector_Insert_with (\<lambda>x. x) T h v pos val"

definition SimpleVector_Insert_rvalue ::
  "'a elem_type \<Rightarrow> 'a heap \<Rightarrow> SimpleVector \<Rightarrow> ptr \<Rightarrow> 'a reference option
     \<Rightarrow> (ptr, 'a heap \<times> SimpleVector) outcome" where
  "SimpleVector_Insert_rvalue T h v pos val = SimpleVector_Insert_with (moved_from T) T h v pos val"

definition SimpleVector_PopBack :: "SimpleVector \<Rightarrow> SimpleVector" where
  "SimpleVector_PopBack v = (if IsEmpty v then v else v\<lparr>sv_size := size_t_sub (sv_size v) 1\<rparr>)"

definition SimpleVector_Erase ::
  "'a elem_type \<Rightarrow> 'a heap \<Rightarrow> SimpleVector \<Rightarrow> ptr \<Rightarrow> (ptr \<times> 'a heap \<times> SimpleVector) option" where
  "SimpleVector_Erase T h v pos =
     do {
       index \<leftarrow> std_distance (SimpleVector_cbegin v) pos;
       h1 \<leftarrow> std_move (moved_from T) h (ptr_add (ptr_add (SimpleVector_begin v) index) 1)
               (SimpleVector_end v) (ptr_add (SimpleVector_begin v) index);
       Some (ArrayPtr_index (sv_items v) index, h1, v\<lparr>sv_size := size_t_sub (sv_size v) 1\<rparr>)
     }"

definition SimpleVector_Reserve ::
  "'a elem_type \<Rightarrow> 'a heap \<Rightarrow> SimpleVector \<Rightarrow> nat \<Rightarrow> ('a heap \<times> SimpleVector) option" where
  "SimpleVector_Reserve T h v new_capacity =
     (if new_capacity > sv_capacity v then
        do {
          (new_items, h1) \<leftarrow> ReallocateCopy T h v new_capacity;
          Some (ArrayPtr_destroy h1 (sv_items v),
                v\<lparr>sv_items := new_items, sv_capacity := new_capacity\<rparr>)
        }
      else Some (h, v))"

text \<open>Copy and move assignment for two distinct objects (the code does nothing when
  \<^verbatim>\<open>this == &rhs\<close>): a temporary is built from \<open>rhs\<close>, swapped with \<open>this\<close> and
  destroyed with the old array. Move assignment also returns what is left of \<open>rhs\<close>.\<close>

definition SimpleVector_assign ::
  "'a elem_type \<Rightarrow> 'a heap \<Rightarrow> SimpleVector \<Rightarrow> SimpleVector \<Rightarrow> ('a heap \<times> SimpleVector) option" where
  "SimpleVector_assign T h this rhs =
     do {
       (h1, tmp) \<leftarrow> SimpleVector_copy T h rhs;
       let (this1, tmp1) = SimpleVector_swap this tmp;
       Some (ArrayPtr_destroy h1 (sv_items tmp1), this1)
     }"

definition SimpleVector_move_assign ::
  "'a heap \<Rightarrow> SimpleVector \<Rightarrow> SimpleVector \<Rightarrow> 'a heap \<times> SimpleVector \<times> SimpleVector" where
  "SimpleVector_move_assign h this rhs =
     (let (tmp, rhs1) = SimpleVector_move rhs;
          (this1, tmp1) = SimpleVector_swap this tmp
      in (ArrayPtr_destroy h (sv_items tmp1), this1, rhs1))"

section \<open>Well-formed vectors, reading and sequences of operations\<close>

text \<open>
  The data invariant of \<^verbatim>\<open>Vector\<close>: the size does not exceed the capacity, a vector of
  capacity zero holds the null pointer, and otherwise \<^verbatim>\<open>buffer_\<close> is the start of an
  allocated block of \<open>capacity\<close> slots of which the first \<open>size\<close> hold objects.
\<close>

definition Vector_wf :: "'a slot heap \<Rightarrow> Vector \<Rightarrow> bool" where
  "Vector_wf h v =
     (v_size v \<le> Capacity v \<and>
      (if Capacity v = 0 then rm_buffer (v_data v) = nullptr
       else snd (rm_buffer (v_data v)) = 0 \<and>
            (case block h (fst (rm_buffer (v_data v))) of
               None \<Rightarrow> False
             | Some cs \<Rightarrow> length cs = Capacity v \<and> list_all (\<lambda>c. c \<noteq> Raw) (take (v_size v) cs))))"

text \<open>The slots of the live range, in order.\<close>

definition Vector_cells :: "'a slot heap \<Rightarrow> Vector \<Rightarrow> 'a slot list" where
  "Vector_cells h v =
     (case block h (fst (rm_buffer (v_data v))) of
        None \<Rightarrow> []
      | Some cs \<Rightarrow> take (v_size v) cs)"

text \<open>The data invariant of \<^verbatim>\<open>SimpleVector\<close>: \<^verbatim>\<open>items_\<close> is an array of \<open>capacity\<close>
  elements.\<close>

definition SimpleVector_wf :: "'a heap \<Rightarrow> SimpleVector \<Rightarrow> bool" where
  "SimpleVector_wf h v =
     (sv_size v \<le> sv_capacity v \<and>
      (if sv_capacity v = 0 then sv_items v = nullptr
       else snd (sv_items v) = 0 \<and>
            (case block h (fst (sv_items v)) of
               None \<Rightarrow> False
             | Some cs \<Rightarrow> length cs = sv_capacity v)))"

definition SimpleVector_cells :: "'a heap \<Rightarrow> SimpleVector \<Rightarrow> 'a list" where
  "SimpleVector_cells h v =
     (case block h (fst (sv_items v)) of
        None \<Rightarrow> []
      | Some cs \<Rightarrow> take (sv_size v) cs)"

text \<open>The byte count of \<open>n\<close> objects of the element type is representable in
  \<^verbatim>\<open>size_t\<close>, so that \<open>Allocate\<close> obtains a block of \<open>n\<close> slots.\<close>

definition fits_size_t :: "'a elem_type \<Rightarrow> nat \<Rightarrow> bool" where
  "fits_size_t T n = (0 < sizeof T \<and> n * sizeof T < 2 ^ 64)"

text \<open>A reference refers to an object: one outside the free store, or a cell of an
  allocated array.\<close>

definition valid_reference :: "'a heap \<Rightarrow> 'a reference \<Rightarrow> bool" where
  "valid_reference h r = (case r of Object x \<Rightarrow> True | Element p \<Rightarrow> deref h p \<noteq> None)"

text \<open>Reading an element of a \<^verbatim>\<open>SimpleVector\<close> through the checked accessor, and
  writing one through \<^verbatim>\<open>operator[]\<close>.\<close>

definition SimpleVector_get :: "'a heap \<Rightarrow> SimpleVector \<Rightarrow> nat \<Rightarrow> 'a option" where
  "SimpleVector_get h v index =
     (case SimpleVector_At h v index of
        Returns p s \<Rightarrow> deref h p
      | Throws e s \<Rightarrow> None
      | Undefined \<Rightarrow> None)"

definition SimpleVector_set :: "'a heap \<Rightarrow> SimpleVector \<Rightarrow> nat \<Rightarrow> 'a \<Rightarrow> 'a heap option" where
  "SimpleVector_set h v index x = store h (SimpleVector_index v index) x"

text \<open>A sequence of appends whose arguments are constructed without an exception; for
  \<^verbatim>\<open>SimpleVector\<close> the arguments are objects outside the free store.\<close>

fun Vector_appends ::
  "'a elem_type \<Rightarrow> 'a slot heap \<Rightarrow> Vector \<Rightarrow> 'a list \<Rightarrow> ('a slot heap \<times> Vector) option" where
  "Vector_appends T h v [] = Some (h, v)"
| "Vector_appends T h v (x # xs) =
     (case Vector_PushBack T h v (Some x) of
        Returns r (h1, v1) \<Rightarrow> Vector_appends T h1 v1 xs
      | Throws e s \<Rightarrow> None
      | Undefined \<Rightarrow> None)"

fun SimpleVector_appends ::
  "'a elem_type \<Rightarrow> 'a heap \<Rightarrow> SimpleVector \<Rightarrow> 'a list \<Rightarrow> ('a heap \<times> SimpleVector) option" where
  "SimpleVector_appends T h v [] = Some (h, v)"
| "SimpleVector_appends T h v (x # xs) =
     (case SimpleVector_PushBack T h v (Some (Object x)) of
        Returns r (h1, v1) \<Rightarrow> SimpleVector_appends T h1 v1 xs
      | Throws e s \<Rightarrow> None
      | Undefined \<Rightarrow> None)"

text \<open>
  Programs over several vectors. The objects of a program are numbered in the order of
  their construction; an operation names its objects by number. A call that throws
  leaves a state from which the program goes on; an undefined call, or one on an object
  that does not exist, ends the run with \<open>None\<close>.
\<close>

datatype 'a Vector_op =
    New_Vector
  | New_Vector_sized nat
  | New_Vector_copy nat
  | New_Vector_move nat
  | Do_Reserve nat nat
  | Do_Resize nat nat
  | Do_EmplaceBack nat "'a option"
  | Do_PushBack nat "'a option"
  | Do_PopBack nat
  | Do_Emplace nat ptr "'a option"
  | Do_Insert nat ptr "'a option"
  | Do_Erase nat ptr
  | Do_Swap nat nat
  | Do_assign nat nat
  | Do_move_assign nat nat
  | Do_set nat nat 'a

definition put_option ::
  "'v list \<Rightarrow> nat \<Rightarrow> ('h \<times> 'v) option \<Rightarrow> ('h \<times> 'v list) option" where
  "put_option vs i r = (case r of None \<Rightarrow> None | Some (h, v) \<Rightarrow> Some (h, vs[i := v]))"

definition put_outcome ::
  "'v list \<Rightarrow> nat \<Rightarrow> ('r, 'h \<times> 'v) outcome \<Rightarrow> ('h \<times> 'v list) option" where
  "put_outcome vs i r =
     (case r of
        Returns x (h, v) \<Rightarrow> Some (h, vs[i := v])
      | Throws e (h, v) \<Rightarrow> Some (h, vs[i := v])
      | Undefined \<Rightarrow> None)"

fun Vector_step ::
  "'a elem_type \<Rightarrow> 'a slot heap \<times> Vector list \<Rightarrow> 'a Vector_op \<Rightarrow> ('a slot heap \<times> Vector list) option" where
  "Vector_step T (h, vs) New_Vector = Some (h, vs @ [Vector_default])"
| "Vector_step T (h, vs) (New_Vector_sized n) =
     (case Vector_sized T h n of
        Returns v h1 \<Rightarrow> Some (h1, vs @ [v])
      | Throws e h1 \<Rightarrow> Some (h1, vs)
      | Undefined \<Rightarrow> None)"
| "Vector_step T (h, vs) (New_Vector_copy j) =
     (if j < length vs then
        (case Vector_copy T h (vs ! j) of None \<Rightarrow> None | Some (h1, v) \<Rightarrow> Some (h1, vs @ [v]))
      else None)"
| "Vector_step T (h, vs) (New_Vector_move j) =
     (if j < length vs then
        (let (v, other) = Vector_move (vs ! j) in Some (h, vs[j := other] @ [v]))
      else None)"
| "Vector_step T (h, vs) (Do_Reserve i n) =
     (if i < length vs then put_option vs i (Vector_Reserve T h (vs ! i) n) else None)"
| "Vector_step T (h, vs) (Do_Resize i n) =
     (if i < length vs then put_outcome vs i (Vector_Resize T h (vs ! i) n) else None)"
| "Vector_step T (h, vs) (Do_EmplaceBack i a) =
     (if i < length vs then put_outcome vs i (Vector_EmplaceBack T h (vs ! i) a) else None)"
| "Vector_step T (h, vs) (Do_PushBack i a) =
     (if i < length vs then put_outcome vs i (Vector_PushBack T h (vs ! i) a) else None)"
| "Vector_step T (h, vs) (Do_PopBack i) =
     (if i < length vs then put_option vs i (Vector_PopBack h (vs ! i)) else None)"
| "Vector_step T (h, vs) (Do_Emplace i pos a) =
     (if i < length vs then put_outcome vs i (Vector_Emplace T h (vs ! i) pos a) else None)"
| "Vector_step T (h, vs) (Do_Insert i pos a) =
     (if i < length vs then put_outcome vs i (Vector_Insert T h (vs ! i) pos a) else None)"
| "Vector_step T (h, vs) (Do_Erase i pos) =
     (if i < length vs then put_option vs i (map_option snd (Vector_Erase T h (vs ! i) pos)) else None)"
| "Vector_step T (h, vs) (Do_Swap i j) =
     (if i < length vs \<and> j < length vs then
        (let (this, other) = Vector_Swap (vs ! i) (vs ! j) in Some (h, vs[j := other, i := this]))
      else None)"
| "Vector_step T (h, vs) (Do_assign i j) =
     (if i < length vs \<and> j < length vs then
        (if i = j then Some (h, vs) else put_option vs i (Vector_assign T h (vs ! i) (vs ! j)))
      else None)"
| "Vector_step T (h, vs) (Do_move_assign i j) =
     (if i < length vs \<and> j < length vs then
        (if i = j then Some (h, vs)
         else let (this, rhs) = Vector_move_assign (vs ! i) (vs ! j) in Some (h, vs[j := rhs, i := this]))
      else None)"
| "Vector_step T (h, vs) (Do_set i k x) =
     (if i < length vs then
        (case Vector_set h (vs ! i) k x of None \<Rightarrow> None | Some h1 \<Rightarrow> Some (h1, vs))
      else None)"

fun Vector_run ::
  "'a elem_type \<Rightarrow> 'a slot heap \<times> Vector list \<Rightarrow> 'a Vector_op list \<Rightarrow> ('a slot heap \<times> Vector list) option" where
  "Vector_run T s [] = Some s"
| "Vector_run T s (op # ops) =
     (case Vector_step T s op of None \<Rightarrow> None | Some s1 \<Rightarrow> Vector_run T s1 ops)"

datatype 'a SimpleVector_op =
    New_SimpleVector
  | New_SimpleVector_sized nat
  | New_SimpleVector_filled nat 'a
  | New_SimpleVector_from_list "'a list"
  | New_SimpleVector_reserved nat
  | New_SimpleVector_copy nat
  | New_SimpleVector_move nat
  | Sv_At nat nat
  | Sv_Clear nat
  | Sv_Resize nat nat
  | Sv_Reserve nat nat
  | Sv_PushBack nat "'a reference option"
  | Sv_PushBack_rvalue nat "'a reference option"
  | Sv_Insert nat ptr "'a reference option"
  | Sv_Insert_rvalue nat ptr "'a reference option"
  | Sv_PopBack nat
  | Sv_Erase nat ptr
  | Sv_swap nat nat
  | Sv_assign nat nat
  | Sv_move_assign nat nat
  | Sv_set nat nat 'a

fun SimpleVector_step ::
  "'a elem_type \<Rightarrow> 'a heap \<times> SimpleVector list \<Rightarrow> 'a SimpleVector_op
     \<Rightarrow> ('a heap \<times> SimpleVector list) option" where
  "SimpleVector_step T (h, vs) New_SimpleVector = Some (h, vs @ [SimpleVector_default])"
| "SimpleVector_step T (h, vs) (New_SimpleVector_sized n) =
     (case SimpleVector_sized T h n of
        Returns v h1 \<Rightarrow> Some (h1, vs @ [v])
      | Throws e h1 \<Rightarrow> Some (h1, vs)
      | Undefined \<Rightarrow> None)"
| "SimpleVector_step T (h, vs) (New_SimpleVector_filled n x) =
     (case SimpleVector_filled T h n x of None \<Rightarrow> None | Some (h1, v) \<Rightarrow> Some (h1, vs @ [v]))"
| "SimpleVector_step T (h, vs) (New_SimpleVector_from_list xs) =
     (case SimpleVector_from_list T h xs of None \<Rightarrow> None | Some (h1, v) \<Rightarrow> Some (h1, vs @ [v]))"
| "SimpleVector_step T (h, vs) (New_SimpleVector_reserved n) =
     (let (h1, v) = SimpleVector_reserved T h n in Some (h1, vs @ [v]))"
| "SimpleVector_step T (h, vs) (New_SimpleVector_copy j) =
     (if j < length vs then
        (case SimpleVector_copy T h (vs ! j) of None \<Rightarrow> None | Some (h1, v) \<Rightarrow> Some (h1, vs @ [v]))
      else None)"
| "SimpleVector_step T (h, vs) (New_SimpleVector_move j) =
     (if j < length vs then
        (let (v, other) = SimpleVector_move (vs ! j) in Some (h, vs[j := other] @ [v]))
      else None)"
| "SimpleVector_step T (h, vs) (Sv_At i k) =
     (if i < length vs then put_outcome vs i (SimpleVector_At h (vs ! i) k) else None)"
| "SimpleVector_step T (h, vs) (Sv_Clear i) =
     (if i < length vs then Some (h, vs[i := Clear (vs ! i)]) else None)"
| "SimpleVector_step T (h, vs) (Sv_Resize i n) =
     (if i < length vs then put_outcome vs i (SimpleVector_Resize T h (vs ! i) n) else None)"
| "SimpleVector_step T (h, vs) (Sv_Reserve i n) =
     (if i < length vs then put_option vs i (SimpleVector_Reserve T h (vs ! i) n) else None)"
| "SimpleVector_step T (h, vs) (Sv_PushBack i a) =
     (if i < length vs then put_outcome vs i (SimpleVector_PushBack T h (vs ! i) a) else None)"
| "SimpleVector_step T (h, vs) (Sv_PushBack_rvalue i a) =
     (if i < length vs then put_outcome vs i (SimpleVector_PushBack_rvalue T h (vs ! i) a) else None)"
| "SimpleVector_step T (h, vs) (Sv_Insert i pos a) =
     (if i < length vs then put_outcome vs i (SimpleVector_Insert T h (vs ! i) pos a) else None)"
| "SimpleVector_step T (h, vs) (Sv_Insert_rvalue i pos a) =
     (if i < length vs then put_outcome vs i (SimpleVector_Insert_rvalue T h (vs ! i) pos a) else None)"
| "SimpleVector_step T (h, vs) (Sv_PopBack i) =
     (if i < length vs then Some (h, vs[i := SimpleVector_PopBack (vs ! i)]) else None)"
| "SimpleVector_step T (h, vs) (Sv_Erase i pos) =
     (if i < length vs then
        put_option vs i (map_option snd (SimpleVector_Erase T h (vs ! i) pos))
      else None)"
| "SimpleVector_step T (h, vs) (Sv_swap i j) =
     (if i < length vs \<and> j < length vs then
        (let (this, other) = SimpleVector_swap (vs ! i) (vs ! j) in Some (h, vs[j := other, i := this]))
      else None)"
| "SimpleVector_step T (h, vs) (Sv_assign i j) =
     (if i < length vs \<and> j < length vs then
        (if i = j then Some (h, vs) else put_option vs i (SimpleVector_assign T h (vs ! i) (vs ! j)))
      else None)"
| "SimpleVector_step T (h, vs) (Sv_move_assign i j) =
     (if i < length vs \<and> j < length vs then
        (if i = j then Some (h, vs)
         else let (h1, this, rhs) = SimpleVector_move_assign h (vs ! i) (vs ! j)
              in Some (h1, vs[j := rhs, i := this]))
      else None)"
| "SimpleVector_step T (h, vs) (Sv_set i k x) =
     (if i < length vs then
        (case SimpleVector_set h (vs ! i) k x of None \<Rightarrow> None | Some h1 \<Rightarrow> Some (h1, vs))
      else None)"

fun SimpleVector_run ::
  "'a elem_type \<Rightarrow> 'a heap \<times> SimpleVector list \<Rightarrow> 'a SimpleVector_op list
     \<Rightarrow> ('a heap \<times> SimpleVector list) option" where
  "SimpleVector_run T s [] = Some s"
| "SimpleVector_run T s (op # ops) =
     (case SimpleVector_step T s op of None \<Rightarrow> None | Some s1 \<Rightarrow> SimpleVector_run T s1 ops)"

text \<open>Two element types for concrete runs: \<^verbatim>\<open>int\<close> of four bytes, which a move leaves
  as it is, and \<^verbatim>\<open>std::string\<close> of thirty-two bytes, which a move leaves empty.\<close>

definition int_elem :: "int elem_type" where
  "int_elem = \<lparr>value_init = Some 0, default_init = 0, moved_from = (\<lambda>x. x), nothrow_move = True,
     sizeof = 4\<rparr>"

definition string_elem :: "string elem_type" where
  "string_elem = \<lparr>value_init = Some [], default_init = [], moved_from = (\<lambda>x. []),
     nothrow_move = True, sizeof = 32\<rparr>"

section \<open>Properties of the memory model\<close>

lemma block_Some_D: "block h a = Some cs \<Longrightarrow> 0 < a \<and> a \<le> length h"
  by (simp add: block_def split: if_splits)

lemma length_upd_block [simp]: "length (upd_block h a cs) = length h"
  by (simp add: upd_block_def)

lemma length_free_block [simp]: "length (free_block h a) = length h"
  by (simp add: free_block_def)

lemma block_upd_block:
  "block (upd_block h a cs) b = (if b = a \<and> 0 < a \<and> a \<le> length h then Some cs else block h b)"
  by (auto simp: block_def upd_block_def nth_list_update)

lemma block_free_block: "block (free_block h a) b = (if b = a then None else block h b)"
  by (auto simp: block_def free_block_def nth_list_update)

lemma block_append: "block (h @ [Some cs]) b = (if b = Suc (length h) then Some cs else block h b)"
  by (auto simp: block_def nth_append)

lemma block_None: "length h < a \<Longrightarrow> block h a = None"
  by (simp add: block_def)

lemma block_null [simp]: "block h 0 = None"
  by (simp add: block_def)

lemma upd_block_twice [simp]: "upd_block (upd_block h a cs) a cs' = upd_block h a cs'"
  by (simp add: upd_block_def)

lemma upd_block_swap: "a \<noteq> b \<Longrightarrow>
  upd_block (upd_block h a cs) b cs' = upd_block (upd_block h b cs') a cs"
  by (simp add: upd_block_def list_update_swap)

lemma upd_block_same: "block h a = Some cs \<Longrightarrow> upd_block h a cs = h"
  by (auto simp: block_def upd_block_def list_update_same_conv split: if_splits)

lemma deref_block:
  "block h a = Some cs \<Longrightarrow> i < length cs \<Longrightarrow> deref h (a, i) = Some (cs ! i)"
  by (simp add: deref_def)

lemma store_block:
  "block h a = Some cs \<Longrightarrow> i < length cs \<Longrightarrow> store h (a, i) x = Some (upd_block h a (cs[i := x]))"
  by (simp add: store_def)

lemma fill_n_block:
  "block h a = Some cs \<Longrightarrow> i + n \<le> length cs \<Longrightarrow>
   fill_n h (a, i) n x = Some (upd_block h a (take i cs @ replicate n x @ drop (i + n) cs))"
proof (induction n arbitrary: h i cs)
  case 0
  then show ?case by (simp add: upd_block_same)
next
  case (Suc n)
  from Suc.prems have a: "0 < a" "a \<le> length h" and i: "i < length cs"
    using block_Some_D by fastforce+
  let ?cs = "cs[i := x]"
  have b: "block (upd_block h a ?cs) a = Some ?cs"
    using a by (simp add: block_upd_block)
  have "fill_n (upd_block h a ?cs) (a, Suc i) n x =
        Some (upd_block (upd_block h a ?cs) a (take (Suc i) ?cs @ replicate n x @ drop (Suc i + n) ?cs))"
    using Suc.prems by (intro Suc.IH [OF b]) simp
  moreover have "take (Suc i) ?cs = take i cs @ [x]"
    using i by (simp add: take_Suc_conv_app_nth)
  ultimately show ?case
    using Suc.prems i by (simp add: store_block ptr_add_def)
qed

lemma transfer_disjoint:
  "a \<noteq> b \<Longrightarrow> block h a = Some A \<Longrightarrow> block h b = Some B \<Longrightarrow> i + n \<le> length A \<Longrightarrow> j + n \<le> length B \<Longrightarrow>
   transfer f h (a, i) n (b, j) =
     Some (upd_block (upd_block h b (take j B @ take n (drop i A) @ drop (j + n) B))
             a (take i A @ map f (take n (drop i A)) @ drop (i + n) A))"
proof (induction n arbitrary: h i j A B)
  case 0
  then show ?case by (simp add: upd_block_same block_upd_block)
next
  case (Suc n)
  from Suc.prems have a: "0 < a" "a \<le> length h" and b: "0 < b" "b \<le> length h"
    and i: "i < length A" and j: "j < length B"
    using block_Some_D by fastforce+
  let ?x = "A ! i"
  let ?B = "B[j := ?x]" and ?A = "A[i := f ?x]"
  let ?h1 = "upd_block h b ?B"
  let ?h2 = "upd_block ?h1 a ?A"
  have s1: "store h (b, j) ?x = Some ?h1"
    using Suc.prems j by (simp add: store_block)
  have "block ?h1 a = Some A"
    using Suc.prems b by (simp add: block_upd_block)
  then have s2: "store ?h1 (a, i) (f ?x) = Some ?h2"
    using i by (simp add: store_block)
  have bA: "block ?h2 a = Some ?A" and bB: "block ?h2 b = Some ?B"
    using a b Suc.prems(1) by (simp_all add: block_upd_block)
  have IH: "transfer f ?h2 (a, Suc i) n (b, Suc j) =
     Some (upd_block (upd_block ?h2 b (take (Suc j) ?B @ take n (drop (Suc i) ?A) @ drop (Suc j + n) ?B))
             a (take (Suc i) ?A @ map f (take n (drop (Suc i) ?A)) @ drop (Suc i + n) ?A))"
    using Suc.prems by (intro Suc.IH [OF Suc.prems(1) bA bB]) simp_all
  have e1: "take (Suc j) ?B = take j B @ [?x]" "take (Suc i) ?A = take i A @ [f ?x]"
    using i j by (simp_all add: take_Suc_conv_app_nth)
  have e2: "take (Suc n) (drop i A) = ?x # take n (drop (Suc i) A)"
    using i by (simp add: Cons_nth_drop_Suc [symmetric])
  have e3: "upd_block (upd_block ?h2 b X) a Y = upd_block (upd_block h b X) a Y" for X Y
    using a b Suc.prems(1) by (simp add: upd_block_def list_update_swap)
  show ?case
    using Suc.prems(2) i s1 s2 IH
    by (simp add: deref_block ptr_add_def e1 e2 e3)
qed

lemma transfer_shift_left:
  "block h a = Some A \<Longrightarrow> Suc i + n \<le> length A \<Longrightarrow>
   transfer f h (a, Suc i) n (a, i) =
     Some (upd_block h a (take i A @ take n (drop (Suc i) A) @
             (if n = 0 then drop i A else f (A ! (i + n)) # drop (Suc (i + n)) A)))"
proof (induction n arbitrary: h i A)
  case 0
  then show ?case by (simp add: upd_block_same)
next
  case (Suc n)
  from Suc.prems have a: "0 < a" "a \<le> length h" and i: "Suc i < length A"
    using block_Some_D by fastforce+
  let ?x = "A ! Suc i"
  let ?A1 = "A[i := ?x]"
  let ?A = "?A1[Suc i := f ?x]"
  let ?h1 = "upd_block h a ?A1"
  let ?h2 = "upd_block h a ?A"
  have s1: "store h (a, i) ?x = Some ?h1"
    using Suc.prems i by (simp add: store_block)
  have "block ?h1 a = Some ?A1"
    using a by (simp add: block_upd_block)
  then have s2: "store ?h1 (a, Suc i) (f ?x) = Some ?h2"
    using i by (simp add: store_block)
  have bA: "block ?h2 a = Some ?A"
    using a by (simp add: block_upd_block)
  have IH: "transfer f ?h2 (a, Suc (Suc i)) n (a, Suc i) =
     Some (upd_block ?h2 a (take (Suc i) ?A @ take n (drop (Suc (Suc i)) ?A) @
             (if n = 0 then drop (Suc i) ?A else f (?A ! (Suc i + n)) # drop (Suc (Suc i + n)) ?A)))"
    using Suc.prems by (intro Suc.IH [OF bA]) simp_all
  have e1: "take (Suc i) ?A = take i A @ [?x]"
    using i by (simp add: take_Suc_conv_app_nth)
  have e2: "take (Suc n) (drop (Suc i) A) = ?x # take n (drop (Suc (Suc i)) A)"
    using i by (simp add: Cons_nth_drop_Suc [symmetric])
  have e3: "drop (Suc i) ?A = f ?x # drop (Suc (Suc i)) A"
    using i by (simp add: Cons_nth_drop_Suc [symmetric] drop_update_swap)
  show ?case
    using Suc.prems(1) i s1 s2 IH
    by (simp add: deref_block ptr_add_def e1 e2 e3)
qed

lemma drop_two: "Suc k < length xs \<Longrightarrow> drop k xs = xs ! k # xs ! Suc k # drop (Suc (Suc k)) xs"
  by (metis Cons_nth_drop_Suc Suc_lessD)

lemma transfer_backward_shift_right:
  "block h a = Some A \<Longrightarrow> Suc (i + n) \<le> length A \<Longrightarrow>
   transfer_backward f h (a, i) n (a, Suc (i + n)) =
     Some (upd_block h a (take i A @
             (if n = 0 then drop i A else f (A ! i) # take n (drop i A) @ drop (Suc (i + n)) A)))"
proof (induction n arbitrary: h A)
  case 0
  then show ?case by (simp add: upd_block_same)
next
  case (Suc n)
  from Suc.prems have a: "0 < a" "a \<le> length h" and i: "Suc (i + n) < length A"
    using block_Some_D by fastforce+
  let ?x = "A ! (i + n)"
  let ?A1 = "A[Suc (i + n) := ?x]"
  let ?A = "?A1[i + n := f ?x]"
  let ?h1 = "upd_block h a ?A1"
  let ?h2 = "upd_block h a ?A"
  have s1: "store h (a, Suc (i + n)) ?x = Some ?h1"
    using Suc.prems i by (simp add: store_block)
  have "block ?h1 a = Some ?A1"
    using a by (simp add: block_upd_block)
  then have s2: "store ?h1 (a, i + n) (f ?x) = Some ?h2"
    using i by (simp add: store_block)
  have bA: "block ?h2 a = Some ?A"
    using a by (simp add: block_upd_block)
  have IH: "transfer_backward f ?h2 (a, i) n (a, Suc (i + n)) =
     Some (upd_block ?h2 a (take i ?A @
             (if n = 0 then drop i ?A else f (?A ! i) # take n (drop i ?A) @ drop (Suc (i + n)) ?A)))"
    using Suc.prems by (intro Suc.IH [OF bA]) simp_all
  have e0: "drop (Suc (i + n)) ?A = ?x # drop (Suc (Suc (i + n))) A"
    using i by (simp add: Cons_nth_drop_Suc [symmetric] drop_update_swap)
  have e1: "take (Suc n) (drop i A) = take n (drop i A) @ [?x]"
    using i by (simp add: take_Suc_conv_app_nth)
  have e2: "drop (i + n) ?A = f ?x # ?x # drop (Suc (Suc (i + n))) A"
    using i drop_two [of "i + n" ?A] by simp
  have e3: "take n (drop i ?A) = take n (drop i A)"
    by (simp add: drop_update_swap)
  have e4: "0 < n \<Longrightarrow> ?A ! i = A ! i"
    by simp
  show ?case
  proof (cases "n = 0")
    case True
    have t: "take (i + n) ?A = take (i + n) A"
      by simp
    have "?A = take (i + n) ?A @ drop (i + n) ?A"
      by (rule append_take_drop_id [symmetric])
    then have "?A = take (i + n) A @ f ?x # ?x # drop (Suc (Suc (i + n))) A"
      by (simp only: t e2)
    moreover have "take (Suc 0) (drop i A) = [A ! i]"
      using i by (simp add: take_Suc_conv_app_nth)
    ultimately show ?thesis
      using True Suc.prems(1) i s1 s2 by (simp add: deref_block ptr_add_def ptr_sub_def)
  next
    case False
    then show ?thesis
      using Suc.prems(1) i s1 s2 IH
      by (simp add: deref_block ptr_add_def ptr_sub_def e0 e1 e3 e4)
  qed
qed

lemma shift_right_list:
  assumes "p \<le> m" "Suc m < length cs"
  shows "(take p (cs[Suc m := cs ! m, m := f (cs ! m)]) @
           (if m - p = 0 then drop p (cs[Suc m := cs ! m, m := f (cs ! m)])
            else f ((cs[Suc m := cs ! m, m := f (cs ! m)]) ! p) #
                 take (m - p) (drop p (cs[Suc m := cs ! m, m := f (cs ! m)])) @
                 drop (Suc (p + (m - p))) (cs[Suc m := cs ! m, m := f (cs ! m)])))
         = take p cs @ f (cs ! p) # take (m - p) (drop p cs) @ cs ! m # drop (Suc (Suc m)) cs"
    (is "?L = ?R")
proof (rule nth_equalityI)
  show "length ?L = length ?R" using assms by auto
next
  fix i assume "i < length ?L"
  then show "?L ! i = ?R ! i"
    using assms
    apply (auto simp: nth_append nth_list_update nth_Cons split: nat.splits if_splits)
     apply (rule arg_cong [where f = "(!) cs"], arith)+
    done
qed

lemma insert_cells_list:
  assumes "p \<le> m" "Suc m < length cs"
  shows "take (Suc (Suc m))
           ((take p cs @ z # take (m - p) (drop p cs) @ cs ! m # drop (Suc (Suc m)) cs)[p := y])
         = take p (take (Suc m) cs) @ y # drop p (take (Suc m) cs)"
    (is "?L = ?R")
proof (rule nth_equalityI)
  show "length ?L = length ?R" using assms by auto
next
  fix i assume "i < length ?L"
  then show "?L ! i = ?R ! i"
    using assms
    apply (auto simp: nth_append nth_list_update nth_Cons split: nat.splits if_splits)
     apply (rule arg_cong [where f = "(!) cs"], arith)+
    done
qed

lemma erase_cells_list:
  assumes "p \<le> m" "Suc m \<le> length cs"
  shows "take m ((take p cs @ take (m - p) (drop (Suc p) cs) @
                  (if m - p = 0 then drop p cs else z # drop (Suc (p + (m - p))) cs))[m := w])
         = take p (take (Suc m) cs) @ drop (Suc p) (take (Suc m) cs)"
    (is "?L = ?R")
proof (rule nth_equalityI)
  show "length ?L = length ?R" using assms by auto
next
  fix i assume "i < length ?L"
  then show "?L ! i = ?R ! i"
    using assms
    by (auto simp: nth_append nth_list_update nth_Cons split: nat.splits if_splits)
qed

lemma erase_length:
  assumes "p \<le> m" "Suc m \<le> length cs"
  shows "length (take p cs @ take (m - p) (drop (Suc p) cs) @
                  (if m - p = 0 then drop p cs else z # drop (Suc (p + (m - p))) cs)) = length cs"
  using assms by auto

lemma erase_cells_list':
  assumes "p \<le> m" "Suc m \<le> length cs"
  shows "take m (take p cs @ take (m - p) (drop (Suc p) cs) @
                  (if m - p = 0 then drop p cs else z # drop (Suc (p + (m - p))) cs))
         = take p (take (Suc m) cs) @ drop (Suc p) (take (Suc m) cs)"
  using erase_cells_list [OF assms, of z "(take p cs @ take (m - p) (drop (Suc p) cs) @
                  (if m - p = 0 then drop p cs else z # drop (Suc (p + (m - p))) cs)) ! m"]
  by (simp del: take_append)

lemma sv_insert_cells_list:
  assumes "p \<le> n" "n < length cs"
  shows "take (Suc n)
           ((take p cs @ (if n - p = 0 then drop p cs
                          else z # take (n - p) (drop p cs) @ drop (Suc (p + (n - p))) cs))[p := y])
         = take p (take n cs) @ y # drop p (take n cs)"
    (is "?L = ?R")
proof (rule nth_equalityI)
  show "length ?L = length ?R" using assms by auto
next
  fix i assume "i < length ?L"
  then show "?L ! i = ?R ! i"
    using assms
    by (auto simp: nth_append nth_list_update nth_Cons split: nat.splits if_splits)
qed

lemma sv_insert_length:
  assumes "p \<le> n" "n < length cs"
  shows "length (take p cs @ (if n - p = 0 then drop p cs
                          else z # take (n - p) (drop p cs) @ drop (Suc (p + (n - p))) cs)) = length cs"
  using assms by auto

section \<open>Properties of the operations of Vector\<close>

lemma ptr_add_pair [simp]: "ptr_add (a, i) k = (a, i + k)"
  by (simp add: ptr_add_def)

lemma deref_pair: "deref h (a, i) =
  (case block h a of None \<Rightarrow> None | Some cs \<Rightarrow> if i < length cs then Some (cs ! i) else None)"
  by (simp add: deref_def split: option.splits)

lemma drop_update_same: "i < length xs \<Longrightarrow> drop i (xs[i := y]) = y # drop (Suc i) xs"
  by (simp add: Cons_nth_drop_Suc [symmetric])

lemma take_Suc_update_same: "i < length xs \<Longrightarrow> take (Suc i) (xs[i := y]) = take i xs @ [y]"
  by (simp add: take_Suc_conv_app_nth)

lemma store_pair: "store h (a, i) x =
  (case block h a of None \<Rightarrow> None
   | Some cs \<Rightarrow> if i < length cs then Some (upd_block h a (cs[i := x])) else None)"
  by (simp add: store_def split: option.splits)

lemma fill_n_the:
  "block h a \<noteq> None \<Longrightarrow> i + n \<le> length (the (block h a)) \<Longrightarrow>
   fill_n h (a, i) n x =
     Some (upd_block h a (take i (the (block h a)) @ replicate n x @ drop (i + n) (the (block h a))))"
  using fill_n_block [of h a "the (block h a)" i n x] by auto

lemma transfer_the:
  "a \<noteq> b \<Longrightarrow> block h a \<noteq> None \<Longrightarrow> block h b \<noteq> None \<Longrightarrow>
   i + n \<le> length (the (block h a)) \<Longrightarrow> j + n \<le> length (the (block h b)) \<Longrightarrow>
   transfer f h (a, i) n (b, j) =
     Some (upd_block (upd_block h b (take j (the (block h b)) @ take n (drop i (the (block h a)))
                                      @ drop (j + n) (the (block h b))))
             a (take i (the (block h a)) @ map f (take n (drop i (the (block h a))))
                  @ drop (i + n) (the (block h a))))"
  using transfer_disjoint [of a b h "the (block h a)" "the (block h b)" i n j f] by auto

declare fill_n.simps(2) [simp del] transfer.simps(2) [simp del] transfer_backward.simps(2) [simp del]

lemma std_distance_pair [simp]:
  "std_distance (a, i) (b, j) = (if a = b \<and> i \<le> j then Some (j - i) else None)"
  by (simp add: std_distance_def)

lemma ptr_sub_pair [simp]: "ptr_sub (a, i) k = (if k \<le> i then Some (a, i - k) else None)"
  by (simp add: ptr_sub_def)

lemma transfer_left_the:
  "block h a \<noteq> None \<Longrightarrow> Suc i + n \<le> length (the (block h a)) \<Longrightarrow>
   transfer f h (a, Suc i) n (a, i) =
     Some (upd_block h a (take i (the (block h a)) @ take n (drop (Suc i) (the (block h a))) @
             (if n = 0 then drop i (the (block h a))
              else f (the (block h a) ! (i + n)) # drop (Suc (i + n)) (the (block h a)))))"
  using transfer_shift_left [of h a "the (block h a)" i n f] by auto

lemma transfer_backward_the:
  "block h a \<noteq> None \<Longrightarrow> Suc (i + n) \<le> length (the (block h a)) \<Longrightarrow> d = Suc (i + n) \<Longrightarrow>
   transfer_backward f h (a, i) n (a, d) =
     Some (upd_block h a (take i (the (block h a)) @
             (if n = 0 then drop i (the (block h a))
              else f (the (block h a) ! i) # take n (drop i (the (block h a)))
                     @ drop (Suc (i + n)) (the (block h a)))))"
  using transfer_backward_shift_right [of h a "the (block h a)" i n f] by auto

lemmas heap_simps = store_pair deref_pair fill_n_the transfer_the block_upd_block block_free_block
  block_append drop_update_same take_Suc_update_same

lemma Allocate_fits:
  "fits_size_t T n \<Longrightarrow>
     Allocate T h n = (if n \<noteq> 0 then operator_new h (replicate n Raw) else (nullptr, h))"
  by (simp add: Allocate_def fits_size_t_def)

lemma fits_size_t_mono: "fits_size_t T n \<Longrightarrow> m \<le> n \<Longrightarrow> fits_size_t T m"
  unfolding fits_size_t_def
  by (metis le_less_trans mult_le_mono1)

lemmas Vector_defs = RawMemory_sized_def Allocate_fits operator_new_def RawMemory_plus_def
  RawMemory_index_def UnitializedN_def uninitialized_move_n_def uninitialized_copy_n_def
  destroy_n_def destroy_at_def RawMemory_Swap_def
  RawMemory_destroy_def Deallocate_def operator_delete_def GetAddress_def Capacity_def
  nullptr_def Vector_begin_def Vector_end_def Vector_cbegin_def Vector_cend_def Size_def

lemma Vector_wf_cases:
  assumes "Vector_wf h v"
  obtains (null) "rm_capacity (v_data v) = 0" "v_size v = 0" "rm_buffer (v_data v) = (0, 0)"
  | (blk) a cs where "rm_capacity (v_data v) \<noteq> 0" "rm_buffer (v_data v) = (a, 0)"
      "block h a = Some cs" "length cs = rm_capacity (v_data v)" "v_size v \<le> rm_capacity (v_data v)"
      "list_all (\<lambda>c. c \<noteq> Raw) (take (v_size v) cs)" "0 < a" "a \<le> length h"
proof (cases "rm_capacity (v_data v) = 0")
  case True
  then show ?thesis using assms null by (simp add: Vector_wf_def Capacity_def nullptr_def)
next
  case False
  with assms obtain cs where cs: "block h (fst (rm_buffer (v_data v))) = Some cs"
    "length cs = rm_capacity (v_data v)" "list_all (\<lambda>c. c \<noteq> Raw) (take (v_size v) cs)"
    by (auto simp: Vector_wf_def Capacity_def split: option.splits)
  moreover have "rm_buffer (v_data v) = (fst (rm_buffer (v_data v)), 0)"
    using assms False by (cases "rm_buffer (v_data v)") (simp add: Vector_wf_def Capacity_def)
  ultimately show ?thesis
    using False assms block_Some_D [OF cs(1)] blk [of "fst (rm_buffer (v_data v))" cs]
    by (simp add: Vector_wf_def Capacity_def)
qed

lemma Vector_EmplaceBack_Returns:
  assumes "Vector_wf h v"
    and fits: "Capacity v = v_size v \<Longrightarrow> fits_size_t T (if v_size v = 0 then 1 else v_size v * 2)"
  shows "case Vector_EmplaceBack T h v (Some x) of
           Returns r (h', v') \<Rightarrow>
             Vector_wf h' v' \<and> v_size v' = v_size v + 1 \<and>
             Capacity v' = (if Capacity v = v_size v then max 1 (2 * Capacity v) else Capacity v) \<and>
             Vector_cells h' v' = Vector_cells h v @ [Obj x] \<and>
             r = ptr_add (rm_buffer (v_data v')) (v_size v) \<and>
             length h \<le> length h' \<and>
             (\<forall>c. c \<noteq> fst (rm_buffer (v_data v)) \<and> c \<le> length h \<longrightarrow> block h' c = block h c)
         | Throws e s \<Rightarrow> False
         | Undefined \<Rightarrow> False"
  using assms
proof (cases rule: Vector_wf_cases)
  case null
  then show ?thesis using fits
    by (simp add: Vector_EmplaceBack_def Vector_defs heap_simps Vector_wf_def Vector_cells_def)
next
  case (blk a cs)
  show ?thesis
  proof (cases "rm_capacity (v_data v) = v_size v")
    case True
    then show ?thesis using blk fits
      by (simp add: Vector_EmplaceBack_def Vector_defs heap_simps Vector_wf_def Vector_cells_def)
  next
    case False
    then show ?thesis using blk
      by (simp add: Vector_EmplaceBack_def Vector_defs heap_simps Vector_wf_def Vector_cells_def)
  qed
qed

lemma list_all_insert: "list_all P xs \<Longrightarrow> P y \<Longrightarrow> list_all P (take p xs @ y # drop p xs)"
  by (auto simp: list_all_iff dest: in_set_takeD in_set_dropD)

lemma Vector_Emplace_Returns:
  assumes "Vector_wf h v" "p \<le> v_size v"
    and fits: "Capacity v = v_size v \<Longrightarrow> fits_size_t T (if v_size v = 0 then 1 else v_size v * 2)"
  shows "case Vector_Emplace T h v (ptr_add (Vector_begin v) p) (Some x) of
           Returns r (h', v') \<Rightarrow>
             Vector_wf h' v' \<and> v_size v' = v_size v + 1 \<and>
             Capacity v' = (if Capacity v = v_size v then max 1 (2 * Capacity v) else Capacity v) \<and>
             Vector_cells h' v' = take p (Vector_cells h v) @ [Obj x] @ drop p (Vector_cells h v) \<and>
             r = ptr_add (Vector_begin v') p \<and>
             length h \<le> length h' \<and>
             (\<forall>c. c \<noteq> fst (rm_buffer (v_data v)) \<and> c \<le> length h \<longrightarrow> block h' c = block h c)
         | Throws e s \<Rightarrow> False
         | Undefined \<Rightarrow> False"
proof (cases "p = v_size v")
  case True
  have "ptr_add (Vector_begin v) p = Vector_cend v"
    using True by (simp add: Vector_defs)
  then show ?thesis
    using Vector_EmplaceBack_Returns [OF assms(1) fits, where x = x] True
    by (auto simp: Vector_Emplace_def Vector_cells_def Vector_defs split: outcome.splits option.splits)
next
  case False
  with assms have p: "p < v_size v" by simp
  from assms(1) show ?thesis
  proof (cases rule: Vector_wf_cases)
    case null
    with p show ?thesis by simp
  next
    case (blk a cs)
    have ne: "ptr_add (Vector_begin v) p \<noteq> Vector_cend v"
      using p blk by (simp add: Vector_defs)
    show ?thesis
    proof (cases "rm_capacity (v_data v) = v_size v")
      case True
      then show ?thesis using blk p ne fits
        by (auto simp add: Vector_Emplace_def Vector_defs heap_simps Vector_wf_def Vector_cells_def
            size_t_sub_def Suc_diff_le list_all_iff dest: in_set_takeD in_set_dropD)
    next
      case False
      obtain m where m: "v_size v = Suc m"
        using p by (cases "v_size v") auto
      let ?f = "slot_moved T"
      let ?cs1 = "cs[Suc m := cs ! m, m := ?f (cs ! m)]"
      let ?cs2 = "take p cs @ ?f (cs ! p) # take (m - p) (drop p cs) @ cs ! m # drop (Suc (Suc m)) cs"
      have len: "Suc m < length cs" "p \<le> m"
        using blk False m p by auto
      have s1: "transfer ?f h (a, m) (Suc 0) (a, Suc m) = Some (upd_block h a ?cs1)"
        using blk len by (simp add: transfer.simps(2) heap_simps)
      have b1: "block (upd_block h a ?cs1) a = Some ?cs1"
        using blk by (simp add: block_upd_block)
      have s2: "transfer_backward ?f (upd_block h a ?cs1) (a, p) (m - p) (a, Suc m)
                  = Some (upd_block h a ?cs2)"
        using transfer_backward_shift_right [OF b1, of p "m - p" ?f] len
          shift_right_list [OF len(2) len(1), of ?f]
        by simp
      have c: "take (Suc (Suc m)) (?cs2[p := Obj x])
                 = take p (take (Suc m) cs) @ Obj x # drop p (take (Suc m) cs)"
        using insert_cells_list [OF len(2) len(1)] by simp
      have l2: "length ?cs2 = length cs" "p < length ?cs2"
        using len by auto
      have all: "list_all (\<lambda>c. c \<noteq> Raw) (take p (take (Suc m) cs) @ Obj x # drop p (take (Suc m) cs))"
        using blk(6) m by (intro list_all_insert) simp_all
      show ?thesis
        using blk False m ne len s1 s2 l2 all
        by (simp add: Vector_Emplace_def Vector_defs Vector_wf_def Vector_cells_def
            std_move_backward_def store_pair block_upd_block c del: list_update.simps)
    qed
  qed
qed

lemma list_all_erase: "list_all P xs \<Longrightarrow> list_all P (take p xs @ drop k xs)"
  by (auto simp: list_all_iff dest: in_set_takeD in_set_dropD)

lemma list_all_take_le: "list_all P (take n xs) \<Longrightarrow> m \<le> n \<Longrightarrow> list_all P (take m xs)"
proof -
  assume a: "list_all P (take n xs)" and "m \<le> n"
  from \<open>m \<le> n\<close> have "set (take m xs) \<subseteq> set (take n xs)"
    by (rule set_take_subset_set_take)
  then show ?thesis
    using a by (auto simp: list_all_iff)
qed

lemma Vector_same_block:
  assumes "Vector_wf h v" "block h' (fst (rm_buffer (v_data v))) = block h (fst (rm_buffer (v_data v)))"
  shows "Vector_wf h' v \<and> Vector_cells h' v = Vector_cells h v"
  using assms by (simp add: Vector_wf_def Vector_cells_def)

lemma Vector_get_cells:
  assumes "Vector_wf h v" "i < v_size v"
  shows "Vector_get h v i = (case Vector_cells h v ! i of Raw \<Rightarrow> None | Obj x \<Rightarrow> Some x)"
  using assms(1)
proof (cases rule: Vector_wf_cases)
  case null
  with assms show ?thesis by simp
next
  case (blk a cs)
  then show ?thesis using assms(2)
    by (simp add: Vector_get_def Vector_index_def Vector_defs deref_pair Vector_cells_def
        split: slot.splits)
qed

lemma Vector_cells_length: "Vector_wf h v \<Longrightarrow> length (Vector_cells h v) = v_size v"
  by (erule Vector_wf_cases) (simp_all add: Vector_cells_def)

lemma Vector_cells_Obj:
  "Vector_wf h v \<Longrightarrow> i < v_size v \<Longrightarrow> \<exists>x. Vector_cells h v ! i = Obj x"
proof (erule Vector_wf_cases)
  fix a cs
  assume a: "i < v_size v" "block h a = Some cs" "rm_buffer (v_data v) = (a, 0)"
    "length cs = rm_capacity (v_data v)" "v_size v \<le> rm_capacity (v_data v)"
    "list_all (\<lambda>c. c \<noteq> Raw) (take (v_size v) cs)"
  then have "take (v_size v) cs ! i \<noteq> Raw"
    by (simp add: list_all_length)
  then show ?thesis using a by (cases "cs ! i") (simp_all add: Vector_cells_def)
qed simp

lemma Vector_get_Some_iff:
  assumes "Vector_wf h v" "i < v_size v"
  shows "Vector_get h v i = Some x \<longleftrightarrow> Vector_cells h v ! i = Obj x"
  using Vector_get_cells [OF assms] by (auto split: slot.splits)

lemma Vector_PopBack_Some:
  assumes "Vector_wf h v" "v_size v \<noteq> 0"
  shows "case Vector_PopBack h v of
           Some (h', v') \<Rightarrow>
             Vector_wf h' v' \<and> v_size v' = v_size v - 1 \<and> Capacity v' = Capacity v \<and>
             Vector_cells h' v' = butlast (Vector_cells h v) \<and>
             length h \<le> length h' \<and>
             (\<forall>c. c \<noteq> fst (rm_buffer (v_data v)) \<and> c \<le> length h \<longrightarrow> block h' c = block h c)
         | None \<Rightarrow> False"
  using assms(1)
proof (cases rule: Vector_wf_cases)
  case null
  with assms show ?thesis by simp
next
  case (blk a cs)
  then show ?thesis using assms(2)
    using list_all_take_le [OF blk(6), of "v_size v - Suc 0"]
    by (simp add: Vector_PopBack_def Vector_defs Vector_wf_def Vector_cells_def size_t_sub_def
        store_pair block_upd_block butlast_conv_take Let_def)
qed

lemma Vector_Erase_Some:
  assumes "Vector_wf h v" "p < v_size v"
  shows "case Vector_Erase T h v (ptr_add (Vector_begin v) p) of
           Some (r, h', v') \<Rightarrow>
             Vector_wf h' v' \<and> v_size v' = v_size v - 1 \<and> Capacity v' = Capacity v \<and>
             Vector_cells h' v' = take p (Vector_cells h v) @ drop (Suc p) (Vector_cells h v) \<and>
             r = ptr_add (Vector_begin v') p \<and>
             length h \<le> length h' \<and>
             (\<forall>c. c \<noteq> fst (rm_buffer (v_data v)) \<and> c \<le> length h \<longrightarrow> block h' c = block h c)
         | None \<Rightarrow> False"
  using assms(1)
proof (cases rule: Vector_wf_cases)
  case null
  with assms show ?thesis by simp
next
  case (blk a cs)
  obtain m where m: "v_size v = Suc m"
    using assms(2) by (cases "v_size v") auto
  let ?f = "slot_moved T"
  define cs1 where "cs1 = take p cs @ take (m - p) (drop (Suc p) cs) @
                (if m - p = 0 then drop p cs else ?f (cs ! (p + (m - p))) # drop (Suc (p + (m - p))) cs)"
  have len: "p \<le> m" "Suc m \<le> length cs"
    using blk m assms(2) by auto
  have ne: "ptr_add (Vector_begin v) p \<noteq> Vector_cend v"
    using assms(2) blk by (simp add: Vector_defs)
  have s1: "transfer ?f h (a, Suc p) (m - p) (a, p) = Some (upd_block h a cs1)"
    unfolding cs1_def using transfer_shift_left [OF blk(3), of p "m - p" ?f] len by simp
  have l1: "length cs1 = length cs"
    unfolding cs1_def using erase_length [OF len] by simp
  have c: "take m (cs1[m := Raw]) = take p (take (Suc m) cs) @ drop (Suc p) (take (Suc m) cs)"
    unfolding cs1_def using erase_cells_list [OF len] by simp
  have all: "list_all (\<lambda>c. c \<noteq> Raw) (take p (take (Suc m) cs) @ drop (Suc p) (take (Suc m) cs))"
    using blk(6) m by (intro list_all_erase) simp
  show ?thesis
    using blk m ne len s1 l1 all
    by (simp add: Vector_Erase_def Vector_PopBack_def Vector_defs Vector_wf_def Vector_cells_def
        std_move_def size_t_sub_def store_pair block_upd_block c del: list_update.simps)
qed

lemma Vector_Reserve_Some:
  assumes "Vector_wf h v"
    and fits: "Capacity v < n \<Longrightarrow> fits_size_t T n"
  shows "case Vector_Reserve T h v n of
           Some (h', v') \<Rightarrow>
             Vector_wf h' v' \<and> v_size v' = v_size v \<and> Capacity v' = max (Capacity v) n \<and>
             Vector_cells h' v' = Vector_cells h v \<and>
             length h \<le> length h' \<and>
             (\<forall>c. c \<noteq> fst (rm_buffer (v_data v)) \<and> c \<le> length h \<longrightarrow> block h' c = block h c)
         | None \<Rightarrow> False"
  using assms
proof (cases rule: Vector_wf_cases)
  case null
  then show ?thesis using assms
    by (cases "n = 0") (simp_all add: Vector_Reserve_def Vector_defs heap_simps Vector_wf_def Vector_cells_def)
next
  case (blk a cs)
  then show ?thesis using assms
    by (auto simp add: Vector_Reserve_def Vector_defs heap_simps Vector_wf_def Vector_cells_def
        max_def)
qed

lemma Vector_Resize_shrink:
  assumes "Vector_wf h v" "n < v_size v"
  shows "case Vector_Resize T h v n of
           Returns u (h', v') \<Rightarrow>
             Vector_wf h' v' \<and> v_size v' = n \<and> Capacity v' = Capacity v \<and>
             Vector_cells h' v' = take n (Vector_cells h v) \<and>
             (\<forall>i. n \<le> i \<and> i < v_size v \<longrightarrow>
                  deref h' (ptr_add (rm_buffer (v_data v')) i) = Some Raw) \<and>
             length h \<le> length h' \<and>
             (\<forall>c. c \<noteq> fst (rm_buffer (v_data v)) \<and> c \<le> length h \<longrightarrow> block h' c = block h c)
         | Throws e s \<Rightarrow> False
         | Undefined \<Rightarrow> False"
  using assms(1)
proof (cases rule: Vector_wf_cases)
  case null
  with assms show ?thesis by simp
next
  case (blk a cs)
  then show ?thesis using assms(2) list_all_take_le [OF blk(6), of n]
    by (auto simp add: Vector_Resize_def Vector_defs heap_simps Vector_wf_def Vector_cells_def
        max_def min_def nth_append)
qed

lemma Vector_Resize_grow:
  assumes "Vector_wf h v" "v_size v \<le> n"
    and fits: "Capacity v < n \<Longrightarrow> fits_size_t T n"
  shows "case Vector_Resize T h v n of
           Returns u (h', v') \<Rightarrow>
             (v_size v < n \<longrightarrow> value_init T \<noteq> None) \<and>
             Vector_cells h' v' =
               Vector_cells h v @ replicate (n - v_size v) (Obj (the (value_init T))) \<and>
             Vector_wf h' v' \<and> v_size v' = n \<and> Capacity v' = max (Capacity v) n \<and>
             length h \<le> length h' \<and>
             (\<forall>c. c \<noteq> fst (rm_buffer (v_data v)) \<and> c \<le> length h \<longrightarrow> block h' c = block h c)
         | Throws e (h', v') \<Rightarrow>
             value_init T = None \<and> v_size v < n \<and> e = element_exception \<and>
             Vector_wf h' v' \<and> v_size v' = v_size v \<and> Capacity v' = max (Capacity v) n \<and>
             Vector_cells h' v' = Vector_cells h v \<and>
             length h \<le> length h' \<and>
             (\<forall>c. c \<noteq> fst (rm_buffer (v_data v)) \<and> c \<le> length h \<longrightarrow> block h' c = block h c)
         | Undefined \<Rightarrow> False"
proof -
  have False: "\<not> v_size v > n" using assms(2) by simp
  obtain h1 v1 where r: "Vector_Reserve T h v n = Some (h1, v1)"
    and wf1: "Vector_wf h1 v1" and sz: "v_size v1 = v_size v" and cap: "Capacity v1 = max (Capacity v) n"
    and cells: "Vector_cells h1 v1 = Vector_cells h v" and le: "length h \<le> length h1"
    and frame: "\<forall>c. c \<noteq> fst (rm_buffer (v_data v)) \<and> c \<le> length h \<longrightarrow> block h1 c = block h c"
    using Vector_Reserve_Some [OF assms(1) fits] by (auto split: option.splits)
  show ?thesis
  proof (cases "n = v_size v")
    case True
    have eq: "v1\<lparr>v_size := n\<rparr> = v1"
      using True sz by simp
    have res: "Vector_Resize T h v n = Returns () (h1, v1)"
      using True r sz eq by (simp add: Vector_Resize_def uninitialized_value_construct_n_def)
    show ?thesis
      using res wf1 sz cap cells le frame True by simp
  next
    case ne: False
    then have lt: "v_size v < n" using assms(2) by simp
    show ?thesis
    proof (cases "value_init T")
      case None
      have res: "Vector_Resize T h v n = Throws element_exception (h1, v1)"
        using lt r sz None by (simp add: Vector_Resize_def uninitialized_value_construct_n_def)
      show ?thesis
        using res wf1 sz cap cells le frame lt None by simp
    next
      case (Some d)
      from wf1 show ?thesis
      proof (cases rule: Vector_wf_cases)
        case null
        then show ?thesis using cap lt by (simp add: Capacity_def)
      next
        case (blk a cs)
        define cs2 where "cs2 = take (v_size v) cs @ replicate (n - v_size v) (Obj d)
                                  @ drop (v_size v + (n - v_size v)) cs"
        have nle: "v_size v \<le> n" "n \<le> length cs"
          using False blk cap by (simp_all add: Capacity_def)
        have f: "fill_n h1 (a, v_size v) (n - v_size v) (Obj d) = Some (upd_block h1 a cs2)"
          unfolding cs2_def
          using fill_n_block [OF blk(3), of "v_size v" "n - v_size v"] nle by simp
        have res: "Vector_Resize T h v n = Returns () (upd_block h1 a cs2, v1\<lparr>v_size := n\<rparr>)"
          using False r f blk sz lt Some
          by (simp add: Vector_Resize_def Vector_defs uninitialized_value_construct_n_def)
        have c1: "Vector_cells h v = take (v_size v) cs"
          using cells blk sz by (simp add: Vector_cells_def)
        have t2: "take n cs2 = take (v_size v) cs @ replicate (n - v_size v) (Obj d)"
          unfolding cs2_def using nle by simp
        have l2: "length cs2 = length cs"
          unfolding cs2_def using nle by simp
        have c2: "Vector_cells (upd_block h1 a cs2) (v1\<lparr>v_size := n\<rparr>) = take n cs2"
          using blk by (simp add: Vector_cells_def block_upd_block)
        have all: "list_all (\<lambda>c. c \<noteq> Raw) (take n cs2)"
          unfolding t2 using blk(6) sz by (auto simp: list_all_iff)
        have wf2: "Vector_wf (upd_block h1 a cs2) (v1\<lparr>v_size := n\<rparr>)"
          using blk nle l2 all by (simp add: Vector_wf_def Capacity_def block_upd_block)
        have fr2: "\<forall>c. c \<noteq> fst (rm_buffer (v_data v)) \<and> c \<le> length h
                     \<longrightarrow> block (upd_block h1 a cs2) c = block h c"
        proof (intro allI impI)
          fix c assume c: "c \<noteq> fst (rm_buffer (v_data v)) \<and> c \<le> length h"
          show "block (upd_block h1 a cs2) c = block h c"
          proof (cases "c = a")
            case True
            have "block h1 c = block h c" using frame c by simp
            moreover have "rm_buffer (v_data v) \<noteq> rm_buffer (v_data v1)"
              using c True blk by auto
            ultimately show ?thesis
              using r True blk c
              by (auto simp: Vector_Reserve_def Vector_defs Allocate_def Let_def
                  split: if_splits Option.bind_splits)
          next
            case False
            then show ?thesis using frame c by (simp add: block_upd_block)
          qed
        qed
        show ?thesis
          using res wf2 c2 t2 c1 nle fr2 cap le Some by (simp add: Capacity_def)
      qed
    qed
  qed
qed

lemma Vector_copy_Some:
  assumes "Vector_wf h v"
    and fits: "fits_size_t T (v_size v)"
  shows "case Vector_copy T h v of
           Some (h', v') \<Rightarrow>
             Vector_wf h' v' \<and> v_size v' = v_size v \<and> Capacity v' = v_size v \<and>
             Vector_cells h' v' = Vector_cells h v \<and>
             length h \<le> length h' \<and>
             (\<forall>c. c \<le> length h \<longrightarrow> block h' c = block h c) \<and>
             (v_size v \<noteq> 0 \<longrightarrow> length h < fst (rm_buffer (v_data v')))
         | None \<Rightarrow> False"
  using assms
proof (cases rule: Vector_wf_cases)
  case null
  then show ?thesis using fits
    by (simp add: Vector_copy_def Vector_defs heap_simps Vector_wf_def Vector_cells_def)
next
  case (blk a cs)
  then show ?thesis using fits
    by (auto simp add: Vector_copy_def Vector_defs heap_simps Vector_wf_def Vector_cells_def
        upd_block_same)
qed

lemma Vector_set_Some:
  assumes "Vector_wf h v" "i < v_size v"
  shows "case Vector_set h v i x of
           Some h' \<Rightarrow>
             Vector_wf h' v \<and> Vector_cells h' v = (Vector_cells h v)[i := Obj x] \<and>
             length h \<le> length h' \<and>
             (\<forall>c. c \<noteq> fst (rm_buffer (v_data v)) \<and> c \<le> length h \<longrightarrow> block h' c = block h c)
         | None \<Rightarrow> False"
  using assms(1)
proof (cases rule: Vector_wf_cases)
  case null
  with assms show ?thesis by simp
next
  case (blk a cs)
  then show ?thesis using assms(2)
    by (auto simp add: Vector_set_def Vector_index_def Vector_defs Vector_wf_def Vector_cells_def
        store_pair block_upd_block take_update_swap list_all_iff dest: set_update_subset_insert [THEN subsetD])
qed

lemma Vector_EmplaceBack_Throws:
  assumes "Vector_wf h v"
  shows "case Vector_EmplaceBack T h v None of
           Returns r s \<Rightarrow> False
         | Throws e (h', v') \<Rightarrow>
             e = element_exception \<and> v' = v \<and> length h \<le> length h' \<and>
             (\<forall>c. c \<le> length h \<longrightarrow> block h' c = block h c)
         | Undefined \<Rightarrow> False"
  using assms
  by (simp add: Vector_EmplaceBack_def Vector_defs Allocate_def Vector_wf_def block_free_block
      block_append)

lemma Vector_Emplace_Throws:
  assumes "Vector_wf h v" "p \<le> v_size v"
  shows "case Vector_Emplace T h v (ptr_add (Vector_begin v) p) None of
           Returns r s \<Rightarrow> False
         | Throws e (h', v') \<Rightarrow>
             e = element_exception \<and> v' = v \<and> length h \<le> length h' \<and>
             (\<forall>c. c \<le> length h \<longrightarrow> block h' c = block h c)
         | Undefined \<Rightarrow> False"
proof (cases "ptr_add (Vector_begin v) p = Vector_cend v")
  case True
  then show ?thesis
    using Vector_EmplaceBack_Throws [OF assms(1), where T = T] by (simp add: Vector_Emplace_def)
next
  case False
  obtain a where a: "rm_buffer (v_data v) = (a, 0)"
    using assms(1) by (cases rule: Vector_wf_cases) auto
  show ?thesis
    using False a assms
    by (simp add: Vector_Emplace_def Vector_defs Allocate_def Vector_wf_def block_free_block
        block_append)
qed

section \<open>Properties of the operations of SimpleVector\<close>

lemmas SimpleVector_defs = ArrayPtr_sized_def ArrayPtr_destroy_def ArrayPtr_index_def
  operator_new_def operator_delete_def nullptr_def SimpleVector_begin_def SimpleVector_end_def
  SimpleVector_cbegin_def SimpleVector_cend_def GetSize_def GetCapacity_def IsEmpty_def
  std_move_def std_copy_def std_fill_def std_move_backward_def std_copy_backward_def
  SimpleVector_index_def Let_def

lemma SimpleVector_wf_cases:
  assumes "SimpleVector_wf h v"
  obtains (null) "sv_capacity v = 0" "sv_size v = 0" "sv_items v = (0, 0)"
  | (blk) a cs where "sv_capacity v \<noteq> 0" "sv_items v = (a, 0)"
      "block h a = Some cs" "length cs = sv_capacity v" "sv_size v \<le> sv_capacity v"
      "0 < a" "a \<le> length h"
proof (cases "sv_capacity v = 0")
  case True
  then show ?thesis using assms null by (simp add: SimpleVector_wf_def nullptr_def)
next
  case False
  with assms obtain cs where cs: "block h (fst (sv_items v)) = Some cs"
    "length cs = sv_capacity v"
    by (auto simp: SimpleVector_wf_def split: option.splits)
  moreover have "sv_items v = (fst (sv_items v), 0)"
    using assms False by (cases "sv_items v") (simp add: SimpleVector_wf_def)
  ultimately show ?thesis
    using False assms block_Some_D [OF cs(1)] blk [of "fst (sv_items v)" cs]
    by (simp add: SimpleVector_wf_def)
qed

lemma SimpleVector_same_block:
  assumes "SimpleVector_wf h v" "block h' (fst (sv_items v)) = block h (fst (sv_items v))"
  shows "SimpleVector_wf h' v \<and> SimpleVector_cells h' v = SimpleVector_cells h v"
  using assms by (simp add: SimpleVector_wf_def SimpleVector_cells_def)

lemma SimpleVector_cells_length: "SimpleVector_wf h v \<Longrightarrow> length (SimpleVector_cells h v) = sv_size v"
  by (erule SimpleVector_wf_cases) (simp_all add: SimpleVector_cells_def)

lemma SimpleVector_get_cells:
  assumes "SimpleVector_wf h v" "i < sv_size v"
  shows "SimpleVector_get h v i = Some (SimpleVector_cells h v ! i)"
  using assms(1)
proof (cases rule: SimpleVector_wf_cases)
  case null
  with assms show ?thesis by simp
next
  case (blk a cs)
  then show ?thesis using assms(2)
    by (simp add: SimpleVector_get_def SimpleVector_At_def SimpleVector_defs deref_pair
        SimpleVector_cells_def)
qed

lemma assign_from_Object [simp]: "assign_from f h dst (Object x) = store h dst x"
  by (simp add: assign_from_def)

lemma SimpleVector_PushBack_with_Returns:
  assumes "SimpleVector_wf h v"
  shows "case SimpleVector_PushBack_with f T h v (Some (Object x)) of
           Returns r (h', v') \<Rightarrow>
             SimpleVector_wf h' v' \<and> sv_size v' = sv_size v + 1 \<and>
             sv_capacity v' = (if sv_capacity v = sv_size v then max 1 (2 * sv_capacity v)
                               else sv_capacity v) \<and>
             SimpleVector_cells h' v' = SimpleVector_cells h v @ [x] \<and>
             length h \<le> length h' \<and>
             (\<forall>c. c \<noteq> fst (sv_items v) \<and> c \<le> length h \<longrightarrow> block h' c = block h c)
         | Throws e s \<Rightarrow> False
         | Undefined \<Rightarrow> False"
  using assms
proof (cases rule: SimpleVector_wf_cases)
  case null
  then show ?thesis
    by (simp add: SimpleVector_PushBack_with_def ReallocateCopy_def SimpleVector_defs heap_simps
        SimpleVector_wf_def SimpleVector_cells_def)
next
  case (blk a cs)
  show ?thesis
  proof (cases "sv_capacity v = sv_size v")
    case True
    then show ?thesis using blk
      by (simp add: SimpleVector_PushBack_with_def ReallocateCopy_def SimpleVector_defs heap_simps
          SimpleVector_wf_def SimpleVector_cells_def max_def)
  next
    case False
    then show ?thesis using blk
      by (simp add: SimpleVector_PushBack_with_def ReallocateCopy_def SimpleVector_defs heap_simps
          SimpleVector_wf_def SimpleVector_cells_def)
  qed
qed

lemma list_update_at_take:
  "p \<le> length cs \<Longrightarrow> (take p cs @ z # ys)[p := x] = take p cs @ x # ys"
  by (simp add: list_update_append)

lemma SimpleVector_Insert_with_Returns:
  assumes "SimpleVector_wf h v" "p \<le> sv_size v"
  shows "case SimpleVector_Insert_with f T h v (ptr_add (SimpleVector_begin v) p) (Some (Object x)) of
           Returns r (h', v') \<Rightarrow>
             SimpleVector_wf h' v' \<and> sv_size v' = sv_size v + 1 \<and>
             sv_capacity v' = (if sv_capacity v = sv_size v then max 1 (2 * sv_capacity v)
                               else sv_capacity v) \<and>
             SimpleVector_cells h' v' =
               take p (SimpleVector_cells h v) @ [x] @ drop p (SimpleVector_cells h v) \<and>
             r = ptr_add (SimpleVector_begin v') p \<and>
             length h \<le> length h' \<and>
             (\<forall>c. c \<noteq> fst (sv_items v) \<and> c \<le> length h \<longrightarrow> block h' c = block h c)
         | Throws e s \<Rightarrow> False
         | Undefined \<Rightarrow> False"
  using assms(1)
proof (cases rule: SimpleVector_wf_cases)
  case null
  then show ?thesis using assms(2)
    by (simp add: SimpleVector_Insert_with_def SimpleVector_defs heap_simps
        SimpleVector_wf_def SimpleVector_cells_def)
next
  case (blk a cs)
  show ?thesis
  proof (cases "sv_capacity v = sv_size v")
    case True
    then show ?thesis using blk assms(2)
      by (simp add: SimpleVector_Insert_with_def SimpleVector_defs heap_simps
          SimpleVector_wf_def SimpleVector_cells_def max_def Suc_diff_le list_update_at_take)
  next
    case False
    define n where "n = sv_size v"
    define cs1 where "cs1 = take p cs @ (if n - p = 0 then drop p cs
                          else f (cs ! p) # take (n - p) (drop p cs) @ drop (Suc (p + (n - p))) cs)"
    have len: "p \<le> n" "n < length cs"
      using blk False assms(2) n_def by auto
    have s1: "transfer_backward f h (a, p) (n - p) (a, Suc n) = Some (upd_block h a cs1)"
      unfolding cs1_def using transfer_backward_shift_right [OF blk(3), of p "n - p" f] len by simp
    have l1: "length cs1 = length cs"
      unfolding cs1_def using sv_insert_length [OF len] by simp
    have c: "take (Suc n) (cs1[p := x]) = take p (take n cs) @ x # drop p (take n cs)"
      unfolding cs1_def using sv_insert_cells_list [OF len] by simp
    show ?thesis
      using blk False len s1 l1 n_def [symmetric]
      by (simp add: SimpleVector_Insert_with_def SimpleVector_defs SimpleVector_wf_def
          SimpleVector_cells_def store_pair block_upd_block c del: list_update.simps)
  qed
qed

lemma SimpleVector_Erase_Some:
  assumes "SimpleVector_wf h v" "p < sv_size v"
  shows "case SimpleVector_Erase T h v (ptr_add (SimpleVector_begin v) p) of
           Some (r, h', v') \<Rightarrow>
             SimpleVector_wf h' v' \<and> sv_size v' = sv_size v - 1 \<and> sv_capacity v' = sv_capacity v \<and>
             SimpleVector_cells h' v' =
               take p (SimpleVector_cells h v) @ drop (Suc p) (SimpleVector_cells h v) \<and>
             r = ptr_add (SimpleVector_begin v') p \<and>
             length h \<le> length h' \<and>
             (\<forall>c. c \<noteq> fst (sv_items v) \<and> c \<le> length h \<longrightarrow> block h' c = block h c)
         | None \<Rightarrow> False"
  using assms(1)
proof (cases rule: SimpleVector_wf_cases)
  case null
  with assms show ?thesis by simp
next
  case (blk a cs)
  obtain m where m: "sv_size v = Suc m"
    using assms(2) by (cases "sv_size v") auto
  let ?f = "moved_from T"
  define cs1 where "cs1 = take p cs @ take (m - p) (drop (Suc p) cs) @
                (if m - p = 0 then drop p cs else ?f (cs ! (p + (m - p))) # drop (Suc (p + (m - p))) cs)"
  have len: "p \<le> m" "Suc m \<le> length cs"
    using blk m assms(2) by auto
  have s1: "transfer ?f h (a, Suc p) (m - p) (a, p) = Some (upd_block h a cs1)"
    unfolding cs1_def using transfer_shift_left [OF blk(3), of p "m - p" ?f] len by simp
  have l1: "length cs1 = length cs"
    unfolding cs1_def using erase_length [OF len] by simp
  have c: "take m cs1 = take p (take (Suc m) cs) @ drop (Suc p) (take (Suc m) cs)"
    unfolding cs1_def using erase_cells_list' [OF len] by simp
  show ?thesis
    using blk m len s1 l1
    by (simp add: SimpleVector_Erase_def SimpleVector_defs SimpleVector_wf_def SimpleVector_cells_def
        size_t_sub_def block_upd_block c)
qed

lemma SimpleVector_Reserve_Some:
  assumes "SimpleVector_wf h v"
  shows "case SimpleVector_Reserve T h v n of
           Some (h', v') \<Rightarrow>
             SimpleVector_wf h' v' \<and> sv_size v' = sv_size v \<and>
             sv_capacity v' = max (sv_capacity v) n \<and>
             SimpleVector_cells h' v' = SimpleVector_cells h v \<and>
             length h \<le> length h' \<and>
             (\<forall>c. c \<noteq> fst (sv_items v) \<and> c \<le> length h \<longrightarrow> block h' c = block h c)
         | None \<Rightarrow> False"
  using assms
proof (cases rule: SimpleVector_wf_cases)
  case null
  then show ?thesis using assms
    by (simp add: SimpleVector_Reserve_def ReallocateCopy_def SimpleVector_defs heap_simps
        SimpleVector_wf_def SimpleVector_cells_def)
next
  case (blk a cs)
  then show ?thesis using assms
    by (auto simp add: SimpleVector_Reserve_def ReallocateCopy_def SimpleVector_defs heap_simps
        SimpleVector_wf_def SimpleVector_cells_def max_def min_def)
qed

lemma SimpleVector_Resize_Returns:
  assumes "SimpleVector_wf h v" "value_init T = Some d"
  shows "case SimpleVector_Resize T h v n of
           Returns u (h', v') \<Rightarrow>
             SimpleVector_wf h' v' \<and> sv_size v' = n \<and>
             sv_capacity v' = (if n > sv_capacity v then max n (sv_capacity v * 2) else sv_capacity v) \<and>
             SimpleVector_cells h' v' =
               take n (SimpleVector_cells h v) @ replicate (n - sv_size v) d \<and>
             length h \<le> length h' \<and>
             (\<forall>c. c \<noteq> fst (sv_items v) \<and> c \<le> length h \<longrightarrow> block h' c = block h c)
         | Throws e s \<Rightarrow> False
         | Undefined \<Rightarrow> False"
  using assms(1)
proof (cases rule: SimpleVector_wf_cases)
  case null
  then show ?thesis using assms
    by (simp add: SimpleVector_Resize_def ReallocateCopy_def SimpleVector_defs heap_simps
        SimpleVector_wf_def SimpleVector_cells_def)
next
  case (blk a cs)
  then show ?thesis using assms
    by (auto simp add: SimpleVector_Resize_def ReallocateCopy_def SimpleVector_defs heap_simps
        SimpleVector_wf_def SimpleVector_cells_def max_def min_def)
qed

lemma SimpleVector_Resize_Throws:
  assumes "SimpleVector_wf h v" "value_init T = None" "sv_size v < n"
  shows "case SimpleVector_Resize T h v n of
           Returns u s \<Rightarrow> False
         | Throws e (h', v') \<Rightarrow> e = element_exception \<and> v' = v
         | Undefined \<Rightarrow> False"
  using assms(1)
proof (cases rule: SimpleVector_wf_cases)
  case null
  then show ?thesis using assms
    by (simp add: SimpleVector_Resize_def ReallocateCopy_def SimpleVector_defs heap_simps)
next
  case (blk a cs)
  then show ?thesis using assms
    by (auto simp add: SimpleVector_Resize_def ReallocateCopy_def SimpleVector_defs heap_simps
        max_def min_def)
qed

lemma SimpleVector_copy_Some:
  assumes "SimpleVector_wf h v"
  shows "case SimpleVector_copy T h v of
           Some (h', v') \<Rightarrow>
             SimpleVector_wf h' v' \<and> sv_size v' = sv_size v \<and> sv_capacity v' = sv_capacity v \<and>
             SimpleVector_cells h' v' = SimpleVector_cells h v \<and>
             length h \<le> length h' \<and>
             (\<forall>c. c \<le> length h \<longrightarrow> block h' c = block h c) \<and>
             (sv_capacity v \<noteq> 0 \<longrightarrow> length h < fst (sv_items v'))
         | None \<Rightarrow> False"
  using assms
proof (cases rule: SimpleVector_wf_cases)
  case null
  then show ?thesis
    by (simp add: SimpleVector_copy_def SimpleVector_defs heap_simps SimpleVector_wf_def
        SimpleVector_cells_def)
next
  case (blk a cs)
  then show ?thesis
    by (auto simp add: SimpleVector_copy_def SimpleVector_defs heap_simps SimpleVector_wf_def
        SimpleVector_cells_def upd_block_same)
qed

lemma SimpleVector_set_Some:
  assumes "SimpleVector_wf h v" "i < sv_size v"
  shows "case SimpleVector_set h v i x of
           Some h' \<Rightarrow>
             SimpleVector_wf h' v \<and> SimpleVector_cells h' v = (SimpleVector_cells h v)[i := x] \<and>
             length h \<le> length h' \<and>
             (\<forall>c. c \<noteq> fst (sv_items v) \<and> c \<le> length h \<longrightarrow> block h' c = block h c)
         | None \<Rightarrow> False"
  using assms(1)
proof (cases rule: SimpleVector_wf_cases)
  case null
  with assms show ?thesis by simp
next
  case (blk a cs)
  then show ?thesis using assms(2)
    by (auto simp add: SimpleVector_set_def SimpleVector_defs SimpleVector_wf_def
        SimpleVector_cells_def store_pair block_upd_block take_update_swap)
qed

section \<open>Sequences of appends, and element-wise views\<close>

lemma Vector_PushBack_Returns:
  assumes "Vector_wf h v"
    and fits: "Capacity v = v_size v \<Longrightarrow> fits_size_t T (if v_size v = 0 then 1 else v_size v * 2)"
  shows "\<exists>h' v'. Vector_PushBack T h v (Some x) = Returns () (h', v') \<and>
           Vector_wf h' v' \<and> v_size v' = v_size v + 1 \<and>
           Vector_cells h' v' = Vector_cells h v @ [Obj x]"
  using Vector_EmplaceBack_Returns [OF assms, where x = x]
  by (auto simp: Vector_PushBack_def split: outcome.splits)

lemma Vector_appends_Some:
  assumes "Vector_wf h v"
    and "fits_size_t T (2 * (v_size v + length xs))"
  shows "\<exists>h' v'. Vector_appends T h v xs = Some (h', v') \<and> Vector_wf h' v' \<and>
           v_size v' = v_size v + length xs \<and>
           Vector_cells h' v' = Vector_cells h v @ map Obj xs"
  using assms
proof (induction xs arbitrary: h v)
  case Nil
  then show ?case by simp
next
  case (Cons x xs)
  obtain h1 v1 where s: "Vector_PushBack T h v (Some x) = Returns () (h1, v1)"
    and wf1: "Vector_wf h1 v1" and sz: "v_size v1 = v_size v + 1"
    and c: "Vector_cells h1 v1 = Vector_cells h v @ [Obj x]"
    using Vector_PushBack_Returns [OF Cons.prems(1), where T = T and x = x]
      fits_size_t_mono [OF Cons.prems(2), of "if v_size v = 0 then 1 else v_size v * 2"]
    by auto
  have "fits_size_t T (2 * (v_size v1 + length xs))"
    using Cons.prems(2) sz by simp
  from Cons.IH [OF wf1 this] obtain h' v' where
    "Vector_appends T h1 v1 xs = Some (h', v')" "Vector_wf h' v'"
    "v_size v' = v_size v1 + length xs" "Vector_cells h' v' = Vector_cells h1 v1 @ map Obj xs"
    by blast
  then show ?case using s sz c by simp
qed

lemma SimpleVector_appends_Some:
  assumes "SimpleVector_wf h v"
  shows "\<exists>h' v'. SimpleVector_appends T h v xs = Some (h', v') \<and> SimpleVector_wf h' v' \<and>
           sv_size v' = sv_size v + length xs \<and>
           SimpleVector_cells h' v' = SimpleVector_cells h v @ xs"
  using assms
proof (induction xs arbitrary: h v)
  case Nil
  then show ?case by simp
next
  case (Cons x xs)
  obtain h1 v1 where s: "SimpleVector_PushBack T h v (Some (Object x)) = Returns () (h1, v1)"
    and wf1: "SimpleVector_wf h1 v1" and sz: "sv_size v1 = sv_size v + 1"
    and c: "SimpleVector_cells h1 v1 = SimpleVector_cells h v @ [x]"
    using SimpleVector_PushBack_with_Returns [OF Cons.prems, where T = T and x = x and f = "\<lambda>x. x"]
    by (auto simp: SimpleVector_PushBack_def split: outcome.splits)
  from Cons.IH [OF wf1] obtain h' v' where
    "SimpleVector_appends T h1 v1 xs = Some (h', v')" "SimpleVector_wf h' v'"
    "sv_size v' = sv_size v1 + length xs" "SimpleVector_cells h' v' = SimpleVector_cells h1 v1 @ xs"
    by blast
  then show ?case using s sz c by simp
qed

lemma Vector_default_wf: "Vector_wf h Vector_default"
  by (simp add: Vector_wf_def Vector_default_def RawMemory_default_def Capacity_def)

lemma Vector_default_cells: "Vector_cells h Vector_default = []"
  by (simp add: Vector_cells_def Vector_default_def RawMemory_default_def nullptr_def)

lemma Vector_default_size [simp]: "v_size Vector_default = 0"
  by (simp add: Vector_default_def)

lemma SimpleVector_default_size [simp]: "sv_size SimpleVector_default = 0"
  by (simp add: SimpleVector_default_def)

lemma SimpleVector_default_wf: "SimpleVector_wf h SimpleVector_default"
  by (simp add: SimpleVector_wf_def SimpleVector_default_def)

lemma SimpleVector_default_cells: "SimpleVector_cells h SimpleVector_default = []"
  by (simp add: SimpleVector_cells_def SimpleVector_default_def nullptr_def)

lemma Vector_EmplaceBack_capacity:
  "case Vector_EmplaceBack T h v a of
     Returns r (h', v') \<Rightarrow> Capacity v \<le> Capacity v'
   | Throws e (h', v') \<Rightarrow> Capacity v \<le> Capacity v'
   | Undefined \<Rightarrow> True"
  by (auto simp: Vector_EmplaceBack_def Vector_defs Allocate_def Let_def
      split: option.splits outcome.splits Option.bind_splits)

lemma SimpleVector_PushBack_with_capacity:
  "case SimpleVector_PushBack_with f T h v a of
     Returns r (h', v') \<Rightarrow> GetCapacity v \<le> GetCapacity v'
   | Throws e (h', v') \<Rightarrow> GetCapacity v \<le> GetCapacity v'
   | Undefined \<Rightarrow> True"
  by (auto simp: SimpleVector_PushBack_with_def GetCapacity_def Let_def
      split: option.splits outcome.splits)

lemma nth_insert_list:
  "p \<le> length xs \<Longrightarrow> i \<le> length xs \<Longrightarrow>
   (take p xs @ [y] @ drop p xs) ! i = (if i < p then xs ! i else if i = p then y else xs ! (i - 1))"
  apply (auto simp: nth_append min_def nth_Cons split: nat.splits)
  apply (rule arg_cong [where f = "(!) xs"], arith)
  done

lemma nth_erase_list:
  "p < length xs \<Longrightarrow> Suc i < length xs \<Longrightarrow>
   (take p xs @ drop (Suc p) xs) ! i = (if i < p then xs ! i else xs ! Suc i)"
  by (auto simp: nth_append min_def)

lemma Vector_index_Some:
  "Vector_wf h v \<Longrightarrow> i < v_size v \<Longrightarrow> Vector_index v i = Some (ptr_add (Vector_begin v) i)"
  by (simp add: Vector_index_def RawMemory_index_def Vector_wf_def Capacity_def Vector_begin_def
      GetAddress_def)

lemma Vector_Emplace_elements:
  assumes "Vector_wf h v" "p \<le> v_size v"
    and fits: "Capacity v = v_size v \<Longrightarrow> fits_size_t T (if v_size v = 0 then 1 else v_size v * 2)"
  shows "\<exists>r h' v'. Vector_Emplace T h v (ptr_add (Vector_begin v) p) (Some x) = Returns r (h', v') \<and>
           Vector_wf h' v' \<and> v_size v' = v_size v + 1 \<and>
           (\<forall>i<p. Vector_get h' v' i = Vector_get h v i) \<and>
           Vector_get h' v' p = Some x \<and>
           (\<forall>i. p \<le> i \<and> i < v_size v \<longrightarrow> Vector_get h' v' (Suc i) = Vector_get h v i) \<and>
           Vector_index v' p = Some r"
proof -
  obtain r h' v' where e: "Vector_Emplace T h v (ptr_add (Vector_begin v) p) (Some x) = Returns r (h', v')"
    and wf': "Vector_wf h' v'" and sz: "v_size v' = v_size v + 1"
    and c: "Vector_cells h' v' = take p (Vector_cells h v) @ [Obj x] @ drop p (Vector_cells h v)"
    and r: "r = ptr_add (Vector_begin v') p"
    using Vector_Emplace_Returns [OF assms, where x = x]
    by (auto split: outcome.splits)
  have len: "length (Vector_cells h v) = v_size v"
    by (rule Vector_cells_length [OF assms(1)])
  have g': "Vector_get h' v' i = (case Vector_cells h' v' ! i of Raw \<Rightarrow> None | Obj x \<Rightarrow> Some x)"
    if "i \<le> v_size v" for i
    using that sz by (intro Vector_get_cells [OF wf']) simp
  have g: "Vector_get h v i = (case Vector_cells h v ! i of Raw \<Rightarrow> None | Obj x \<Rightarrow> Some x)"
    if "i < v_size v" for i
    using that by (rule Vector_get_cells [OF assms(1)])
  have 1: "Vector_get h' v' i = Vector_get h v i" if "i < p" for i
    using that assms(2) len by (simp add: g g' c nth_insert_list del: append.simps)
  have 2: "Vector_get h' v' p = Some x"
    using assms(2) len by (simp add: g' c nth_insert_list del: append.simps)
  have 3: "Vector_get h' v' (Suc i) = Vector_get h v i" if "p \<le> i \<and> i < v_size v" for i
    using that assms(2) len by (simp add: g g' c nth_insert_list del: append.simps)
  have 4: "Vector_index v' p = Some r"
    using Vector_index_Some [OF wf', of p] assms(2) sz r by simp
  show ?thesis
    using e wf' sz 1 2 3 4 by blast
qed

lemma Vector_Erase_elements:
  assumes "Vector_wf h v" "p < v_size v"
  shows "\<exists>r h' v'. Vector_Erase T h v (ptr_add (Vector_begin v) p) = Some (r, h', v') \<and>
           Vector_wf h' v' \<and> v_size v' = v_size v - 1 \<and>
           (\<forall>i<p. Vector_get h' v' i = Vector_get h v i) \<and>
           (\<forall>i. p \<le> i \<and> Suc i < v_size v \<longrightarrow> Vector_get h' v' i = Vector_get h v (Suc i)) \<and>
           r = ptr_add (Vector_begin v') p \<and>
           (p < v_size v' \<longrightarrow> Vector_index v' p = Some r) \<and>
           (p = v_size v' \<longrightarrow> r = Vector_end v')"
proof -
  obtain r h' v' where e: "Vector_Erase T h v (ptr_add (Vector_begin v) p) = Some (r, h', v')"
    and wf': "Vector_wf h' v'" and sz: "v_size v' = v_size v - 1"
    and c: "Vector_cells h' v' = take p (Vector_cells h v) @ drop (Suc p) (Vector_cells h v)"
    and r: "r = ptr_add (Vector_begin v') p"
    using Vector_Erase_Some [OF assms, where T = T]
    by (auto split: option.splits)
  have len: "length (Vector_cells h v) = v_size v"
    by (rule Vector_cells_length [OF assms(1)])
  have g': "Vector_get h' v' i = (case Vector_cells h' v' ! i of Raw \<Rightarrow> None | Obj x \<Rightarrow> Some x)"
    if "Suc i < v_size v" for i
    using that sz by (intro Vector_get_cells [OF wf']) simp
  have g: "Vector_get h v i = (case Vector_cells h v ! i of Raw \<Rightarrow> None | Obj x \<Rightarrow> Some x)"
    if "i < v_size v" for i
    using that by (rule Vector_get_cells [OF assms(1)])
  have 1: "Vector_get h' v' i = Vector_get h v i" if "i < p" for i
    using that assms(2) len by (simp add: g g' c nth_erase_list)
  have 2: "Vector_get h' v' i = Vector_get h v (Suc i)" if "p \<le> i \<and> Suc i < v_size v" for i
    using that assms(2) len by (simp add: g g' c nth_erase_list)
  have 3: "Vector_index v' p = Some r" if "p < v_size v'"
    using Vector_index_Some [OF wf' that] r by simp
  have 4: "r = Vector_end v'" if "p = v_size v'"
    using that r by (simp add: Vector_end_def Vector_begin_def)
  show ?thesis
    using e wf' sz 1 2 3 4 r by blast
qed

lemma SimpleVector_At_Returns:
  "i < sv_size v \<Longrightarrow> SimpleVector_At h v i = Returns (SimpleVector_index v i) (h, v)"
  by (simp add: SimpleVector_At_def SimpleVector_index_def)

lemma SimpleVector_Insert_with_elements:
  assumes "SimpleVector_wf h v" "p \<le> sv_size v"
  shows "\<exists>r h' v'. SimpleVector_Insert_with f T h v (ptr_add (SimpleVector_begin v) p)
               (Some (Object x))
             = Returns r (h', v') \<and>
           SimpleVector_wf h' v' \<and> sv_size v' = sv_size v + 1 \<and>
           (\<forall>i<p. SimpleVector_get h' v' i = SimpleVector_get h v i) \<and>
           SimpleVector_get h' v' p = Some x \<and>
           (\<forall>i. p \<le> i \<and> i < sv_size v \<longrightarrow> SimpleVector_get h' v' (Suc i) = SimpleVector_get h v i) \<and>
           r = SimpleVector_index v' p"
proof -
  obtain r h' v' where e: "SimpleVector_Insert_with f T h v (ptr_add (SimpleVector_begin v) p)
               (Some (Object x))
             = Returns r (h', v')"
    and wf': "SimpleVector_wf h' v'" and sz: "sv_size v' = sv_size v + 1"
    and c: "SimpleVector_cells h' v' =
              take p (SimpleVector_cells h v) @ [x] @ drop p (SimpleVector_cells h v)"
    and r: "r = ptr_add (SimpleVector_begin v') p"
    using SimpleVector_Insert_with_Returns [OF assms, where T = T and x = x and f = f]
    by (auto split: outcome.splits)
  have len: "length (SimpleVector_cells h v) = sv_size v"
    by (rule SimpleVector_cells_length [OF assms(1)])
  have g': "SimpleVector_get h' v' i = Some (SimpleVector_cells h' v' ! i)" if "i \<le> sv_size v" for i
    using that sz by (intro SimpleVector_get_cells [OF wf']) simp
  have g: "SimpleVector_get h v i = Some (SimpleVector_cells h v ! i)" if "i < sv_size v" for i
    using that by (rule SimpleVector_get_cells [OF assms(1)])
  have 1: "SimpleVector_get h' v' i = SimpleVector_get h v i" if "i < p" for i
    using that assms(2) len by (simp add: g g' c nth_insert_list del: append.simps)
  have 2: "SimpleVector_get h' v' p = Some x"
    using assms(2) len by (simp add: g' c nth_insert_list del: append.simps)
  have 3: "SimpleVector_get h' v' (Suc i) = SimpleVector_get h v i" if "p \<le> i \<and> i < sv_size v" for i
    using that assms(2) len by (simp add: g g' c nth_insert_list del: append.simps)
  have 4: "r = SimpleVector_index v' p"
    using r by (simp add: SimpleVector_index_def ArrayPtr_index_def SimpleVector_begin_def)
  show ?thesis
    using e wf' sz 1 2 3 4 by blast
qed

lemma SimpleVector_Erase_elements:
  assumes "SimpleVector_wf h v" "p < sv_size v"
  shows "\<exists>r h' v'. SimpleVector_Erase T h v (ptr_add (SimpleVector_begin v) p) = Some (r, h', v') \<and>
           SimpleVector_wf h' v' \<and> sv_size v' = sv_size v - 1 \<and>
           (\<forall>i<p. SimpleVector_get h' v' i = SimpleVector_get h v i) \<and>
           (\<forall>i. p \<le> i \<and> Suc i < sv_size v \<longrightarrow>
                SimpleVector_get h' v' i = SimpleVector_get h v (Suc i)) \<and>
           r = SimpleVector_index v' p \<and>
           (p = sv_size v' \<longrightarrow> r = SimpleVector_end v')"
proof -
  obtain r h' v' where e: "SimpleVector_Erase T h v (ptr_add (SimpleVector_begin v) p) = Some (r, h', v')"
    and wf': "SimpleVector_wf h' v'" and sz: "sv_size v' = sv_size v - 1"
    and c: "SimpleVector_cells h' v' =
              take p (SimpleVector_cells h v) @ drop (Suc p) (SimpleVector_cells h v)"
    and r: "r = ptr_add (SimpleVector_begin v') p"
    using SimpleVector_Erase_Some [OF assms, where T = T]
    by (auto split: option.splits)
  have len: "length (SimpleVector_cells h v) = sv_size v"
    by (rule SimpleVector_cells_length [OF assms(1)])
  have g': "SimpleVector_get h' v' i = Some (SimpleVector_cells h' v' ! i)" if "Suc i < sv_size v" for i
    using that sz by (intro SimpleVector_get_cells [OF wf']) simp
  have g: "SimpleVector_get h v i = Some (SimpleVector_cells h v ! i)" if "i < sv_size v" for i
    using that by (rule SimpleVector_get_cells [OF assms(1)])
  have 1: "SimpleVector_get h' v' i = SimpleVector_get h v i" if "i < p" for i
    using that assms(2) len by (simp add: g g' c nth_erase_list)
  have 2: "SimpleVector_get h' v' i = SimpleVector_get h v (Suc i)"
    if "p \<le> i \<and> Suc i < sv_size v" for i
    using that assms(2) len by (simp add: g g' c nth_erase_list)
  have 3: "r = SimpleVector_index v' p"
    using r by (simp add: SimpleVector_index_def ArrayPtr_index_def SimpleVector_begin_def)
  have 4: "r = SimpleVector_end v'" if "p = sv_size v'"
    using that r by (simp add: SimpleVector_end_def SimpleVector_begin_def)
  show ?thesis
    using e wf' sz 1 2 3 4 by blast
qed

section \<open>The size never exceeds the capacity\<close>

lemma Vector_sized_inv:
  "Vector_sized T h n = Returns v h' \<Longrightarrow> v_size v \<le> Capacity v"
  by (auto simp: Vector_sized_def RawMemory_sized_def Allocate_def operator_new_def Capacity_def
      Let_def split: outcome.splits if_splits)

lemma Vector_copy_inv:
  "Vector_copy T h other = Some (h', v) \<Longrightarrow> v_size v \<le> Capacity v"
  by (auto simp: Vector_copy_def RawMemory_sized_def Allocate_def operator_new_def Capacity_def
      Let_def split: option.splits if_splits)

lemma Vector_Reserve_inv:
  "Vector_Reserve T h v n = Some (h', v') \<Longrightarrow> v_size v \<le> Capacity v \<Longrightarrow>
   v_size v' \<le> Capacity v' \<and> v_size v' = v_size v \<and> n \<le> Capacity v'"
  by (auto simp: Vector_Reserve_def RawMemory_sized_def Allocate_def operator_new_def Capacity_def
      RawMemory_Swap_def Let_def split: option.splits if_splits Option.bind_splits)

lemma Vector_Resize_inv:
  "v_size v \<le> Capacity v \<Longrightarrow>
   (case Vector_Resize T h v n of
      Returns u (h', v') \<Rightarrow> v_size v' \<le> Capacity v'
    | Throws e (h', v') \<Rightarrow> v_size v' \<le> Capacity v'
    | Undefined \<Rightarrow> True)"
  by (auto simp: Vector_Resize_def Capacity_def split: option.splits if_splits outcome.splits
      dest!: Vector_Reserve_inv [unfolded Capacity_def])

lemma Vector_EmplaceBack_inv:
  "v_size v \<le> Capacity v \<Longrightarrow>
   (case Vector_EmplaceBack T h v a of
      Returns r (h', v') \<Rightarrow> v_size v' \<le> Capacity v'
    | Throws e (h', v') \<Rightarrow> v_size v' \<le> Capacity v'
    | Undefined \<Rightarrow> True)"
  by (auto simp: Vector_EmplaceBack_def RawMemory_sized_def Allocate_def operator_new_def Capacity_def
      RawMemory_Swap_def RawMemory_plus_def Let_def
      split: option.splits if_splits Option.bind_splits)

lemma Vector_PopBack_inv:
  "Vector_PopBack h v = Some (h', v') \<Longrightarrow> v_size v' \<le> Capacity v'"
  by (auto simp: Vector_PopBack_def RawMemory_plus_def Capacity_def Let_def
      split: option.splits if_splits Option.bind_splits)

lemma Vector_Emplace_inv:
  assumes "v_size v \<le> Capacity v"
  shows "case Vector_Emplace T h v pos a of
      Returns r (h', v') \<Rightarrow> v_size v' \<le> Capacity v'
    | Throws e (h', v') \<Rightarrow> v_size v' \<le> Capacity v'
    | Undefined \<Rightarrow> True"
proof (cases "pos = Vector_cend v")
  case True
  then show ?thesis
    using Vector_EmplaceBack_inv [OF assms, of T h a] by (simp add: Vector_Emplace_def)
next
  case False
  then show ?thesis using assms
    by (auto simp: Vector_Emplace_def RawMemory_sized_def Allocate_def operator_new_def Capacity_def
      RawMemory_Swap_def RawMemory_plus_def Let_def
      split: option.splits if_splits Option.bind_splits)
qed

lemma Vector_Erase_inv:
  "Vector_Erase T h v pos = Some (r, h', v') \<Longrightarrow> v_size v' \<le> Capacity v'"
  by (auto simp: Vector_Erase_def split: if_splits Option.bind_splits dest: Vector_PopBack_inv)

lemma Vector_assign_inv:
  assumes "Vector_assign T h this rhs = Some (h', v')"
  shows "v_size v' \<le> Capacity v'"
proof (cases "v_size rhs > rm_capacity (v_data this)")
  case True
  with assms obtain h1 c where c: "Vector_copy T h rhs = Some (h1, c)"
    and v': "v' = fst (Vector_Swap this c)"
    by (auto simp: Vector_assign_def Let_def split: Option.bind_splits prod.splits)
  show ?thesis
    using Vector_copy_inv [OF c] v'
    by (simp add: Vector_Swap_def RawMemory_Swap_def Capacity_def)
next
  case False
  with assms show ?thesis
    by (auto simp: Vector_assign_def Capacity_def split: Option.bind_splits)
qed

lemma inv_update:
  "\<forall>v\<in>set vs. P v \<Longrightarrow> P x \<Longrightarrow> \<forall>v\<in>set (vs[i := x]). P v"
  using set_update_subset_insert [of vs i x] by auto

lemma Vector_step_inv:
  assumes "Vector_step T (h, vs) op = Some (h', vs')" "\<forall>v\<in>set vs. v_size v \<le> Capacity v"
  shows "\<forall>v\<in>set vs'. v_size v \<le> Capacity v"
proof (cases op)
  case New_Vector
  then show ?thesis using assms
    by (auto simp: Vector_default_def RawMemory_default_def Capacity_def)
next
  case (New_Vector_sized n)
  then show ?thesis using assms
    by (auto split: outcome.splits dest: Vector_sized_inv)
next
  case (New_Vector_copy j)
  then show ?thesis using assms
    by (auto split: option.splits if_splits dest: Vector_copy_inv)
next
  case (New_Vector_move j)
  then show ?thesis using assms
    by (auto simp: Vector_move_def Vector_Swap_def RawMemory_Swap_def Vector_default_def
        RawMemory_default_def Capacity_def split: if_splits dest!: set_update_subset_insert [THEN subsetD])
next
  case (Do_Reserve i n)
  then show ?thesis using assms
    by (auto simp: put_option_def split: option.splits if_splits
        dest!: set_update_subset_insert [THEN subsetD] dest: Vector_Reserve_inv)
next
  case (Do_Resize i n)
  then show ?thesis using assms Vector_Resize_inv [of "vs ! i" T h n]
    by (auto simp: put_outcome_def split: outcome.splits if_splits
        dest!: set_update_subset_insert [THEN subsetD])
next
  case (Do_EmplaceBack i a)
  then show ?thesis using assms Vector_EmplaceBack_inv [of "vs ! i" T h a]
    by (auto simp: put_outcome_def split: outcome.splits if_splits
        dest!: set_update_subset_insert [THEN subsetD])
next
  case (Do_PushBack i a)
  then show ?thesis using assms Vector_EmplaceBack_inv [of "vs ! i" T h a]
    by (auto simp: put_outcome_def Vector_PushBack_def split: outcome.splits if_splits
        dest!: set_update_subset_insert [THEN subsetD])
next
  case (Do_PopBack i)
  then show ?thesis using assms
    by (auto simp: put_option_def split: option.splits if_splits
        dest!: set_update_subset_insert [THEN subsetD] dest: Vector_PopBack_inv)
next
  case (Do_Emplace i pos a)
  then show ?thesis using assms Vector_Emplace_inv [of "vs ! i" T h pos a]
    by (auto simp: put_outcome_def split: outcome.splits if_splits
        dest!: set_update_subset_insert [THEN subsetD])
next
  case (Do_Insert i pos a)
  then show ?thesis using assms Vector_Emplace_inv [of "vs ! i" T h pos a]
    by (auto simp: put_outcome_def Vector_Insert_def split: outcome.splits if_splits
        dest!: set_update_subset_insert [THEN subsetD])
next
  case (Do_Erase i pos)
  then show ?thesis using assms
    by (auto simp: put_option_def split: option.splits if_splits
        dest!: set_update_subset_insert [THEN subsetD] dest: Vector_Erase_inv)
next
  case (Do_Swap i j)
  then show ?thesis using assms
    by (auto simp: Vector_Swap_def RawMemory_Swap_def Capacity_def split: if_splits
        dest!: set_update_subset_insert [THEN subsetD])
next
  case (Do_assign i j)
  then show ?thesis using assms
    by (auto simp: put_option_def split: option.splits if_splits
        dest!: set_update_subset_insert [THEN subsetD] dest: Vector_assign_inv)
next
  case (Do_move_assign i j)
  then show ?thesis using assms
    by (auto simp: Vector_move_assign_def RawMemory_move_assign_def Capacity_def split: if_splits
        dest!: set_update_subset_insert [THEN subsetD])
next
  case (Do_set i k x)
  then show ?thesis using assms
    by (auto split: option.splits if_splits)
qed

lemma Vector_run_inv:
  "Vector_run T s ops = Some (h', vs') \<Longrightarrow> \<forall>v\<in>set (snd s). v_size v \<le> Capacity v \<Longrightarrow>
   \<forall>v\<in>set vs'. v_size v \<le> Capacity v"
proof (induction ops arbitrary: s)
  case Nil
  then show ?case by auto
next
  case (Cons op ops)
  obtain h vs where s: "s = (h, vs)" by (cases s)
  from Cons.prems(1) obtain h1 vs1 where st: "Vector_step T (h, vs) op = Some (h1, vs1)"
    and r: "Vector_run T (h1, vs1) ops = Some (h', vs')"
    by (auto simp: s split: option.splits)
  have "\<forall>v\<in>set vs1. v_size v \<le> Capacity v"
    using Vector_step_inv [OF st] Cons.prems(2) s by simp
  then show ?case
    using Cons.IH [OF r] by simp
qed

lemma SimpleVector_filled_inv:
  "SimpleVector_filled T h n x = Some (h', v) \<Longrightarrow> sv_size v \<le> sv_capacity v"
  by (auto simp: SimpleVector_filled_def Let_def split: option.splits prod.splits)

lemma SimpleVector_sized_inv:
  "SimpleVector_sized T h n = Returns v h' \<Longrightarrow> sv_size v \<le> sv_capacity v"
  by (auto simp: SimpleVector_sized_def Let_def split: option.splits prod.splits
      dest: SimpleVector_filled_inv)

lemma SimpleVector_from_list_inv:
  "SimpleVector_from_list T h xs = Some (h', v) \<Longrightarrow> sv_size v \<le> sv_capacity v"
  by (auto simp: SimpleVector_from_list_def Let_def split: option.splits prod.splits)

lemma SimpleVector_reserved_inv:
  "SimpleVector_reserved T h n = (h', v) \<Longrightarrow> sv_size v \<le> sv_capacity v"
  by (auto simp: SimpleVector_reserved_def Let_def split: prod.splits)

lemma SimpleVector_copy_inv:
  "SimpleVector_copy T h other = Some (h', v) \<Longrightarrow> sv_size other \<le> sv_capacity other \<Longrightarrow>
   sv_size v \<le> sv_capacity v"
  by (auto simp: SimpleVector_copy_def GetSize_def GetCapacity_def Let_def
      split: option.splits prod.splits)

lemma SimpleVector_At_inv:
  "case SimpleVector_At h v i of
     Returns r (h', v') \<Rightarrow> v' = v
   | Throws e (h', v') \<Rightarrow> v' = v
   | Undefined \<Rightarrow> True"
  by (simp add: SimpleVector_At_def)

lemma SimpleVector_Resize_inv:
  "sv_size v \<le> sv_capacity v \<Longrightarrow>
   (case SimpleVector_Resize T h v n of
      Returns u (h', v') \<Rightarrow> sv_size v' \<le> sv_capacity v'
    | Throws e (h', v') \<Rightarrow> sv_size v' \<le> sv_capacity v'
    | Undefined \<Rightarrow> True)"
  by (auto simp: SimpleVector_Resize_def Let_def split: option.splits prod.splits)

lemma SimpleVector_Reserve_inv:
  "SimpleVector_Reserve T h v n = Some (h', v') \<Longrightarrow> sv_size v \<le> sv_capacity v \<Longrightarrow>
   sv_size v' \<le> sv_capacity v'"
  by (auto simp: SimpleVector_Reserve_def split: if_splits Option.bind_splits)

lemma SimpleVector_PushBack_with_inv:
  "sv_size v \<le> sv_capacity v \<Longrightarrow>
   (case SimpleVector_PushBack_with f T h v a of
      Returns u (h', v') \<Rightarrow> sv_size v' \<le> sv_capacity v'
    | Throws e (h', v') \<Rightarrow> sv_size v' \<le> sv_capacity v'
    | Undefined \<Rightarrow> True)"
  by (auto simp: SimpleVector_PushBack_with_def Let_def split: option.splits prod.splits)

lemma SimpleVector_Insert_with_inv:
  "sv_size v \<le> sv_capacity v \<Longrightarrow>
   (case SimpleVector_Insert_with f T h v pos a of
      Returns u (h', v') \<Rightarrow> sv_size v' \<le> sv_capacity v'
    | Throws e (h', v') \<Rightarrow> sv_size v' \<le> sv_capacity v'
    | Undefined \<Rightarrow> True)"
  by (auto simp: SimpleVector_Insert_with_def Let_def
      split: option.splits prod.splits Option.bind_splits)

lemma SimpleVector_PopBack_inv:
  "sv_size v \<le> sv_capacity v \<Longrightarrow>
   sv_size (SimpleVector_PopBack v) \<le> sv_capacity (SimpleVector_PopBack v)"
  by (auto simp: SimpleVector_PopBack_def IsEmpty_def GetSize_def size_t_sub_def)

lemma SimpleVector_Erase_inv:
  "SimpleVector_Erase T h v pos = Some (r, h', v') \<Longrightarrow> sv_size v \<le> sv_capacity v \<Longrightarrow>
   sv_size v' \<le> sv_capacity v'"
  by (auto simp: SimpleVector_Erase_def std_move_def std_distance_def ptr_add_def
      SimpleVector_begin_def SimpleVector_cbegin_def SimpleVector_end_def size_t_sub_def
      split: if_splits Option.bind_splits option.splits)

lemma SimpleVector_assign_inv:
  "SimpleVector_assign T h this rhs = Some (h', v') \<Longrightarrow> sv_size rhs \<le> sv_capacity rhs \<Longrightarrow>
   sv_size v' \<le> sv_capacity v'"
  by (auto simp: SimpleVector_assign_def SimpleVector_swap_def
      split: Option.bind_splits dest: SimpleVector_copy_inv)

lemma SimpleVector_step_inv:
  assumes "SimpleVector_step T (h, vs) op = Some (h', vs')" "\<forall>v\<in>set vs. sv_size v \<le> sv_capacity v"
  shows "\<forall>v\<in>set vs'. sv_size v \<le> sv_capacity v"
proof -
  have nth: "sv_size (vs ! j) \<le> sv_capacity (vs ! j)" if "j < length vs" for j
    using assms(2) that by simp
  show ?thesis
proof (cases op)
  case New_SimpleVector
  then show ?thesis using assms by (auto simp: SimpleVector_default_def)
next
  case (New_SimpleVector_sized n)
  then show ?thesis using assms by (auto split: outcome.splits dest: SimpleVector_sized_inv)
next
  case (New_SimpleVector_filled n x)
  then show ?thesis using assms by (auto split: option.splits dest: SimpleVector_filled_inv)
next
  case (New_SimpleVector_from_list xs)
  then show ?thesis using assms by (auto split: option.splits dest: SimpleVector_from_list_inv)
next
  case (New_SimpleVector_reserved n)
  then show ?thesis using assms by (auto split: prod.splits dest: SimpleVector_reserved_inv)
next
  case (New_SimpleVector_copy j)
  then show ?thesis
    using assms nth [of j] SimpleVector_copy_inv [where other = "vs ! j" and T = T and h = h]
    by (auto split: option.splits if_splits)
next
  case (New_SimpleVector_move j)
  then show ?thesis using assms
    by (auto simp: SimpleVector_move_def SimpleVector_swap_def SimpleVector_default_def
        split: if_splits dest!: set_update_subset_insert [THEN subsetD])
next
  case (Sv_At i k)
  then show ?thesis using assms SimpleVector_At_inv [where h = h and v = "vs ! i" and i = k]
    by (auto simp: put_outcome_def split: outcome.splits if_splits
        dest!: set_update_subset_insert [THEN subsetD])
next
  case (Sv_Clear i)
  then show ?thesis using assms
    by (auto simp: Clear_def split: if_splits dest!: set_update_subset_insert [THEN subsetD])
next
  case (Sv_Resize i n)
  then show ?thesis using assms SimpleVector_Resize_inv [where v = "vs ! i" and T = T and h = h and n = n]
    by (auto simp: put_outcome_def split: outcome.splits if_splits
        dest!: set_update_subset_insert [THEN subsetD])
next
  case (Sv_Reserve i n)
  then show ?thesis
    using assms nth [of i]
      SimpleVector_Reserve_inv [where v = "vs ! i" and T = T and h = h and n = n]
    by (auto simp: put_option_def split: option.splits if_splits
        dest!: set_update_subset_insert [THEN subsetD])
next
  case (Sv_PushBack i a)
  then show ?thesis
    using assms SimpleVector_PushBack_with_inv [where v = "vs ! i" and f = "\<lambda>x. x" and T = T
        and h = h and a = a]
    by (auto simp: put_outcome_def SimpleVector_PushBack_def split: outcome.splits if_splits
        dest!: set_update_subset_insert [THEN subsetD])
next
  case (Sv_PushBack_rvalue i a)
  then show ?thesis
    using assms SimpleVector_PushBack_with_inv [where v = "vs ! i" and f = "moved_from T" and T = T
        and h = h and a = a]
    by (auto simp: put_outcome_def SimpleVector_PushBack_rvalue_def split: outcome.splits if_splits
        dest!: set_update_subset_insert [THEN subsetD])
next
  case (Sv_Insert i pos a)
  then show ?thesis using assms SimpleVector_Insert_with_inv [where v = "vs ! i" and f = "\<lambda>x. x" and T = T and h = h and pos = pos and a = a]
    by (auto simp: put_outcome_def SimpleVector_Insert_def split: outcome.splits if_splits
        dest!: set_update_subset_insert [THEN subsetD])
next
  case (Sv_Insert_rvalue i pos a)
  then show ?thesis using assms SimpleVector_Insert_with_inv [where v = "vs ! i" and f = "moved_from T" and T = T and h = h and pos = pos and a = a]
    by (auto simp: put_outcome_def SimpleVector_Insert_rvalue_def split: outcome.splits if_splits
        dest!: set_update_subset_insert [THEN subsetD])
next
  case (Sv_PopBack i)
  then show ?thesis using assms SimpleVector_PopBack_inv [of "vs ! i"]
    by (auto split: if_splits dest!: set_update_subset_insert [THEN subsetD])
next
  case (Sv_Erase i pos)
  then show ?thesis
    using assms nth [of i]
      SimpleVector_Erase_inv [where v = "vs ! i" and T = T and h = h and pos = pos]
    by (auto simp: put_option_def split: option.splits if_splits
        dest!: set_update_subset_insert [THEN subsetD])
next
  case (Sv_swap i j)
  then show ?thesis using assms
    by (auto simp: SimpleVector_swap_def split: if_splits
        dest!: set_update_subset_insert [THEN subsetD])
next
  case (Sv_assign i j)
  then show ?thesis
    using assms nth [of j]
      SimpleVector_assign_inv [where rhs = "vs ! j" and this = "vs ! i" and T = T and h = h]
    by (auto simp: put_option_def split: option.splits if_splits
        dest!: set_update_subset_insert [THEN subsetD])
next
  case (Sv_move_assign i j)
  then show ?thesis using assms
    by (auto simp: SimpleVector_move_assign_def SimpleVector_move_def SimpleVector_swap_def
        SimpleVector_default_def split: if_splits prod.splits
        dest!: set_update_subset_insert [THEN subsetD])
next
  case (Sv_set i k x)
  then show ?thesis using assms
    by (auto split: option.splits if_splits)
qed
qed

lemma SimpleVector_run_inv:
  "SimpleVector_run T s ops = Some (h', vs') \<Longrightarrow> \<forall>v\<in>set (snd s). sv_size v \<le> sv_capacity v \<Longrightarrow>
   \<forall>v\<in>set vs'. sv_size v \<le> sv_capacity v"
proof (induction ops arbitrary: s)
  case Nil
  then show ?case by auto
next
  case (Cons op ops)
  obtain h vs where s: "s = (h, vs)" by (cases s)
  from Cons.prems(1) obtain h1 vs1 where st: "SimpleVector_step T (h, vs) op = Some (h1, vs1)"
    and r: "SimpleVector_run T (h1, vs1) ops = Some (h', vs')"
    by (auto simp: s split: option.splits)
  have "\<forall>v\<in>set vs1. sv_size v \<le> sv_capacity v"
    using SimpleVector_step_inv [OF st] Cons.prems(2) s by simp
  then show ?case
    using Cons.IH [OF r] by simp
qed

lemma Vector_get_same_block:
  "block h' (fst (rm_buffer (v_data v))) = block h (fst (rm_buffer (v_data v))) \<Longrightarrow>
   Vector_get h' v i = Vector_get h v i"
  by (simp add: Vector_get_def Vector_index_def RawMemory_index_def deref_def ptr_add_def
      split: option.splits)

lemma SimpleVector_get_same_block:
  "block h' (fst (sv_items v)) = block h (fst (sv_items v)) \<Longrightarrow>
   SimpleVector_get h' v i = SimpleVector_get h v i"
  by (simp add: SimpleVector_get_def SimpleVector_At_def ArrayPtr_index_def deref_def ptr_add_def
      split: option.splits)

lemma Vector_buffer_le:
  "Vector_wf h v \<Longrightarrow> fst (rm_buffer (v_data v)) \<le> length h"
  by (erule Vector_wf_cases) simp_all

lemma SimpleVector_items_le:
  "SimpleVector_wf h v \<Longrightarrow> fst (sv_items v) \<le> length h"
  by (erule SimpleVector_wf_cases) simp_all

lemma SimpleVector_PushBack_with_Throws:
  assumes "SimpleVector_wf h v" "sv_capacity v = sv_size v"
  shows "case SimpleVector_PushBack_with f T h v None of
           Returns r s \<Rightarrow> False
         | Throws e (h', v') \<Rightarrow>
             e = element_exception \<and> v' = v \<and> SimpleVector_wf h' v \<and>
             SimpleVector_cells h' v = map (moved_from T) (SimpleVector_cells h v)
         | Undefined \<Rightarrow> False"
  using assms(1)
proof (cases rule: SimpleVector_wf_cases)
  case null
  then show ?thesis using assms
    by (simp add: SimpleVector_PushBack_with_def ReallocateCopy_def SimpleVector_defs heap_simps
        SimpleVector_wf_def SimpleVector_cells_def)
next
  case (blk a cs)
  then show ?thesis using assms
    by (simp add: SimpleVector_PushBack_with_def ReallocateCopy_def SimpleVector_defs heap_simps
        SimpleVector_wf_def SimpleVector_cells_def)
qed

lemma SimpleVector_Insert_with_Throws:
  assumes "SimpleVector_wf h v" "sv_capacity v = sv_size v" "p \<le> sv_size v"
  shows "case SimpleVector_Insert_with f T h v (ptr_add (SimpleVector_begin v) p) None of
           Returns r s \<Rightarrow> False
         | Throws e (h', v') \<Rightarrow>
             e = element_exception \<and> v' = v \<and> SimpleVector_wf h' v \<and>
             SimpleVector_cells h' v = map f (SimpleVector_cells h v)
         | Undefined \<Rightarrow> False"
  using assms(1)
proof (cases rule: SimpleVector_wf_cases)
  case null
  then show ?thesis using assms
    by (simp add: SimpleVector_Insert_with_def SimpleVector_defs heap_simps
        SimpleVector_wf_def SimpleVector_cells_def)
next
  case (blk a cs)
  have "map f (take p cs) @ map f (drop p cs) = map f cs"
    by (simp flip: map_append)
  then show ?thesis using blk assms
    by (simp add: SimpleVector_Insert_with_def SimpleVector_defs heap_simps
        SimpleVector_wf_def SimpleVector_cells_def Suc_diff_le)
qed

lemma SimpleVector_Resize_shrink:
  "n < sv_size v \<Longrightarrow> sv_size v \<le> sv_capacity v \<Longrightarrow>
   SimpleVector_Resize T h v n = Returns () (h, v\<lparr>sv_size := n\<rparr>)"
  by (simp add: SimpleVector_Resize_def)

lemma SimpleVector_get_shrink:
  "i < n \<Longrightarrow> n \<le> sv_size v \<Longrightarrow> SimpleVector_get h (v\<lparr>sv_size := n\<rparr>) i = SimpleVector_get h v i"
  by (simp add: SimpleVector_get_def SimpleVector_At_def)

lemma valid_reference_Element:
  "valid_reference h (Element (b, j)) = (\<exists>bs. block h b = Some bs \<and> j < length bs)"
  by (auto simp: valid_reference_def deref_pair split: option.splits)

lemma SimpleVector_PushBack_with_grows:
  assumes "SimpleVector_wf h v" "sv_capacity v = sv_size v" "valid_reference h r"
  shows "case SimpleVector_PushBack_with f T h v (Some r) of
           Returns u (h', v') \<Rightarrow>
             SimpleVector_wf h' v' \<and> sv_size v' = sv_size v + 1 \<and>
             sv_capacity v' = max 1 (2 * sv_capacity v)
         | Throws e s \<Rightarrow> False
         | Undefined \<Rightarrow> False"
proof (cases r)
  case (Object x)
  then show ?thesis
    using SimpleVector_PushBack_with_Returns [OF assms(1), where f = f and T = T and x = x] assms(2)
    by (auto split: outcome.splits)
next
  case (Element p)
  obtain b j where p: "p = (b, j)" by (cases p)
  obtain bs where bs: "block h b = Some bs" "j < length bs"
    using assms(3) Element p by (auto simp: valid_reference_Element)
  have b: "0 < b" "b \<le> length h"
    using block_Some_D [OF bs(1)] by simp_all
  from assms(1) show ?thesis
  proof (cases rule: SimpleVector_wf_cases)
    case null
    then show ?thesis using assms(2) Element p bs b
      by (simp add: SimpleVector_PushBack_with_def ReallocateCopy_def SimpleVector_defs heap_simps
          assign_from_def SimpleVector_wf_def)
  next
    case (blk a cs)
    show ?thesis
    proof (cases "b = a")
      case True
      then show ?thesis using blk assms(2) Element p bs b
        by (simp add: SimpleVector_PushBack_with_def ReallocateCopy_def SimpleVector_defs heap_simps
            assign_from_def SimpleVector_wf_def max_def)
    next
      case False
      then show ?thesis using blk assms(2) Element p bs b
        by (simp add: SimpleVector_PushBack_with_def ReallocateCopy_def SimpleVector_defs heap_simps
            assign_from_def SimpleVector_wf_def max_def)
    qed
  qed
qed
section \<open>The claims\<close>

text \<open>
  C1 says that after any sequence of \<open>N\<close> appends to an empty vector the size is \<open>N\<close>
  and element \<open>i\<close> reads back as the \<open>i\<close>-th appended value. \<^verbatim>\<open>Vector\<close> does this
  (\<open>Vector_appends_Some\<close>), and so does \<^verbatim>\<open>SimpleVector\<close> as long as no appended argument
  is an element of the vector itself (\<open>SimpleVector_appends_Some\<close>). The code of
  \<^verbatim>\<open>SimpleVector::PushBack\<close> breaks the claim when the argument refers to an element of
  the vector and the append grows the array: \<^verbatim>\<open>ReallocateCopy\<close> moves the elements out of
  the old array before \<^verbatim>\<open>item\<close> is read. Evaluated for strings: after
  \<^verbatim>\<open>v.PushBack("ab"); v.PushBack(v[0]);\<close> the size is 2 and element 0 is \<^verbatim>\<open>"ab"\<close>, but
  element 1, the second appended value, reads back as the empty string and not as
  \<^verbatim>\<open>"ab"\<close>, the value \<^verbatim>\<open>v[0]\<close> had when it was appended.
\<close>

theorem C1_PushBack_of_own_element:
  "(case SimpleVector_PushBack string_elem [] SimpleVector_default (Some (Object ''ab'')) of
      Returns u (h1, v1) \<Rightarrow>
        (case SimpleVector_PushBack string_elem h1 v1 (Some (Element (SimpleVector_index v1 0))) of
           Returns u (h2, v2) \<Rightarrow>
             Some (SimpleVector_get h1 v1 0, GetSize v2, SimpleVector_get h2 v2 0,
                   SimpleVector_get h2 v2 1)
         | Throws e s \<Rightarrow> None
         | Undefined \<Rightarrow> None)
    | Throws e s \<Rightarrow> None
    | Undefined \<Rightarrow> None)
   = Some (Some ''ab'', 2, Some ''ab'', Some '''')"
  by code_simp

text \<open>
  C2. An append to a well-formed vector whose size equals its capacity \<open>C\<close> returns and
  leaves the capacity at exactly \<open>max 1 (2 * C)\<close>; and no append, whatever its argument
  and its outcome, lowers the capacity. This holds for \<^verbatim>\<open>Vector::EmplaceBack\<close>, for
  \<^verbatim>\<open>Vector::PushBack\<close> (both overloads forward to \<^verbatim>\<open>EmplaceBack\<close>) and for the two overloads
  of \<^verbatim>\<open>SimpleVector::PushBack\<close>, whose argument may refer to any object, an element of the
  vector itself included. For \<^verbatim>\<open>Vector\<close> the new block of \<open>max 1 (2 * C)\<close> elements has to
  fit the byte count of \<^verbatim>\<open>size_t\<close> that \<^verbatim>\<open>Allocate\<close> computes, as it does for every vector
  that fits into memory.
\<close>

theorem C2_append_growth:
  "(Vector_wf h v \<and> Size v = Capacity v \<and> fits_size_t T (max 1 (2 * Capacity v)) \<longrightarrow>
      (\<exists>r h' v'. Vector_EmplaceBack T h v (Some x) = Returns r (h', v') \<and>
                 Capacity v' = max 1 (2 * Capacity v)) \<and>
      (\<exists>h' v'. Vector_PushBack T h v (Some x) = Returns () (h', v') \<and>
               Capacity v' = max 1 (2 * Capacity v))) \<and>
   (case Vector_EmplaceBack T h v a of
      Returns r (h', v') \<Rightarrow> Capacity v \<le> Capacity v'
    | Throws e (h', v') \<Rightarrow> Capacity v \<le> Capacity v'
    | Undefined \<Rightarrow> True) \<and>
   (case Vector_PushBack T h v a of
      Returns r (h', v') \<Rightarrow> Capacity v \<le> Capacity v'
    | Throws e (h', v') \<Rightarrow> Capacity v \<le> Capacity v'
    | Undefined \<Rightarrow> True) \<and>
   (SimpleVector_wf g w \<and> GetSize w = GetCapacity w \<and> valid_reference g item \<longrightarrow>
      (\<exists>g' w'. SimpleVector_PushBack T g w (Some item) = Returns () (g', w') \<and>
               GetCapacity w' = max 1 (2 * GetCapacity w)) \<and>
      (\<exists>g' w'. SimpleVector_PushBack_rvalue T g w (Some item) = Returns () (g', w') \<and>
               GetCapacity w' = max 1 (2 * GetCapacity w))) \<and>
   (case SimpleVector_PushBack T g w b of
      Returns r (g', w') \<Rightarrow> GetCapacity w \<le> GetCapacity w'
    | Throws e (g', w') \<Rightarrow> GetCapacity w \<le> GetCapacity w'
    | Undefined \<Rightarrow> True) \<and>
   (case SimpleVector_PushBack_rvalue T g w b of
      Returns r (g', w') \<Rightarrow> GetCapacity w \<le> GetCapacity w'
    | Throws e (g', w') \<Rightarrow> GetCapacity w \<le> GetCapacity w'
    | Undefined \<Rightarrow> True)"
proof -
  have 1: "Vector_wf h v \<and> Size v = Capacity v \<and> fits_size_t T (max 1 (2 * Capacity v)) \<longrightarrow>
      (\<exists>r h' v'. Vector_EmplaceBack T h v (Some x) = Returns r (h', v') \<and>
                 Capacity v' = max 1 (2 * Capacity v)) \<and>
      (\<exists>h' v'. Vector_PushBack T h v (Some x) = Returns () (h', v') \<and>
               Capacity v' = max 1 (2 * Capacity v))"
  proof
    assume a: "Vector_wf h v \<and> Size v = Capacity v \<and> fits_size_t T (max 1 (2 * Capacity v))"
    have "fits_size_t T (if v_size v = 0 then 1 else v_size v * 2)"
      using a by (auto simp: Size_def max_def mult.commute)
    then show "(\<exists>r h' v'. Vector_EmplaceBack T h v (Some x) = Returns r (h', v') \<and>
                 Capacity v' = max 1 (2 * Capacity v)) \<and>
      (\<exists>h' v'. Vector_PushBack T h v (Some x) = Returns () (h', v') \<and>
               Capacity v' = max 1 (2 * Capacity v))"
      using a Vector_EmplaceBack_Returns [where h = h and v = v and T = T and x = x]
      by (auto simp: Size_def Vector_PushBack_def split: outcome.splits)
  qed
  have 2: "case Vector_EmplaceBack T h v a of
      Returns r (h', v') \<Rightarrow> Capacity v \<le> Capacity v'
    | Throws e (h', v') \<Rightarrow> Capacity v \<le> Capacity v'
    | Undefined \<Rightarrow> True"
    by (rule Vector_EmplaceBack_capacity)
  have 3: "case Vector_PushBack T h v a of
      Returns r (h', v') \<Rightarrow> Capacity v \<le> Capacity v'
    | Throws e (h', v') \<Rightarrow> Capacity v \<le> Capacity v'
    | Undefined \<Rightarrow> True"
    using 2 by (auto simp: Vector_PushBack_def split: outcome.splits)
  have 4: "SimpleVector_wf g w \<and> GetSize w = GetCapacity w \<and> valid_reference g item \<longrightarrow>
      (\<exists>g' w'. SimpleVector_PushBack T g w (Some item) = Returns () (g', w') \<and>
               GetCapacity w' = max 1 (2 * GetCapacity w)) \<and>
      (\<exists>g' w'. SimpleVector_PushBack_rvalue T g w (Some item) = Returns () (g', w') \<and>
               GetCapacity w' = max 1 (2 * GetCapacity w))"
    using
      SimpleVector_PushBack_with_grows [where h = g and v = w and T = T and r = item
        and f = "\<lambda>x. x"]
      SimpleVector_PushBack_with_grows [where h = g and v = w and T = T and r = item
        and f = "moved_from T"]
    by (auto simp: GetSize_def GetCapacity_def SimpleVector_PushBack_def
        SimpleVector_PushBack_rvalue_def split: outcome.splits)
  have 5: "case SimpleVector_PushBack T g w b of
      Returns r (g', w') \<Rightarrow> GetCapacity w \<le> GetCapacity w'
    | Throws e (g', w') \<Rightarrow> GetCapacity w \<le> GetCapacity w'
    | Undefined \<Rightarrow> True"
    unfolding SimpleVector_PushBack_def by (rule SimpleVector_PushBack_with_capacity)
  have 6: "case SimpleVector_PushBack_rvalue T g w b of
      Returns r (g', w') \<Rightarrow> GetCapacity w \<le> GetCapacity w'
    | Throws e (g', w') \<Rightarrow> GetCapacity w \<le> GetCapacity w'
    | Undefined \<Rightarrow> True"
    unfolding SimpleVector_PushBack_rvalue_def by (rule SimpleVector_PushBack_with_capacity)
  show ?thesis
    by (intro conjI) (rule 1 2 3 4 5 6)+
qed

theorem C2_append_growth_witness:
  "Vector_wf [Some [Obj (5 :: int), Obj 6]] \<lparr>v_data = \<lparr>rm_buffer = (1, 0), rm_capacity = 2\<rparr>, v_size = 2\<rparr> \<and>
   Size \<lparr>v_data = \<lparr>rm_buffer = (1, 0), rm_capacity = 2\<rparr>, v_size = 2\<rparr> = 2 \<and>
   fits_size_t int_elem (max 1 (2 * 2)) \<and>
   (\<exists>r h' v'. Vector_EmplaceBack int_elem [Some [Obj 5, Obj 6]]
                 \<lparr>v_data = \<lparr>rm_buffer = (1, 0), rm_capacity = 2\<rparr>, v_size = 2\<rparr> (Some 7)
                 = Returns r (h', v') \<and> Capacity v' = 4) \<and>
   (\<exists>h' v'. Vector_PushBack int_elem [Some [Obj 5, Obj 6]]
                 \<lparr>v_data = \<lparr>rm_buffer = (1, 0), rm_capacity = 2\<rparr>, v_size = 2\<rparr> (Some 7)
                 = Returns () (h', v') \<and> Capacity v' = 4) \<and>
   SimpleVector_wf [Some [5 :: int, 6]] \<lparr>sv_items = (1, 0), sv_size = 2, sv_capacity = 2\<rparr> \<and>
   valid_reference [Some [5, 6 :: int]] (Element (1, 0)) \<and>
   (\<exists>g' w'. SimpleVector_PushBack int_elem [Some [5, 6]]
                 \<lparr>sv_items = (1, 0), sv_size = 2, sv_capacity = 2\<rparr> (Some (Element (1, 0)))
                 = Returns () (g', w') \<and> GetCapacity w' = 4) \<and>
   (\<exists>g' w'. SimpleVector_PushBack_rvalue int_elem [Some [5, 6]]
                 \<lparr>sv_items = (1, 0), sv_size = 2, sv_capacity = 2\<rparr> (Some (Element (1, 0)))
                 = Returns () (g', w') \<and> GetCapacity w' = 4)"
  using C2_append_growth [where h = "[Some [Obj 5, Obj 6]]"
      and v = "\<lparr>v_data = \<lparr>rm_buffer = (1, 0), rm_capacity = 2\<rparr>, v_size = 2\<rparr>"
      and T = int_elem and x = 7 and a = "Some 7" and b = "Some (Element (1, 0))"
      and item = "Element (1, 0)"
      and g = "[Some [5, 6]]" and w = "\<lparr>sv_items = (1, 0), sv_size = 2, sv_capacity = 2\<rparr>"]
  by (simp add: Vector_wf_def SimpleVector_wf_def Capacity_def Size_def GetSize_def GetCapacity_def
      block_def fits_size_t_def int_elem_def valid_reference_def deref_def)
text \<open>
  C3 says that when the construction of the new element fails during an append or an
  insert that grows the storage, the vector keeps its size, its capacity and all its
  elements, because nothing is relocated before that construction has succeeded.
  \<^verbatim>\<open>Vector::EmplaceBack\<close> and \<^verbatim>\<open>Vector::Emplace\<close> do this (\<open>Vector_EmplaceBack_Throws\<close>,
  \<open>Vector_Emplace_Throws\<close>), and both overloads of \<^verbatim>\<open>SimpleVector::Insert\<close> leave an
  array whose elements are the old ones, copied or moved from
  (\<open>SimpleVector_Insert_with_Throws\<close>). The code of \<^verbatim>\<open>SimpleVector::PushBack\<close> breaks the
  claim: \<^verbatim>\<open>ReallocateCopy\<close> has moved the elements into the new array when the new element
  is assigned, and the new array is released when the assignment throws. Evaluated for
  strings: a vector whose size and capacity are 1 and whose element is \<^verbatim>\<open>"ab"\<close> keeps its
  size and capacity when the assignment of the appended element throws, but its element
  is the empty string afterwards.
\<close>

theorem C3_PushBack_failed_assignment:
  "(case SimpleVector_PushBack string_elem [] SimpleVector_default (Some (Object ''ab'')) of
      Returns u (h, v) \<Rightarrow>
        (case SimpleVector_PushBack string_elem h v None of
           Returns u s \<Rightarrow> None
         | Throws e (h', v') \<Rightarrow>
             Some (GetSize v, GetCapacity v, SimpleVector_get h v 0, e,
                   GetSize v', GetCapacity v', SimpleVector_get h' v' 0)
         | Undefined \<Rightarrow> None)
    | Throws e s \<Rightarrow> None
    | Undefined \<Rightarrow> None)
   = Some (1, 1, Some ''ab'', element_exception, 1, 1, Some '''')"
  by code_simp

text \<open>
  C4 says that an insert at position \<open>p\<close> increases the size by one, leaves the elements
  before \<open>p\<close> as they are, places the inserted value at \<open>p\<close>, moves the elements formerly
  at \<open>[p, size)\<close> to \<open>[p + 1, size + 1)\<close> and returns the position of the inserted
  element. \<^verbatim>\<open>Vector::Emplace\<close> does this (\<open>Vector_Emplace_elements\<close>), and so do both
  overloads of \<^verbatim>\<open>SimpleVector::Insert\<close> as long as the argument is not an element of the
  vector itself (\<open>SimpleVector_Insert_with_elements\<close>). The code of
  \<^verbatim>\<open>SimpleVector::Insert\<close> breaks the claim when the argument refers to an element at or
  after \<open>p\<close> and the capacity suffices: the elements are shifted before the argument is
  read. Evaluated for integers: the vector \<^verbatim>\<open>[1, 2, 3]\<close> of capacity 4, after
  \<^verbatim>\<open>v.Insert(v.cbegin(), v[2])\<close>, is \<^verbatim>\<open>[2, 1, 2, 3]\<close>: position 0 holds 2 and not 3, the
  value \<^verbatim>\<open>v[2]\<close> had when it was inserted.
\<close>

theorem C4_Insert_of_own_element:
  "(case SimpleVector_appends int_elem [] SimpleVector_default [1, 2, 3] of
      None \<Rightarrow> None
    | Some (h, v) \<Rightarrow>
        (case SimpleVector_Insert int_elem h v (SimpleVector_cbegin v)
                (Some (Element (SimpleVector_index v 2))) of
           Returns r (h', v') \<Rightarrow>
             Some (GetSize v, GetCapacity v, SimpleVector_get h v 2, GetSize v',
                   r = SimpleVector_index v' 0,
                   map (SimpleVector_get h' v') [0, 1, 2, 3])
         | Throws e s \<Rightarrow> None
         | Undefined \<Rightarrow> None))
   = Some (3, 4, Some 3, 4, True, [Some 2, Some 1, Some 2, Some 3])"
  by code_simp

text \<open>
  C5. Removing at position \<open>p\<close>, \<open>0 \<le> p < size\<close>, of a well-formed vector returns;
  afterwards the size is one less, the elements before \<open>p\<close> are as before, the elements
  formerly at \<open>p + 1, \<dots>, size - 1\<close> are at \<open>p, \<dots>, size - 2\<close>, and the returned position
  is position \<open>p\<close> of the vector: that of the element that took the place of the removed
  one, or the end when the last element was removed. This holds for \<^verbatim>\<open>Vector::Erase\<close>
  and \<^verbatim>\<open>SimpleVector::Erase\<close>.
\<close>

theorem C5_erase_at_position:
  "(Vector_wf h v \<and> p < Size v \<longrightarrow>
      (\<exists>r h' v'. Vector_Erase T h v (ptr_add (Vector_begin v) p) = Some (r, h', v') \<and>
         Size v' = Size v - 1 \<and>
         (\<forall>i<p. Vector_get h' v' i = Vector_get h v i) \<and>
         (\<forall>i. p \<le> i \<and> Suc i < Size v \<longrightarrow> Vector_get h' v' i = Vector_get h v (Suc i)) \<and>
         r = ptr_add (Vector_begin v') p \<and>
         (p < Size v' \<longrightarrow> Vector_index v' p = Some r) \<and>
         (p = Size v' \<longrightarrow> r = Vector_end v'))) \<and>
   (SimpleVector_wf g w \<and> p < GetSize w \<longrightarrow>
      (\<exists>r g' w'. SimpleVector_Erase T g w (ptr_add (SimpleVector_begin w) p) = Some (r, g', w') \<and>
         GetSize w' = GetSize w - 1 \<and>
         (\<forall>i<p. SimpleVector_get g' w' i = SimpleVector_get g w i) \<and>
         (\<forall>i. p \<le> i \<and> Suc i < GetSize w \<longrightarrow> SimpleVector_get g' w' i = SimpleVector_get g w (Suc i)) \<and>
         r = SimpleVector_index w' p \<and>
         (p = GetSize w' \<longrightarrow> r = SimpleVector_end w')))"
proof (intro conjI impI)
  assume "Vector_wf h v \<and> p < Size v"
  then show "\<exists>r h' v'. Vector_Erase T h v (ptr_add (Vector_begin v) p) = Some (r, h', v') \<and>
         Size v' = Size v - 1 \<and>
         (\<forall>i<p. Vector_get h' v' i = Vector_get h v i) \<and>
         (\<forall>i. p \<le> i \<and> Suc i < Size v \<longrightarrow> Vector_get h' v' i = Vector_get h v (Suc i)) \<and>
         r = ptr_add (Vector_begin v') p \<and>
         (p < Size v' \<longrightarrow> Vector_index v' p = Some r) \<and>
         (p = Size v' \<longrightarrow> r = Vector_end v')"
    using Vector_Erase_elements [where h = h and v = v and p = p and T = T]
    unfolding Size_def by blast
next
  assume "SimpleVector_wf g w \<and> p < GetSize w"
  then show "\<exists>r g' w'. SimpleVector_Erase T g w (ptr_add (SimpleVector_begin w) p) = Some (r, g', w') \<and>
         GetSize w' = GetSize w - 1 \<and>
         (\<forall>i<p. SimpleVector_get g' w' i = SimpleVector_get g w i) \<and>
         (\<forall>i. p \<le> i \<and> Suc i < GetSize w \<longrightarrow> SimpleVector_get g' w' i = SimpleVector_get g w (Suc i)) \<and>
         r = SimpleVector_index w' p \<and>
         (p = GetSize w' \<longrightarrow> r = SimpleVector_end w')"
    using SimpleVector_Erase_elements [where h = g and v = w and p = p and T = T]
    unfolding GetSize_def by blast
qed

theorem C5_erase_at_position_witness:
  "Vector_wf [Some [Obj 1, Obj 2, Obj 3, Raw :: int slot]]
     \<lparr>v_data = \<lparr>rm_buffer = (1, 0), rm_capacity = 4\<rparr>, v_size = 3\<rparr> \<and>
   (0::nat) < Size \<lparr>v_data = \<lparr>rm_buffer = (1, 0), rm_capacity = 4\<rparr>, v_size = 3\<rparr> \<and>
   (\<exists>r h' v'. Vector_Erase int_elem [Some [Obj 1, Obj 2, Obj 3, Raw]]
        \<lparr>v_data = \<lparr>rm_buffer = (1, 0), rm_capacity = 4\<rparr>, v_size = 3\<rparr> (1, 0) = Some (r, h', v') \<and>
      Size v' = 2 \<and> Vector_get h' v' 0 = Some 2 \<and> Vector_get h' v' 1 = Some 3 \<and>
      Vector_index v' 0 = Some r) \<and>
   SimpleVector_wf [Some [1, 2, 3 :: int]] \<lparr>sv_items = (1, 0), sv_size = 3, sv_capacity = 3\<rparr> \<and>
   (\<exists>r g' w'. SimpleVector_Erase int_elem [Some [1, 2, 3]]
        \<lparr>sv_items = (1, 0), sv_size = 3, sv_capacity = 3\<rparr> (1, 0) = Some (r, g', w') \<and>
      GetSize w' = 2 \<and> SimpleVector_get g' w' 0 = Some 2 \<and> SimpleVector_get g' w' 1 = Some 3)"
proof -
  let ?h = "[Some [Obj 1, Obj 2, Obj 3, Raw :: int slot]]"
  let ?v = "\<lparr>v_data = \<lparr>rm_buffer = (1, 0), rm_capacity = 4\<rparr>, v_size = 3\<rparr>"
  let ?g = "[Some [1, 2, 3 :: int]]"
  let ?w = "\<lparr>sv_items = (1, 0), sv_size = 3, sv_capacity = 3\<rparr>"
  have wf: "Vector_wf ?h ?v \<and> (0::nat) < Size ?v" "SimpleVector_wf ?g ?w \<and> (0::nat) < GetSize ?w"
    by (simp_all add: Vector_wf_def SimpleVector_wf_def Capacity_def block_def Size_def GetSize_def)
  have old: "Vector_get ?h ?v (Suc 0) = Some 2" "Vector_get ?h ?v (Suc 1) = Some 3"
    "SimpleVector_get ?g ?w (Suc 0) = Some 2" "SimpleVector_get ?g ?w (Suc 1) = Some 3"
    by (simp_all add: Vector_get_def Vector_index_def RawMemory_index_def ptr_add_def deref_def
        block_def SimpleVector_get_def SimpleVector_At_def ArrayPtr_index_def)
  have p: "ptr_add (Vector_begin ?v) 0 = (1, 0)" "ptr_add (SimpleVector_begin ?w) 0 = (1, 0)"
    by (simp_all add: ptr_add_def Vector_begin_def GetAddress_def SimpleVector_begin_def)
  note c = C5_erase_at_position [where h = ?h and v = ?v and p = 0 and T = int_elem
      and g = ?g and w = ?w]
  from c [THEN conjunct1, THEN mp, OF wf(1)] obtain r h' v' where
    1: "Vector_Erase int_elem ?h ?v (ptr_add (Vector_begin ?v) 0) = Some (r, h', v')"
    and 2: "Size v' = Size ?v - 1"
    and 5: "\<forall>i. 0 \<le> i \<and> Suc i < Size ?v \<longrightarrow> Vector_get h' v' i = Vector_get ?h ?v (Suc i)"
    and 6: "0 < Size v' \<longrightarrow> Vector_index v' 0 = Some r"
    by (elim exE conjE) (rule that, assumption+)
  from c [THEN conjunct2, THEN mp, OF wf(2)] obtain r' g' w' where
    7: "SimpleVector_Erase int_elem ?g ?w (ptr_add (SimpleVector_begin ?w) 0) = Some (r', g', w')"
    and 8: "GetSize w' = GetSize ?w - 1"
    and 11: "\<forall>i. 0 \<le> i \<and> Suc i < GetSize ?w \<longrightarrow> SimpleVector_get g' w' i = SimpleVector_get ?g ?w (Suc i)"
    by (elim exE conjE) (rule that, assumption+)
  have s: "Size v' = 2" "GetSize w' = 2"
    using 2 8 by (simp_all add: Size_def GetSize_def)
  have a: "Vector_get h' v' 0 = Some 2" "Vector_get h' v' 1 = Some 3"
    using 5 [rule_format, of 0] 5 [rule_format, of 1] old by (simp_all add: Size_def)
  have a': "SimpleVector_get g' w' 0 = Some 2" "SimpleVector_get g' w' 1 = Some 3"
    using 11 [rule_format, of 0] 11 [rule_format, of 1] old by (simp_all add: GetSize_def)
  have i: "Vector_index v' 0 = Some r"
    using 6 s by simp
  have A: "\<exists>r h' v'. Vector_Erase int_elem ?h ?v (1, 0) = Some (r, h', v') \<and>
      Size v' = 2 \<and> Vector_get h' v' 0 = Some 2 \<and> Vector_get h' v' 1 = Some 3 \<and>
      Vector_index v' 0 = Some r"
    using 1 [unfolded p] s(1) a i by (intro exI conjI)
  have B: "\<exists>r g' w'. SimpleVector_Erase int_elem ?g ?w (1, 0) = Some (r, g', w') \<and>
      GetSize w' = 2 \<and> SimpleVector_get g' w' 0 = Some 2 \<and> SimpleVector_get g' w' 1 = Some 3"
    using 7 [unfolded p] s(2) a' by (intro exI conjI)
  show ?thesis
    using wf A B by simp
qed

text \<open>
  C7. The checked accessor \<^verbatim>\<open>SimpleVector::At\<close> throws \<^verbatim>\<open>std::out_of_range\<close> exactly when
  \<open>index \<ge> size\<close>, with the message \<^verbatim>\<open>index >= size\<close>; when \<open>index < size\<close> it returns the
  reference that \<^verbatim>\<open>operator[]\<close> yields for that index, which in a well-formed vector is
  that of element \<open>index\<close>. In both cases the vector and the memory are left as they
  were.
\<close>

theorem C7_At_checked:
  "((\<exists>msg s. SimpleVector_At h v index = Throws (out_of_range msg) s) \<longleftrightarrow> index \<ge> GetSize v) \<and>
   (index \<ge> GetSize v \<longrightarrow>
      SimpleVector_At h v index = Throws (out_of_range ''index >= size'') (h, v)) \<and>
   (index < GetSize v \<longrightarrow>
      SimpleVector_At h v index = Returns (SimpleVector_index v index) (h, v)) \<and>
   (SimpleVector_wf h v \<and> index < GetSize v \<longrightarrow>
      deref h (SimpleVector_index v index) = Some (SimpleVector_cells h v ! index))"
proof -
  have "deref h (SimpleVector_index v index) = Some (SimpleVector_cells h v ! index)"
    if "SimpleVector_wf h v" "index < sv_size v"
    using SimpleVector_get_cells [OF that] that(2)
    by (simp add: SimpleVector_get_def SimpleVector_At_def SimpleVector_index_def)
  then show ?thesis
    by (auto simp: SimpleVector_At_def SimpleVector_index_def GetSize_def)
qed

theorem C7_At_checked_witness:
  "(3::nat) \<ge> GetSize \<lparr>sv_items = (1, 0), sv_size = 3, sv_capacity = 4\<rparr> \<and>
   SimpleVector_At [Some [10, 20, 30, 0 :: int]] \<lparr>sv_items = (1, 0), sv_size = 3, sv_capacity = 4\<rparr> 3
     = Throws (out_of_range ''index >= size'')
         ([Some [10, 20, 30, 0]], \<lparr>sv_items = (1, 0), sv_size = 3, sv_capacity = 4\<rparr>) \<and>
   SimpleVector_wf [Some [10, 20, 30, 0 :: int]] \<lparr>sv_items = (1, 0), sv_size = 3, sv_capacity = 4\<rparr> \<and>
   (1::nat) < GetSize \<lparr>sv_items = (1, 0), sv_size = 3, sv_capacity = 4\<rparr> \<and>
   SimpleVector_At [Some [10, 20, 30, 0 :: int]] \<lparr>sv_items = (1, 0), sv_size = 3, sv_capacity = 4\<rparr> 1
     = Returns (1, 1) ([Some [10, 20, 30, 0]], \<lparr>sv_items = (1, 0), sv_size = 3, sv_capacity = 4\<rparr>) \<and>
   deref [Some [10, 20, 30, 0 :: int]] (1, 1) = Some 20"
  using C7_At_checked [where h = "[Some [10, 20, 30, 0 :: int]]"
      and v = "\<lparr>sv_items = (1, 0), sv_size = 3, sv_capacity = 4\<rparr>" and index = 3]
    C7_At_checked [where h = "[Some [10, 20, 30, 0 :: int]]"
      and v = "\<lparr>sv_items = (1, 0), sv_size = 3, sv_capacity = 4\<rparr>" and index = 1]
  by (simp add: GetSize_def SimpleVector_wf_def block_def SimpleVector_index_def ArrayPtr_index_def
      ptr_add_def SimpleVector_cells_def)

text \<open>
  C8, as stated, fails for \<^verbatim>\<open>SimpleVector::Resize\<close>: when \<open>newSize\<close> exceeds the capacity,
  the new capacity is \<^verbatim>\<open>std::max(new_size, capacity_ * 2)\<close>. A vector of size 0 and
  capacity 2 (built from a reservation of 2) has capacity 4, not 3, after \<^verbatim>\<open>Resize(3)\<close>.
\<close>

theorem C8_counterexample:
  "SimpleVector_reserved int_elem [] 2
     = ([Some [0, 0]], \<lparr>sv_items = (1, 0), sv_size = 0, sv_capacity = 2\<rparr>) \<and>
   GetCapacity \<lparr>sv_items = (1, 0), sv_size = 0, sv_capacity = 2\<rparr> < 3 \<and>
   SimpleVector_Resize int_elem [Some [0, 0]] \<lparr>sv_items = (1, 0), sv_size = 0, sv_capacity = 2\<rparr> 3
     = Returns () ([None, Some [0, 0, 0, 0]], \<lparr>sv_items = (2, 0), sv_size = 3, sv_capacity = 4\<rparr>) \<and>
   GetCapacity \<lparr>sv_items = (2, 0), sv_size = 3, sv_capacity = 4\<rparr> \<noteq> 3"
  by code_simp


text \<open>
  C8, amended. \<^verbatim>\<open>Resize(newSize)\<close> on a well-formed vector:
  \<^item> if \<open>newSize < size\<close>, the call returns, the size becomes \<open>newSize\<close>, the first
    \<open>newSize\<close> elements and the capacity are unchanged (so \<^verbatim>\<open>Resize(0)\<close> leaves the
    capacity unchanged); \<^verbatim>\<open>Vector\<close> destroys the elements in \<open>[newSize, size)\<close>, while
    \<^verbatim>\<open>SimpleVector\<close> only lowers the size and leaves the array as it is;
  \<^item> if \<open>newSize > capacity\<close> and value-initialisation does not throw, the call returns,
    the capacity becomes exactly \<open>newSize\<close> for \<^verbatim>\<open>Vector\<close> and
    \<open>max newSize (2 * capacity)\<close> for \<^verbatim>\<open>SimpleVector\<close>, the first \<open>size\<close> elements are
    preserved, the elements \<open>[size, newSize)\<close> are value-initialised and the size is
    \<open>newSize\<close>;
  \<^item> the size is updated only after the new elements are constructed: if
    value-initialisation throws, the call throws and the size is the old one (and
    \<^verbatim>\<open>Vector\<close> still holds its elements).

  For \<^verbatim>\<open>Vector\<close> the growing cases are stated for a \<open>newSize\<close> whose byte count
  \<^verbatim>\<open>newSize * sizeof(T)\<close> is representable in \<^verbatim>\<open>size_t\<close>; beyond that \<^verbatim>\<open>Allocate\<close>
  obtains a block that is too small, and nothing is stated.
\<close>

theorem C8_resize:
  "(Vector_wf h v \<and> n < Size v \<longrightarrow>
      (\<exists>h' v'. Vector_Resize T h v n = Returns () (h', v') \<and> Size v' = n \<and>
         Capacity v' = Capacity v \<and>
         (\<forall>i<n. Vector_get h' v' i = Vector_get h v i) \<and>
         (\<forall>i. n \<le> i \<and> i < Size v \<longrightarrow> deref h' (ptr_add (Vector_begin v') i) = Some Raw))) \<and>
   (Vector_wf h v \<and> Capacity v < n \<and> fits_size_t T n \<and> value_init T = Some d \<longrightarrow>
      (\<exists>h' v'. Vector_Resize T h v n = Returns () (h', v') \<and> Size v' = n \<and> Capacity v' = n \<and>
         (\<forall>i<Size v. Vector_get h' v' i = Vector_get h v i) \<and>
         (\<forall>i. Size v \<le> i \<and> i < n \<longrightarrow> Vector_get h' v' i = Some d))) \<and>
   (Vector_wf h v \<and> Capacity v < n \<and> fits_size_t T n \<and> value_init T = None \<longrightarrow>
      (\<exists>h' v'. Vector_Resize T h v n = Throws element_exception (h', v') \<and> Size v' = Size v \<and>
         (\<forall>i<Size v. Vector_get h' v' i = Vector_get h v i))) \<and>
   (SimpleVector_wf g w \<and> n < GetSize w \<longrightarrow>
      SimpleVector_Resize T g w n = Returns () (g, w\<lparr>sv_size := n\<rparr>) \<and>
      GetSize (w\<lparr>sv_size := n\<rparr>) = n \<and> GetCapacity (w\<lparr>sv_size := n\<rparr>) = GetCapacity w \<and>
      (\<forall>i<n. SimpleVector_get g (w\<lparr>sv_size := n\<rparr>) i = SimpleVector_get g w i)) \<and>
   (SimpleVector_wf g w \<and> GetCapacity w < n \<and> value_init T = Some d \<longrightarrow>
      (\<exists>g' w'. SimpleVector_Resize T g w n = Returns () (g', w') \<and> GetSize w' = n \<and>
         GetCapacity w' = max n (2 * GetCapacity w) \<and>
         (\<forall>i<GetSize w. SimpleVector_get g' w' i = SimpleVector_get g w i) \<and>
         (\<forall>i. GetSize w \<le> i \<and> i < n \<longrightarrow> SimpleVector_get g' w' i = Some d))) \<and>
   (SimpleVector_wf g w \<and> GetCapacity w < n \<and> value_init T = None \<longrightarrow>
      (\<exists>g'. SimpleVector_Resize T g w n = Throws element_exception (g', w)))"
proof (intro conjI impI)
  assume a: "Vector_wf h v \<and> n < Size v"
  then obtain h' v' where r: "Vector_Resize T h v n = Returns () (h', v')"
    and wf': "Vector_wf h' v'" and sz: "v_size v' = n" and cap: "Capacity v' = Capacity v"
    and c: "Vector_cells h' v' = take n (Vector_cells h v)"
    and raw: "\<forall>i. n \<le> i \<and> i < v_size v \<longrightarrow> deref h' (ptr_add (rm_buffer (v_data v')) i) = Some Raw"
    using Vector_Resize_shrink [where h = h and v = v and T = T and n = n]
    by (auto simp: Size_def split: outcome.splits)
  have "Vector_get h' v' i = Vector_get h v i" if "i < n" for i
    using that a sz c Vector_get_cells [OF wf', of i] Vector_get_cells [of h v i]
    by (simp add: Size_def)
  then show "\<exists>h' v'. Vector_Resize T h v n = Returns () (h', v') \<and> Size v' = n \<and>
         Capacity v' = Capacity v \<and>
         (\<forall>i<n. Vector_get h' v' i = Vector_get h v i) \<and>
         (\<forall>i. n \<le> i \<and> i < Size v \<longrightarrow> deref h' (ptr_add (Vector_begin v') i) = Some Raw)"
    using r sz cap raw by (auto simp: Size_def Vector_begin_def GetAddress_def)
next
  assume a: "Vector_wf h v \<and> Capacity v < n \<and> fits_size_t T n \<and> value_init T = Some d"
  then have le: "v_size v \<le> n" "v_size v \<le> Capacity v"
    by (auto simp: Vector_wf_def)
  from a le obtain h' v' where r: "Vector_Resize T h v n = Returns () (h', v')"
    and wf': "Vector_wf h' v'" and sz: "v_size v' = n" and cap: "Capacity v' = max (Capacity v) n"
    and c: "Vector_cells h' v' = Vector_cells h v @ replicate (n - v_size v) (Obj d)"
    using Vector_Resize_grow [where h = h and v = v and T = T and n = n]
    by (auto split: outcome.splits)
  have len: "length (Vector_cells h v) = v_size v"
    using a by (simp add: Vector_cells_length)
  have 1: "Vector_get h' v' i = Vector_get h v i" if "i < Size v" for i
    using that a le sz c len Vector_get_cells [OF wf', of i] Vector_get_cells [of h v i]
    by (simp add: Size_def nth_append)
  have 2: "Vector_get h' v' i = Some d" if "Size v \<le> i \<and> i < n" for i
  proof -
    have "i - v_size v < n - v_size v"
      using that by (auto simp: Size_def)
    then show ?thesis
      using that sz c len Vector_get_cells [OF wf', of i]
      by (simp add: Size_def nth_append)
  qed
  show "\<exists>h' v'. Vector_Resize T h v n = Returns () (h', v') \<and> Size v' = n \<and> Capacity v' = n \<and>
         (\<forall>i<Size v. Vector_get h' v' i = Vector_get h v i) \<and>
         (\<forall>i. Size v \<le> i \<and> i < n \<longrightarrow> Vector_get h' v' i = Some d)"
    using r sz cap a 1 2 by (auto simp: Size_def)
next
  assume a: "Vector_wf h v \<and> Capacity v < n \<and> fits_size_t T n \<and> value_init T = None"
  then have le: "v_size v \<le> n" "v_size v \<le> Capacity v"
    by (auto simp: Vector_wf_def)
  from a le obtain h' v' where r: "Vector_Resize T h v n = Throws element_exception (h', v')"
    and wf': "Vector_wf h' v'" and sz: "v_size v' = v_size v"
    and c: "Vector_cells h' v' = Vector_cells h v"
    using Vector_Resize_grow [where h = h and v = v and T = T and n = n]
    by (auto split: outcome.splits)
  have "Vector_get h' v' i = Vector_get h v i" if "i < Size v" for i
    using that a sz c Vector_get_cells [OF wf', of i] Vector_get_cells [of h v i]
    by (simp add: Size_def)
  then show "\<exists>h' v'. Vector_Resize T h v n = Throws element_exception (h', v') \<and> Size v' = Size v \<and>
         (\<forall>i<Size v. Vector_get h' v' i = Vector_get h v i)"
    using r sz by (auto simp: Size_def)
next
  assume a: "SimpleVector_wf g w \<and> n < GetSize w"
  then show "SimpleVector_Resize T g w n = Returns () (g, w\<lparr>sv_size := n\<rparr>)"
    by (simp add: SimpleVector_Resize_shrink GetSize_def SimpleVector_wf_def)
  show "GetSize (w\<lparr>sv_size := n\<rparr>) = n" "GetCapacity (w\<lparr>sv_size := n\<rparr>) = GetCapacity w"
    by (simp_all add: GetSize_def GetCapacity_def)
  show "\<forall>i<n. SimpleVector_get g (w\<lparr>sv_size := n\<rparr>) i = SimpleVector_get g w i"
    using a by (simp add: SimpleVector_get_shrink GetSize_def)
next
  assume a: "SimpleVector_wf g w \<and> GetCapacity w < n \<and> value_init T = Some d"
  then have le: "sv_size w \<le> sv_capacity w" "sv_capacity w < n"
    by (auto simp: SimpleVector_wf_def GetCapacity_def)
  from a obtain g' w' where r: "SimpleVector_Resize T g w n = Returns () (g', w')"
    and wf': "SimpleVector_wf g' w'" and sz: "sv_size w' = n"
    and cap: "sv_capacity w' = max n (sv_capacity w * 2)"
    and c: "SimpleVector_cells g' w' = take n (SimpleVector_cells g w) @ replicate (n - sv_size w) d"
    using SimpleVector_Resize_Returns [where h = g and v = w and T = T and n = n and d = d]
    by (auto simp: GetCapacity_def split: outcome.splits)
  have len: "length (SimpleVector_cells g w) = sv_size w"
    using a by (simp add: SimpleVector_cells_length)
  have 1: "SimpleVector_get g' w' i = SimpleVector_get g w i" if "i < GetSize w" for i
    using that a le sz c len SimpleVector_get_cells [OF wf', of i] SimpleVector_get_cells [of g w i]
    by (simp add: GetSize_def nth_append)
  have 2: "SimpleVector_get g' w' i = Some d" if "GetSize w \<le> i \<and> i < n" for i
  proof -
    have "i - sv_size w < n - sv_size w"
      using that by (auto simp: GetSize_def)
    then show ?thesis
      using that le sz c len SimpleVector_get_cells [OF wf', of i]
      by (simp add: GetSize_def nth_append)
  qed
  show "\<exists>g' w'. SimpleVector_Resize T g w n = Returns () (g', w') \<and> GetSize w' = n \<and>
         GetCapacity w' = max n (2 * GetCapacity w) \<and>
         (\<forall>i<GetSize w. SimpleVector_get g' w' i = SimpleVector_get g w i) \<and>
         (\<forall>i. GetSize w \<le> i \<and> i < n \<longrightarrow> SimpleVector_get g' w' i = Some d)"
    using r sz cap 1 2 by (auto simp: GetSize_def GetCapacity_def mult.commute)
next
  assume a: "SimpleVector_wf g w \<and> GetCapacity w < n \<and> value_init T = None"
  then have "sv_size w < n"
    by (auto simp: SimpleVector_wf_def GetCapacity_def)
  then show "\<exists>g'. SimpleVector_Resize T g w n = Throws element_exception (g', w)"
    using a SimpleVector_Resize_Throws [where h = g and v = w and T = T and n = n]
    by (auto split: outcome.splits)
qed


theorem C8_resize_witness:
  "Vector_wf [Some [Obj 1, Obj 2 :: int slot]] \<lparr>v_data = \<lparr>rm_buffer = (1, 0), rm_capacity = 2\<rparr>, v_size = 2\<rparr> \<and>
   (1::nat) < Size \<lparr>v_data = \<lparr>rm_buffer = (1, 0), rm_capacity = 2\<rparr>, v_size = 2\<rparr> \<and>
   Capacity \<lparr>v_data = \<lparr>rm_buffer = (1, 0), rm_capacity = 2\<rparr>, v_size = 2\<rparr> < (3::nat) \<and>
   fits_size_t int_elem 3 \<and> fits_size_t (int_elem\<lparr>value_init := None\<rparr>) 3 \<and>
   value_init int_elem = Some 0 \<and> value_init (int_elem\<lparr>value_init := None\<rparr>) = None \<and>
   (\<exists>h' v'. Vector_Resize int_elem [Some [Obj 1, Obj 2]]
        \<lparr>v_data = \<lparr>rm_buffer = (1, 0), rm_capacity = 2\<rparr>, v_size = 2\<rparr> 1 = Returns () (h', v') \<and>
      Size v' = 1 \<and> Capacity v' = 2 \<and> Vector_get h' v' 0 = Some 1) \<and>
   (\<exists>h' v'. Vector_Resize int_elem [Some [Obj 1, Obj 2]]
        \<lparr>v_data = \<lparr>rm_buffer = (1, 0), rm_capacity = 2\<rparr>, v_size = 2\<rparr> 3 = Returns () (h', v') \<and>
      Size v' = 3 \<and> Capacity v' = 3 \<and> Vector_get h' v' 0 = Some 1 \<and> Vector_get h' v' 2 = Some 0) \<and>
   (\<exists>h' v'. Vector_Resize (int_elem\<lparr>value_init := None\<rparr>) [Some [Obj 1, Obj 2]]
        \<lparr>v_data = \<lparr>rm_buffer = (1, 0), rm_capacity = 2\<rparr>, v_size = 2\<rparr> 3
          = Throws element_exception (h', v') \<and> Size v' = 2) \<and>
   SimpleVector_wf [Some [1, 2 :: int]] \<lparr>sv_items = (1, 0), sv_size = 2, sv_capacity = 2\<rparr> \<and>
   (1::nat) < GetSize \<lparr>sv_items = (1, 0), sv_size = 2, sv_capacity = 2\<rparr> \<and>
   GetCapacity \<lparr>sv_items = (1, 0), sv_size = 2, sv_capacity = 2\<rparr> < (3::nat) \<and>
   SimpleVector_Resize int_elem [Some [1, 2]] \<lparr>sv_items = (1, 0), sv_size = 2, sv_capacity = 2\<rparr> 1
     = Returns () ([Some [1, 2]], \<lparr>sv_items = (1, 0), sv_size = 1, sv_capacity = 2\<rparr>) \<and>
   (\<exists>g' w'. SimpleVector_Resize int_elem [Some [1, 2]]
        \<lparr>sv_items = (1, 0), sv_size = 2, sv_capacity = 2\<rparr> 3 = Returns () (g', w') \<and>
      GetSize w' = 3 \<and> GetCapacity w' = 4 \<and> SimpleVector_get g' w' 0 = Some 1 \<and>
      SimpleVector_get g' w' 2 = Some 0) \<and>
   (\<exists>g'. SimpleVector_Resize (int_elem\<lparr>value_init := None\<rparr>) [Some [1, 2]]
        \<lparr>sv_items = (1, 0), sv_size = 2, sv_capacity = 2\<rparr> 3
          = Throws element_exception (g', \<lparr>sv_items = (1, 0), sv_size = 2, sv_capacity = 2\<rparr>))"
proof -
  let ?h = "[Some [Obj 1, Obj 2 :: int slot]]"
  let ?v = "\<lparr>v_data = \<lparr>rm_buffer = (1, 0), rm_capacity = 2\<rparr>, v_size = 2\<rparr>"
  let ?g = "[Some [1, 2 :: int]]"
  let ?w = "\<lparr>sv_items = (1, 0), sv_size = 2, sv_capacity = 2\<rparr>"
  let ?T = "int_elem\<lparr>value_init := None\<rparr>"
  have wf: "Vector_wf ?h ?v" "SimpleVector_wf ?g ?w"
    by (simp_all add: Vector_wf_def SimpleVector_wf_def Capacity_def block_def)
  have sz: "(1::nat) < Size ?v" "Capacity ?v < (3::nat)" "(1::nat) < GetSize ?w" "GetCapacity ?w < (3::nat)"
    by (simp_all add: Size_def Capacity_def GetSize_def GetCapacity_def)
  have vi: "value_init int_elem = Some 0" "value_init ?T = None"
    by (simp_all add: int_elem_def)
  have ft: "fits_size_t int_elem 3" "fits_size_t ?T 3"
    by (simp_all add: fits_size_t_def int_elem_def)
  have old: "Vector_get ?h ?v 0 = Some 1" "SimpleVector_get ?g ?w 0 = Some 1"
    by (simp_all add: Vector_get_def Vector_index_def RawMemory_index_def ptr_add_def deref_def
        block_def SimpleVector_get_def SimpleVector_At_def ArrayPtr_index_def)
  note c1 = C8_resize [where h = ?h and v = ?v and n = 1 and T = int_elem and d = 0
      and g = ?g and w = ?w]
  note c3 = C8_resize [where h = ?h and v = ?v and n = 3 and T = int_elem and d = 0
      and g = ?g and w = ?w]
  note cT = C8_resize [where h = ?h and v = ?v and n = 3 and T = ?T and g = ?g and w = ?w]
  from c1 [THEN conjunct1, THEN mp, OF conjI [OF wf(1) sz(1)]] obtain h' v' where
    "Vector_Resize int_elem ?h ?v 1 = Returns () (h', v')" "Size v' = 1" "Capacity v' = Capacity ?v"
    "\<forall>i<1. Vector_get h' v' i = Vector_get ?h ?v i"
    by (elim exE conjE) (rule that, assumption+)
  then have A: "\<exists>h' v'. Vector_Resize int_elem ?h ?v 1 = Returns () (h', v') \<and>
      Size v' = 1 \<and> Capacity v' = 2 \<and> Vector_get h' v' 0 = Some 1"
    using old(1) by (auto simp: Capacity_def)
  from c3 [THEN conjunct2, THEN conjunct1, THEN mp,
      OF conjI [OF wf(1) conjI [OF sz(2) conjI [OF ft(1) vi(1)]]]]
  obtain h' v' where
    "Vector_Resize int_elem ?h ?v 3 = Returns () (h', v')" "Size v' = 3" "Capacity v' = 3"
    "\<forall>i<Size ?v. Vector_get h' v' i = Vector_get ?h ?v i"
    "\<forall>i. Size ?v \<le> i \<and> i < 3 \<longrightarrow> Vector_get h' v' i = Some 0"
    by (elim exE conjE) (rule that, assumption+)
  then have B: "\<exists>h' v'. Vector_Resize int_elem ?h ?v 3 = Returns () (h', v') \<and>
      Size v' = 3 \<and> Capacity v' = 3 \<and> Vector_get h' v' 0 = Some 1 \<and> Vector_get h' v' 2 = Some 0"
    using old(1) by (auto simp: Size_def)
  from cT [THEN conjunct2, THEN conjunct2, THEN conjunct1, THEN mp,
      OF conjI [OF wf(1) conjI [OF sz(2) conjI [OF ft(2) vi(2)]]]]
  obtain h' v' where
    "Vector_Resize ?T ?h ?v 3 = Throws element_exception (h', v')" "Size v' = Size ?v"
    by (elim exE conjE) (rule that, assumption+)
  then have C: "\<exists>h' v'. Vector_Resize ?T ?h ?v 3 = Throws element_exception (h', v') \<and> Size v' = 2"
    by (auto simp: Size_def)
  have D: "SimpleVector_Resize int_elem ?g ?w 1
     = Returns () (?g, \<lparr>sv_items = (1, 0), sv_size = 1, sv_capacity = 2\<rparr>)"
    using c1 [THEN conjunct2, THEN conjunct2, THEN conjunct2, THEN conjunct1, THEN mp,
      OF conjI [OF wf(2) sz(3)]]
    by simp
  from c3 [THEN conjunct2, THEN conjunct2, THEN conjunct2, THEN conjunct2, THEN conjunct1, THEN mp,
      OF conjI [OF wf(2) conjI [OF sz(4) vi(1)]]]
  obtain g' w' where
    "SimpleVector_Resize int_elem ?g ?w 3 = Returns () (g', w')" "GetSize w' = 3"
    "GetCapacity w' = max 3 (2 * GetCapacity ?w)"
    "\<forall>i<GetSize ?w. SimpleVector_get g' w' i = SimpleVector_get ?g ?w i"
    "\<forall>i. GetSize ?w \<le> i \<and> i < 3 \<longrightarrow> SimpleVector_get g' w' i = Some 0"
    by (elim exE conjE) (rule that, assumption+)
  then have E: "\<exists>g' w'. SimpleVector_Resize int_elem ?g ?w 3 = Returns () (g', w') \<and>
      GetSize w' = 3 \<and> GetCapacity w' = 4 \<and> SimpleVector_get g' w' 0 = Some 1 \<and>
      SimpleVector_get g' w' 2 = Some 0"
    using old(2) by (auto simp: GetSize_def GetCapacity_def)
  have F: "\<exists>g'. SimpleVector_Resize ?T ?g ?w 3 = Throws element_exception (g', ?w)"
    using cT [THEN conjunct2, THEN conjunct2, THEN conjunct2, THEN conjunct2, THEN conjunct2, THEN mp,
      OF conjI [OF wf(2) conjI [OF sz(4) vi(2)]]] .
  show ?thesis
    using wf sz vi ft A B C D E F by simp
qed

text \<open>
  C9. In every state that a program over vectors reaches from the state without objects
  by any sequence of public operations (constructors, \<^verbatim>\<open>Reserve\<close>, \<^verbatim>\<open>Resize\<close>, appends,
  inserts, \<^verbatim>\<open>Erase\<close>, \<^verbatim>\<open>PopBack\<close>, swaps, copy and move assignment, \<^verbatim>\<open>Clear\<close>, \<^verbatim>\<open>At\<close>,
  element assignment), whether the calls return or throw, every vector has a size that
  does not exceed its capacity. This holds for \<^verbatim>\<open>Vector\<close> and for \<^verbatim>\<open>SimpleVector\<close>. A call
  with undefined behaviour (it fails an assertion of the code, or passes a position
  outside the vector) has no state after it and ends the run.
\<close>

theorem C9_size_le_capacity:
  "(Vector_run T ([], []) ops = Some (h, vs) \<longrightarrow> (\<forall>v\<in>set vs. Size v \<le> Capacity v)) \<and>
   (SimpleVector_run T ([], []) ops' = Some (g, ws) \<longrightarrow> (\<forall>w\<in>set ws. GetSize w \<le> GetCapacity w))"
  using Vector_run_inv [where T = T and s = "([], [])" and ops = ops and h' = h and vs' = vs]
    SimpleVector_run_inv [where T = T and s = "([], [])" and ops = ops' and h' = g and vs' = ws]
  by (simp add: Size_def GetSize_def GetCapacity_def)

theorem C9_size_le_capacity_witness:
  "Vector_run int_elem ([], [])
       [New_Vector, Do_PushBack 0 (Some 1), Do_PushBack 0 (Some 2), Do_PushBack 0 (Some 3), Do_PopBack 0]
     = Some ([None, None, Some [Obj 1, Obj 2, Raw, Raw]],
             [\<lparr>v_data = \<lparr>rm_buffer = (3, 0), rm_capacity = 4\<rparr>, v_size = 2\<rparr>]) \<and>
   Size \<lparr>v_data = \<lparr>rm_buffer = (3, 0), rm_capacity = 4\<rparr>, v_size = 2\<rparr>
     \<le> Capacity \<lparr>v_data = \<lparr>rm_buffer = (3, 0), rm_capacity = 4\<rparr>, v_size = 2\<rparr> \<and>
   SimpleVector_run int_elem ([], [])
       [New_SimpleVector, Sv_PushBack 0 (Some (Object 7)), Sv_PushBack 0 (Some (Object 8)), Sv_PopBack 0]
     = Some ([None, Some [7, 8]], [\<lparr>sv_items = (2, 0), sv_size = 1, sv_capacity = 2\<rparr>]) \<and>
   GetSize \<lparr>sv_items = (2, 0), sv_size = 1, sv_capacity = 2\<rparr>
     \<le> GetCapacity \<lparr>sv_items = (2, 0), sv_size = 1, sv_capacity = 2\<rparr>"
proof -
  have 1: "Vector_run int_elem ([], [])
       [New_Vector, Do_PushBack 0 (Some 1), Do_PushBack 0 (Some 2), Do_PushBack 0 (Some 3), Do_PopBack 0]
     = Some ([None, None, Some [Obj 1, Obj 2, Raw, Raw]],
             [\<lparr>v_data = \<lparr>rm_buffer = (3, 0), rm_capacity = 4\<rparr>, v_size = 2\<rparr>])"
    by code_simp
  have 2: "SimpleVector_run int_elem ([], [])
       [New_SimpleVector, Sv_PushBack 0 (Some (Object 7)), Sv_PushBack 0 (Some (Object 8)), Sv_PopBack 0]
     = Some ([None, Some [7, 8]], [\<lparr>sv_items = (2, 0), sv_size = 1, sv_capacity = 2\<rparr>])"
    by code_simp
  show ?thesis
    using 1 2 C9_size_le_capacity [where T = int_elem
        and ops = "[New_Vector, Do_PushBack 0 (Some 1), Do_PushBack 0 (Some 2), Do_PushBack 0 (Some 3), Do_PopBack 0]"
        and h = "[None, None, Some [Obj 1, Obj 2, Raw, Raw]]"
        and vs = "[\<lparr>v_data = \<lparr>rm_buffer = (3, 0), rm_capacity = 4\<rparr>, v_size = 2\<rparr>]"
        and ops' = "[New_SimpleVector, Sv_PushBack 0 (Some (Object 7)), Sv_PushBack 0 (Some (Object 8)), Sv_PopBack 0]"
        and g = "[None, Some [7, 8]]"
        and ws = "[\<lparr>sv_items = (2, 0), sv_size = 1, sv_capacity = 2\<rparr>]"]
    by simp
qed

text \<open>
  C10. Calling \<^verbatim>\<open>PopBack\<close> on an empty \<^verbatim>\<open>SimpleVector\<close> is a no-op: the call returns
  and leaves the size, the capacity and the array, hence all elements, as they were; the
  size does not wrap around. (\<open>SimpleVector_PopBack\<close> is a total function of the vector
  and does not touch the memory.)
\<close>

theorem C10_PopBack_empty_is_noop:
  "IsEmpty v \<Longrightarrow> SimpleVector_PopBack v = v"
  by (simp add: SimpleVector_PopBack_def)

theorem C10_PopBack_empty_is_noop_witness:
  "IsEmpty \<lparr>sv_items = (1, 0), sv_size = 0, sv_capacity = 2\<rparr> \<and>
   SimpleVector_PopBack \<lparr>sv_items = (1, 0), sv_size = 0, sv_capacity = 2\<rparr>
     = \<lparr>sv_items = (1, 0), sv_size = 0, sv_capacity = 2\<rparr>"
  using C10_PopBack_empty_is_noop [of "\<lparr>sv_items = (1, 0), sv_size = 0, sv_capacity = 2\<rparr>"]
  by (simp add: IsEmpty_def GetSize_def)

end
